(* ===== verification/Prelude.thy ===== *)
theory Prelude
  imports Main "HOL-Library.Word"
begin

text \<open>
  What the components of the development share: the machine integers and byte
  strings of the Rust code, the results of a poll, big-endian words, wrapping
  \<open>usize\<close> addition, and the rule that lifts a one-step invariant to every
  reachable state.
\<close>

unbundle bit_operations_syntax

section \<open>Collections of facts\<close>

text \<open>
  \<open>word_bits\<close> collects the equations that turn packed words into bits,
  \<open>chan_laws\<close> what a channel does to its queue, \<open>mux_defs\<close> the
  definitions that the automation may unfold.
\<close>

named_theorems word_bits
named_theorems chan_laws
named_theorems mux_defs

section \<open>Types\<close>

type_synonym byte = "8 word"
type_synonym u8 = "8 word"
type_synonym u32 = "32 word"
type_synonym u64 = "64 word"
type_synonym bytes = "byte list"

text \<open>
  \<open>usize\<close> is 64 bits wide. Sizes and lengths are natural numbers below
  \<open>2 ^ 64\<close>; where the code adds two of them, the wrap-around of a release
  build is written out.
\<close>

type_synonym usize = nat

definition usize_add :: "usize \<Rightarrow> usize \<Rightarrow> usize" where
  "usize_add a b = (a + b) mod 2 ^ 64"

lemma usize_add_exact: "a + b < 2 ^ 64 \<Longrightarrow> usize_add a b = a + b"
  by (simp add: usize_add_def)

text \<open>
  \<open>std::task::Poll\<close>, with a third outcome: the poll panicked, as it does at
  an \<open>unreachable!()\<close> or at the \<open>unwrap()\<close> of an absent value. Nothing
  continues after a panic.
\<close>

datatype 'a poll = Pending | Ready 'a | Panicked

type_synonym ('e, 'a) result = "'e + 'a"

abbreviation Err :: "'e \<Rightarrow> ('e, 'a) result" where
  "Err \<equiv> Inl"

abbreviation Ok :: "'a \<Rightarrow> ('e, 'a) result" where
  "Ok \<equiv> Inr"

lemma poll_result_cases:
  obtains (pending) "r = Pending" | (panicked) "r = Panicked"
  | (err) e where "r = Ready (Inl e)" | (ok) u where "r = Ready (Inr u)"
proof (cases r)
  case (Ready x)
  with err ok show thesis by (cases x) auto
qed (use pending panicked in auto)

text \<open>The operator \<open>?\<close>: go on with the value, or return the error.\<close>

fun and_then :: "('e, 'a) result \<Rightarrow> ('a \<Rightarrow> ('e, 'b) result) \<Rightarrow> ('e, 'b) result" where
  "and_then (Inl e) f = Inl e"
| "and_then (Inr a) f = f a"

lemma and_then_Ok_iff [simp]:
  "and_then r f = Inr b \<longleftrightarrow> (\<exists>a. r = Inr a \<and> f a = Inr b)"
  by (cases r) auto

text \<open>
  A waker identifies the task it wakes. \<open>Context::waker\<close> is the waker of the
  task that polls; calls of \<open>wake\<close> are collected in a list.
\<close>

type_synonym waker = nat

section \<open>Big-endian words of the standard library\<close>

text \<open>\<open>u32::to_be_bytes\<close> and \<open>u32::from_be_bytes\<close>.\<close>

definition u32_to_be_bytes :: "u32 \<Rightarrow> bytes" where
  "u32_to_be_bytes w = [ucast (drop_bit 24 w), ucast (drop_bit 16 w), ucast (drop_bit 8 w), ucast w]"

fun u32_from_be_bytes :: "bytes \<Rightarrow> u32" where
  "u32_from_be_bytes [a, b, c, d] =
     push_bit 24 (ucast a) OR push_bit 16 (ucast b) OR push_bit 8 (ucast c) OR ucast d"
| "u32_from_be_bytes _ = 0"

lemma length_u32_to_be_bytes [simp]: "length (u32_to_be_bytes w) = 4"
  by (simp add: u32_to_be_bytes_def)

lemma bit_u32_from_be_bytes:
  assumes "n < 32"
  shows "bit (u32_from_be_bytes [a, b, c, d]) n =
    (if n < 8 then bit d n else if n < 16 then bit c (n - 8)
     else if n < 24 then bit b (n - 16) else bit a (n - 24))"
proof -
  consider "n < 8" | "8 \<le> n" "n < 16" | "16 \<le> n" "n < 24" | "24 \<le> n" "n < 32"
    using assms by linarith
  then show ?thesis
    by cases (simp_all add: bit_simps bit_imp_le_length, (auto dest: bit_imp_le_length)+)
qed

lemma u32_be_roundtrip [simp]: "u32_from_be_bytes (u32_to_be_bytes w) = w"
proof (rule bit_eqI)
  fix n
  assume "possible_bit TYPE(32 word) n"
  then have n: "n < 32" by simp
  show "bit (u32_from_be_bytes (u32_to_be_bytes w)) n = bit w n"
    unfolding u32_to_be_bytes_def bit_u32_from_be_bytes [OF n]
    using n by (auto simp: bit_simps)
qed

section \<open>Invariants of reachable states\<close>

text \<open>
  A machine is a set of initial states and a step relation. An invariant that
  holds at the start and is kept by every step holds in every reachable state.
\<close>

inductive reach :: "('s \<Rightarrow> bool) \<Rightarrow> ('s \<Rightarrow> 's \<Rightarrow> bool) \<Rightarrow> 's \<Rightarrow> bool"
  for init :: "'s \<Rightarrow> bool" and step :: "'s \<Rightarrow> 's \<Rightarrow> bool" where
  reach_init: "init s \<Longrightarrow> reach init step s"
| reach_step: "reach init step s \<Longrightarrow> step s t \<Longrightarrow> reach init step t"

locale machine_inv =
  fixes init :: "'s \<Rightarrow> bool" and step :: "'s \<Rightarrow> 's \<Rightarrow> bool" and inv :: "'s \<Rightarrow> bool"
  assumes inv_init: "init s \<Longrightarrow> inv s"
    and inv_step: "inv s \<Longrightarrow> step s t \<Longrightarrow> inv t"
begin

lemma inv_reach:
  assumes "reach init step s"
  shows "inv s"
  using assms by (induction rule: reach.induct) (auto intro: inv_init inv_step)

end

end
