(* ===== verification/Constrained.thy ===== *)
theory Constrained
  imports Prelude
begin

text \<open>
  \<open>muxado/src/constrained.rs\<close>: the macro \<open>constrained_num!\<close>, which
  wraps a \<open>u32\<close> in a newtype whose values lie in a range. A newtype is
  modelled by the word it wraps, its constructors by functions of the range, and
  the promise of the macro (every constructor stays in the range) by a locale
  that each newtype of the crate interprets.
\<close>

section \<open>The constructors of a constrained number\<close>

datatype OutOfRange = OutOfRange u32 u32 u32

definition clamp :: "u32 \<Rightarrow> u32 \<Rightarrow> u32 \<Rightarrow> u32" where
  "clamp lo hi v = (if hi < v then hi else if v < lo then lo else v)"

definition mask_to :: "u32 \<Rightarrow> u32 \<Rightarrow> u32 \<Rightarrow> u32" where
  "mask_to lo hi v = (if v < lo then lo else if hi < v then v AND hi else v)"

definition try_from :: "u32 \<Rightarrow> u32 \<Rightarrow> u32 \<Rightarrow> (OutOfRange, u32) result" where
  "try_from lo hi v = (if lo \<le> v \<and> v \<le> hi then Ok v else Err (OutOfRange v lo hi))"

definition num_default :: "u32 \<Rightarrow> u32 \<Rightarrow> u32" where
  "num_default lo hi = lo"

text \<open>\<open>u32::leading_zeros\<close>, and the constant \<open>BITS\<close> of the macro.\<close>

definition leading_zeros :: "u32 \<Rightarrow> nat" where
  "leading_zeros w = length (takeWhile (\<lambda>i. \<not> bit w i) (rev [0..<32]))"

definition num_bits :: "u32 \<Rightarrow> nat" where
  "num_bits hi = 32 - leading_zeros hi"

section \<open>What the macro promises\<close>

locale constrained_num =
  fixes lo hi :: u32
  assumes range: "lo \<le> hi"
begin

abbreviation in_range :: "u32 \<Rightarrow> bool" where
  "in_range v \<equiv> lo \<le> v \<and> v \<le> hi"

lemma clamp_in_range: "lo \<le> clamp lo hi v \<and> clamp lo hi v \<le> hi"
  using range by (auto simp: clamp_def)

lemma clamp_fixed: "in_range v \<Longrightarrow> clamp lo hi v = v"
  by (auto simp: clamp_def)

lemma clamp_mono: "v \<le> w \<Longrightarrow> clamp lo hi v \<le> clamp lo hi w"
  using range by (auto simp: clamp_def)

lemma clamp_idem: "clamp lo hi (clamp lo hi v) = clamp lo hi v"
  by (rule clamp_fixed) (rule clamp_in_range)

lemma try_from_Ok_iff: "try_from lo hi v = Ok w \<longleftrightarrow> w = v \<and> in_range v"
  by (auto simp: try_from_def)

lemma default_in_range: "in_range (num_default lo hi)"
  using range by (simp add: num_default_def)

end

text \<open>
  Masking is meaningful for the ranges the crate uses it with, which start at 0.
\<close>

locale masked_num = constrained_num +
  assumes from_zero: "lo = 0"
begin

lemma mask_in_range: "mask_to lo hi v \<le> hi"
  by (auto simp: mask_to_def from_zero word_and_le1)

lemma mask_fixed: "v \<le> hi \<Longrightarrow> mask_to lo hi v = v"
  by (auto simp: mask_to_def from_zero)

end

text \<open>
  When the upper bound is \<open>2 ^ k - 1\<close>, masking keeps the low \<open>k\<close> bits,
  whichever branch is taken.
\<close>

lemma take_bit_le_mask:
  fixes v :: u32
  assumes "v \<le> mask k"
  shows "take_bit k v = v"
proof -
  have "unat v \<le> unat (take_bit k (- 1 :: u32))"
    using assms by (simp add: word_le_nat_alt flip: mask_eq_take_bit_minus_one)
  also have "\<dots> < 2 ^ k"
    by (simp only: unsigned_take_bit_eq take_bit_nat_less_exp)
  finally have "unat v < 2 ^ k" .
  then have "unat (take_bit k v) = unat v"
    by (simp add: unsigned_take_bit_eq take_bit_nat_eq_self)
  then show ?thesis by (simp only: word_unat_eq_iff)
qed

locale bitmask_num = masked_num +
  fixes k :: nat
  assumes hi_mask: "hi = mask k"
begin

lemma mask_is_take_bit: "mask_to lo hi v = take_bit k v"
proof (cases "hi < v")
  case True
  then show ?thesis
    by (simp add: mask_to_def from_zero hi_mask take_bit_eq_mask)
next
  case False
  then have "v \<le> mask k" by (simp add: hi_mask)
  then have "take_bit k v = v"
    by (rule take_bit_le_mask)
  with False show ?thesis
    by (simp add: mask_to_def from_zero)
qed

end

end
