(* ===== verification/Mux_Errors.thy ===== *)
theory Mux_Errors
  imports Constrained
begin

text \<open>
  \<open>muxado/src/errors.rs\<close>: the error enum with its wire codes, the conversions
  to and from \<open>ErrorCode\<close>, and the reasons a frame header is invalid. The
  variant \<open>Error::None\<close> is \<open>NoError\<close> here.
\<close>

section \<open>Errors and their codes\<close>

datatype mux_error =
    NoError | Protocol | Internal | FlowControl | StreamClosed | StreamRefused
  | StreamCancelled | StreamReset | FrameSizeError | AcceptQueueFull
  | EnhanceYourCalm | RemoteGoneAway | StreamsExhausted | WriteTimeout
  | SessionClosed | PeerEOF | ErrorUnknown

definition ERROR_MAX :: u32 where
  "ERROR_MAX = 0xFFFFFFFF"

fun error_discr :: "mux_error \<Rightarrow> u32" where
  "error_discr NoError = 0x00"
| "error_discr Protocol = 0x01"
| "error_discr Internal = 0x02"
| "error_discr FlowControl = 0x03"
| "error_discr StreamClosed = 0x04"
| "error_discr StreamRefused = 0x05"
| "error_discr StreamCancelled = 0x06"
| "error_discr StreamReset = 0x07"
| "error_discr FrameSizeError = 0x08"
| "error_discr AcceptQueueFull = 0x09"
| "error_discr EnhanceYourCalm = 0x0A"
| "error_discr RemoteGoneAway = 0x0B"
| "error_discr StreamsExhausted = 0x0C"
| "error_discr WriteTimeout = 0x0D"
| "error_discr SessionClosed = 0x0E"
| "error_discr PeerEOF = 0x0F"
| "error_discr ErrorUnknown = 0xFFFFFFFF"

fun error_msg :: "mux_error \<Rightarrow> string" where
  "error_msg NoError = ''No Error''"
| "error_msg Protocol = ''Protocol Error''"
| "error_msg Internal = ''Internal Error''"
| "error_msg FlowControl = ''Flow Control Error''"
| "error_msg StreamClosed = ''Stream Closed''"
| "error_msg StreamRefused = ''Stream Refused''"
| "error_msg StreamCancelled = ''Stream Cancelled''"
| "error_msg StreamReset = ''Stream Reset''"
| "error_msg FrameSizeError = ''Frame Size Error''"
| "error_msg AcceptQueueFull = ''Accept Queue Full''"
| "error_msg EnhanceYourCalm = ''Enhance Your Calm''"
| "error_msg RemoteGoneAway = ''Remote Gone Away''"
| "error_msg StreamsExhausted = ''Streams Exhausted''"
| "error_msg WriteTimeout = ''Write Timeout''"
| "error_msg SessionClosed = ''Session Closed''"
| "error_msg PeerEOF = ''Peer EOF''"
| "error_msg ErrorUnknown = ''Unknown Error''"

definition ErrorCode_mask :: "u32 \<Rightarrow> u32" where
  "ErrorCode_mask = mask_to 0 ERROR_MAX"

definition error_to_code :: "mux_error \<Rightarrow> u32" where
  "error_to_code e = ErrorCode_mask (error_discr e)"

definition error_from_code :: "u32 \<Rightarrow> mux_error" where
  "error_from_code c =
     (if c = 0x00 then NoError
      else if c = 0x01 then Protocol
      else if c = 0x02 then Internal
      else if c = 0x03 then FlowControl
      else if c = 0x04 then StreamClosed
      else if c = 0x05 then StreamRefused
      else if c = 0x06 then StreamCancelled
      else if c = 0x07 then StreamReset
      else if c = 0x08 then FrameSizeError
      else if c = 0x09 then AcceptQueueFull
      else if c = 0x0A then EnhanceYourCalm
      else if c = 0x0B then RemoteGoneAway
      else if c = 0x0C then StreamsExhausted
      else if c = 0x0D then WriteTimeout
      else if c = 0x0E then SessionClosed
      else if c = 0x0F then PeerEOF
      else ErrorUnknown)"

section \<open>Invalid headers\<close>

datatype invalid_header =
    ZeroStreamID
  | NonZeroStreamID u32
  | InvLength u32 u32
  | InvMinLength u32 u32
  | InvType u8

definition invalid_header_to_error :: "invalid_header \<Rightarrow> mux_error" where
  "invalid_header_to_error h = Protocol"

text \<open>
  \<open>std::io::Error\<close>: its kind, and the value it wraps. \<open>io::Error::other\<close>
  makes an error of kind \<open>Other\<close>.
\<close>

datatype io_kind =
    ConnectionReset | BrokenPipe | NotConnected | InvalidInput | InvalidData
  | NotFound | UnexpectedEof | WriteZero | Other

datatype io_source =
    SrcNone | SrcMux mux_error | SrcHeader invalid_header | SrcMsg string | SrcText "nat list"

datatype io_error = IoError io_kind io_source

definition invalid_header_to_io :: "invalid_header \<Rightarrow> io_error" where
  "invalid_header_to_io h = IoError Other (SrcHeader h)"

section \<open>Facts\<close>

interpretation error_code: bitmask_num 0 ERROR_MAX 32
  by unfold_locales (simp_all add: ERROR_MAX_def mask_eq_exp_minus_1)

lemma ERROR_MAX_top: "ERROR_MAX = - 1"
  by (simp add: ERROR_MAX_def)

lemma ErrorCode_mask_id [simp]: "ErrorCode_mask c = c"
  unfolding ErrorCode_mask_def
  by (rule error_code.mask_fixed) (simp only: ERROR_MAX_top word_order.extremum)

text \<open>
  The wire code determines the error: converting an error to its code and back
  gives the error. The only code of \<open>NoError\<close> is 0.
\<close>

lemma error_code_roundtrip [simp]: "error_from_code (error_to_code e) = e"
  by (cases e) (simp_all add: error_to_code_def error_from_code_def)

lemma error_to_code_inj: "error_to_code e = error_to_code e' \<Longrightarrow> e = e'"
  by (metis error_code_roundtrip)

lemma error_to_code_0_iff [simp]: "error_to_code e = 0 \<longleftrightarrow> e = NoError"
  by (cases e) (simp_all add: error_to_code_def)

lemma error_code_unknown:
  "error_to_code (error_from_code c) = (if unat c \<le> 15 then c else ERROR_MAX)"
proof (cases "unat c \<le> 15")
  case True
  define n where "n = unat c"
  have c: "c = word_of_nat n" by (simp add: n_def)
  have "n \<in> set [0..<16]" using True by (simp add: n_def)
  then show ?thesis
    using True unfolding c
    by (auto simp: upt_conv_Cons error_from_code_def error_to_code_def)
next
  case False
  then have "error_from_code c = ErrorUnknown"
    by (auto simp: error_from_code_def)
  with False show ?thesis
    by (simp add: error_to_code_def ERROR_MAX_def)
qed

end
