(* ===== verification/Frame.thy ===== *)
theory Frame
  imports Mux_Errors
begin

text \<open>
  \<open>muxado/src/frame.rs\<close>: stream identifiers, window increments and lengths as
  constrained numbers; flags; headers, bodies and frames, with the constructors
  the rest of the crate builds frames with.
\<close>

section \<open>Constrained numbers of a frame\<close>

definition WNDINC_MAX :: u32 where "WNDINC_MAX = 0x7FFFFFFF"
definition STREAMID_MAX :: u32 where "STREAMID_MAX = 0x7FFFFFFF"
definition LENGTH_MAX :: u32 where "LENGTH_MAX = 0x00FFFFFF"

definition StreamID_clamp :: "u32 \<Rightarrow> u32" where
  "StreamID_clamp = clamp 0 STREAMID_MAX"

definition StreamID_mask :: "u32 \<Rightarrow> u32" where
  "StreamID_mask = mask_to 0 STREAMID_MAX"

definition WndInc_clamp :: "u32 \<Rightarrow> u32" where
  "WndInc_clamp = clamp 0 WNDINC_MAX"

definition WndInc_mask :: "u32 \<Rightarrow> u32" where
  "WndInc_mask = mask_to 0 WNDINC_MAX"

definition Length_clamp :: "u32 \<Rightarrow> u32" where
  "Length_clamp = clamp 0 LENGTH_MAX"

definition Length_try_from :: "u32 \<Rightarrow> (OutOfRange, u32) result" where
  "Length_try_from = try_from 0 LENGTH_MAX"

text \<open>The cast \<open>n as u32\<close> of a \<open>usize\<close> keeps the low 32 bits.\<close>

definition as_u32 :: "usize \<Rightarrow> u32" where
  "as_u32 n = word_of_nat n"

section \<open>Flags\<close>

definition FIN :: u8 where "FIN = 0b0001"
definition SYN :: u8 where "SYN = 0b0010"

definition flags_all :: u8 where "flags_all = FIN OR SYN"

definition flags_contains :: "u8 \<Rightarrow> u8 \<Rightarrow> bool" where
  "flags_contains f g \<longleftrightarrow> f AND g = g"

definition flags_set :: "u8 \<Rightarrow> u8 \<Rightarrow> u8" where
  "flags_set f g = f OR g"

definition flags_from_bits_truncate :: "u8 \<Rightarrow> u8" where
  "flags_from_bits_truncate b = b AND flags_all"

section \<open>Headers, bodies and frames\<close>

datatype header_type = HRst | HData | HWndInc | HGoAway | HInvalid u8

fun header_type_from_u8 :: "u8 \<Rightarrow> header_type" where
  "header_type_from_u8 t =
     (if t = 0 then HRst
      else if t = 1 then HData
      else if t = 2 then HWndInc
      else if t = 3 then HGoAway
      else HInvalid t)"

fun header_type_to_u8 :: "header_type \<Rightarrow> u8" where
  "header_type_to_u8 HRst = 0"
| "header_type_to_u8 HData = 1"
| "header_type_to_u8 HWndInc = 2"
| "header_type_to_u8 HGoAway = 3"
| "header_type_to_u8 (HInvalid t) = t"

record header =
  hdr_length :: u32
  hdr_typ :: header_type
  hdr_flags :: u8
  hdr_stream_id :: u32

definition header_default :: header where
  "header_default = \<lparr>hdr_length = num_default 0 LENGTH_MAX, hdr_typ = HInvalid 255,
     hdr_flags = 0, hdr_stream_id = num_default 0 STREAMID_MAX\<rparr>"

datatype body =
    Rst mux_error
  | Data bytes
  | WndInc u32
  | GoAway u32 mux_error bytes
  | Invalid invalid_header bytes

fun body_header_type :: "body \<Rightarrow> header_type" where
  "body_header_type (Data _) = HData"
| "body_header_type (GoAway _ _ _) = HGoAway"
| "body_header_type (WndInc _) = HWndInc"
| "body_header_type (Rst _) = HRst"
| "body_header_type (Invalid _ _) = HInvalid 0xff"

fun body_len :: "body \<Rightarrow> usize" where
  "body_len (Data bs) = length bs"
| "body_len (GoAway _ _ _) = 8"
| "body_len (WndInc _) = 4"
| "body_len (Rst _) = 4"
| "body_len (Invalid _ bs) = length bs"

fun body_clamp_len :: "body \<Rightarrow> body" where
  "body_clamp_len (Data bs) = Data (take (min (unat LENGTH_MAX) (length bs)) bs)"
| "body_clamp_len (Invalid e bs) = Invalid e (take (min (unat LENGTH_MAX) (length bs)) bs)"
| "body_clamp_len b = b"

record frame =
  frame_header :: header
  frame_body :: body

definition frame_from_body :: "body \<Rightarrow> frame" where
  "frame_from_body other =
     (let typ = body_header_type other;
          other = body_clamp_len other;
          len = Length_clamp (as_u32 (body_len other))
      in \<lparr>frame_header = header_default\<lparr>hdr_length := len, hdr_typ := typ\<rparr>,
          frame_body = other\<rparr>)"

definition is_fin :: "frame \<Rightarrow> bool" where
  "is_fin f = flags_contains (hdr_flags (frame_header f)) FIN"

definition is_syn :: "frame \<Rightarrow> bool" where
  "is_syn f = flags_contains (hdr_flags (frame_header f)) SYN"

definition frame_fin :: "frame \<Rightarrow> frame" where
  "frame_fin f = f\<lparr>frame_header := (frame_header f)\<lparr>hdr_flags := flags_set (hdr_flags (frame_header f)) FIN\<rparr>\<rparr>"

definition frame_syn :: "frame \<Rightarrow> frame" where
  "frame_syn f = f\<lparr>frame_header := (frame_header f)\<lparr>hdr_flags := flags_set (hdr_flags (frame_header f)) SYN\<rparr>\<rparr>"

definition frame_stream_id :: "u32 \<Rightarrow> frame \<Rightarrow> frame" where
  "frame_stream_id i f = f\<lparr>frame_header := (frame_header f)\<lparr>hdr_stream_id := i\<rparr>\<rparr>"

definition frame_rst :: "u32 \<Rightarrow> mux_error \<Rightarrow> frame" where
  "frame_rst sid e =
     \<lparr>frame_header = header_default\<lparr>hdr_length := Length_clamp 4, hdr_stream_id := sid, hdr_typ := HRst\<rparr>,
      frame_body = Rst e\<rparr>"

definition frame_goaway :: "u32 \<Rightarrow> mux_error \<Rightarrow> bytes \<Rightarrow> frame" where
  "frame_goaway last_id e msg =
     (let len = Length_clamp (as_u32 (length msg));
          msg = take (unat len) msg
      in \<lparr>frame_header = header_default\<lparr>hdr_length := len, hdr_typ := HGoAway\<rparr>,
          frame_body = GoAway last_id e msg\<rparr>)"

section \<open>The constrained numbers keep their ranges\<close>

interpretation stream_id_num: bitmask_num 0 STREAMID_MAX 31
  by unfold_locales (simp_all add: STREAMID_MAX_def mask_eq_exp_minus_1)

interpretation wnd_inc_num: bitmask_num 0 WNDINC_MAX 31
  by unfold_locales (simp_all add: WNDINC_MAX_def mask_eq_exp_minus_1)

interpretation length_num: bitmask_num 0 LENGTH_MAX 24
  by unfold_locales (simp_all add: LENGTH_MAX_def mask_eq_exp_minus_1)

lemmas constrained_defs =
  StreamID_clamp_def StreamID_mask_def WndInc_clamp_def WndInc_mask_def Length_clamp_def

lemma constrained_in_range [simp]:
  "StreamID_clamp v \<le> STREAMID_MAX" "StreamID_mask v \<le> STREAMID_MAX"
  "WndInc_clamp v \<le> WNDINC_MAX" "WndInc_mask v \<le> WNDINC_MAX"
  "Length_clamp v \<le> LENGTH_MAX"
  using stream_id_num.clamp_in_range stream_id_num.mask_in_range wnd_inc_num.clamp_in_range
    wnd_inc_num.mask_in_range length_num.clamp_in_range
  by (simp_all add: constrained_defs)

lemma constrained_fixed:
  "v \<le> STREAMID_MAX \<Longrightarrow> StreamID_clamp v = v" "v \<le> STREAMID_MAX \<Longrightarrow> StreamID_mask v = v"
  "v \<le> WNDINC_MAX \<Longrightarrow> WndInc_clamp v = v" "v \<le> WNDINC_MAX \<Longrightarrow> WndInc_mask v = v"
  "v \<le> LENGTH_MAX \<Longrightarrow> Length_clamp v = v"
  by (simp_all add: constrained_defs stream_id_num.clamp_fixed stream_id_num.mask_fixed
      wnd_inc_num.clamp_fixed wnd_inc_num.mask_fixed length_num.clamp_fixed)

lemma Length_clamp_le: "n \<le> unat LENGTH_MAX \<Longrightarrow> Length_clamp (as_u32 n) = as_u32 n"
  by (rule constrained_fixed)
    (simp add: LENGTH_MAX_def as_u32_def word_le_nat_alt unat_of_nat)

lemma unat_as_u32: "n < 2 ^ 32 \<Longrightarrow> unat (as_u32 n) = n"
  by (simp add: as_u32_def unat_of_nat)

lemma unat_Length_clamp_le: "unat (Length_clamp (as_u32 n)) \<le> n"
proof (cases "LENGTH_MAX < as_u32 n")
  case True
  then have "unat LENGTH_MAX \<le> unat (as_u32 n)"
    by (simp add: word_less_nat_alt)
  then show ?thesis
    using True by (simp add: Length_clamp_def clamp_def as_u32_def unat_of_nat)
next
  case False
  then show ?thesis
    by (simp add: Length_clamp_def clamp_def as_u32_def unat_of_nat)
qed

section \<open>Flags and header types\<close>

lemmas flag_defs = FIN_def SYN_def flags_all_def flags_contains_def flags_set_def
  flags_from_bits_truncate_def

lemma u8_above_3_iff: "3 < x \<longleftrightarrow> x \<noteq> 0 \<and> x \<noteq> 1 \<and> x \<noteq> 2 \<and> x \<noteq> 3" for x :: u8
proof -
  have "\<not> 3 < x \<longleftrightarrow> unat x \<le> 3"
    by (simp add: not_less word_le_nat_alt)
  also have "\<dots> \<longleftrightarrow> unat x = 0 \<or> unat x = 1 \<or> unat x = 2 \<or> unat x = 3"
    by arith
  also have "\<dots> \<longleftrightarrow> x = 0 \<or> x = 1 \<or> x = 2 \<or> x = 3"
    by (simp add: word_unat_eq_iff [of x])
  finally show ?thesis by blast
qed

lemma header_type_roundtrip:
  "header_type_from_u8 (header_type_to_u8 t) = t \<longleftrightarrow> (\<forall>x. t = HInvalid x \<longrightarrow> 3 < x)"
  by (cases t) (simp_all add: u8_above_3_iff)

declare header_type_from_u8.simps [simp del]

end
