(* ===== verification/Codec.thy ===== *)
theory Codec
  imports Frame
begin

text \<open>
  \<open>muxado/src/codec.rs\<close>: the conversion between frames and bytes. The crate
  \<open>bytes\<close> supplies big-endian reads and writes of a \<open>u32\<close>; they are a
  parameter of the model, with their documented behaviour as a locale. A
  \<open>BytesMut\<close> is its list of bytes. \<open>None\<close> is a panic.
\<close>

section \<open>The buffer operations the codec is given\<close>

record buf_ops =
  get_u32 :: "bytes \<Rightarrow> (u32 \<times> bytes) option"
  put_u32 :: "u32 \<Rightarrow> bytes \<Rightarrow> bytes"

text \<open>
  \<open>Buf::get_u32\<close> reads four bytes in big-endian order and advances, and
  panics when fewer remain; \<open>BufMut::put_u32\<close> appends the four bytes.
\<close>

locale be_buf =
  fixes B :: buf_ops
  assumes get_u32_enough: "4 \<le> length bs \<Longrightarrow> get_u32 B bs = Some (u32_from_be_bytes (take 4 bs), drop 4 bs)"
    and get_u32_short: "length bs < 4 \<Longrightarrow> get_u32 B bs = None"
    and put_u32_appends: "put_u32 B v bs = bs @ u32_to_be_bytes v"

definition std_buf :: buf_ops where
  "std_buf = \<lparr>get_u32 = (\<lambda>bs. if length bs < 4 then None
       else Some (u32_from_be_bytes (take 4 bs), drop 4 bs)),
     put_u32 = (\<lambda>v bs. bs @ u32_to_be_bytes v)\<rparr>"

section \<open>Headers\<close>

definition decode_header :: "buf_ops \<Rightarrow> bytes \<Rightarrow> header option" where
  "decode_header B bs =
     (case get_u32 B bs of None \<Rightarrow> None
      | Some (length_type_flags, bs1) \<Rightarrow>
        (case Length_try_from (drop_bit 8 (length_type_flags AND 0xFFFFFF00)) of Inl _ \<Rightarrow> None
         | Inr len \<Rightarrow>
           (let type_flags = (ucast length_type_flags :: u8) in
            case get_u32 B bs1 of None \<Rightarrow> None
            | Some (sid, _) \<Rightarrow>
              Some \<lparr>hdr_length = len,
                hdr_typ = header_type_from_u8 (drop_bit 4 (type_flags AND 0xF0)),
                hdr_flags = flags_from_bits_truncate (type_flags AND 0x0F),
                hdr_stream_id = StreamID_mask sid\<rparr>)))"

definition encode_header :: "buf_ops \<Rightarrow> header \<Rightarrow> bytes \<Rightarrow> bytes" where
  "encode_header B h buf =
     (let type_flags = (push_bit 4 (header_type_to_u8 (hdr_typ h)) AND 0xF0) OR (hdr_flags h AND 0x0F);
          length_type_flags = (push_bit 8 (hdr_length h) AND 0xFFFFFF00) OR (ucast type_flags :: u32)
      in put_u32 B (hdr_stream_id h) (put_u32 B length_type_flags buf))"

definition expect_zero_stream_id :: "header \<Rightarrow> (invalid_header, unit) result" where
  "expect_zero_stream_id h =
     (if hdr_stream_id h \<noteq> StreamID_clamp 0 then Err (NonZeroStreamID (hdr_stream_id h)) else Ok ())"

definition expect_non_zero_stream_id :: "header \<Rightarrow> (invalid_header, unit) result" where
  "expect_non_zero_stream_id h =
     (if hdr_stream_id h = StreamID_clamp 0 then Err ZeroStreamID else Ok ())"

definition expect_length :: "header \<Rightarrow> u32 \<Rightarrow> (invalid_header, unit) result" where
  "expect_length h len = (if hdr_length h \<noteq> len then Err (InvLength len (hdr_length h)) else Ok ())"

definition expect_min_length :: "header \<Rightarrow> u32 \<Rightarrow> (invalid_header, unit) result" where
  "expect_min_length h len = (if hdr_length h < len then Err (InvMinLength len (hdr_length h)) else Ok ())"

definition validate_header :: "header \<Rightarrow> (invalid_header, unit) result" where
  "validate_header h =
     (case hdr_typ h of
        HRst \<Rightarrow> and_then (expect_non_zero_stream_id h) (\<lambda>_. expect_length h (Length_clamp 4))
      | HData \<Rightarrow> expect_non_zero_stream_id h
      | HWndInc \<Rightarrow> and_then (expect_non_zero_stream_id h) (\<lambda>_. expect_length h (Length_clamp 4))
      | HGoAway \<Rightarrow> and_then (expect_zero_stream_id h) (\<lambda>_. expect_min_length h (Length_clamp 8))
      | HInvalid t \<Rightarrow> Err (InvType t))"

section \<open>Bodies and frames\<close>

definition decode_body :: "buf_ops \<Rightarrow> header \<Rightarrow> bytes \<Rightarrow> body option" where
  "decode_body B h bs =
     (case hdr_typ h of
        HRst \<Rightarrow> (case get_u32 B bs of None \<Rightarrow> None
                 | Some (c, _) \<Rightarrow> Some (Rst (error_from_code (ErrorCode_mask c))))
      | HData \<Rightarrow> Some (Data bs)
      | HWndInc \<Rightarrow> (case get_u32 B bs of None \<Rightarrow> None
                    | Some (w, _) \<Rightarrow> Some (WndInc (WndInc_mask w)))
      | HGoAway \<Rightarrow> (case get_u32 B bs of None \<Rightarrow> None
                    | Some (l, bs1) \<Rightarrow>
                      (case get_u32 B bs1 of None \<Rightarrow> None
                       | Some (c, bs2) \<Rightarrow>
                         Some (GoAway (StreamID_mask l) (error_from_code (ErrorCode_mask c)) bs2)))
      | HInvalid t \<Rightarrow> Some (Invalid (InvType t) bs))"

definition decode_frame :: "buf_ops \<Rightarrow> header \<Rightarrow> bytes \<Rightarrow> frame option" where
  "decode_frame B h bs =
     (case validate_header h of
        Inl e \<Rightarrow> Some \<lparr>frame_header = h, frame_body = Invalid e bs\<rparr>
      | Inr _ \<Rightarrow> (case decode_body B h bs of None \<Rightarrow> None
                  | Some b \<Rightarrow> Some \<lparr>frame_header = h, frame_body = b\<rparr>))"

definition encode_body :: "buf_ops \<Rightarrow> body \<Rightarrow> bytes \<Rightarrow> bytes" where
  "encode_body B b buf =
     (case b of
        Rst e \<Rightarrow> put_u32 B (error_to_code e) buf
      | Data bs \<Rightarrow> buf @ bs
      | WndInc i \<Rightarrow> put_u32 B i buf
      | GoAway l e msg \<Rightarrow> put_u32 B (error_to_code e) (put_u32 B l buf) @ msg
      | Invalid _ bs \<Rightarrow> buf @ bs)"

record frame_codec =
  input_header :: "header option"

definition codec_default :: frame_codec where
  "codec_default = \<lparr>input_header = None\<rparr>"

text \<open>
  \<open>FrameCodec::decode\<close>: the result, the codec and the buffer after the call.
\<close>

definition codec_decode ::
  "buf_ops \<Rightarrow> frame_codec \<Rightarrow> bytes \<Rightarrow> ((io_error, frame option) result \<times> frame_codec \<times> bytes) option" where
  "codec_decode B k b =
     (let with_header = (\<lambda>k h b.
        if length b < unat (hdr_length h) then Some (Ok None, k, b)
        else let body_bytes = take (unat (hdr_length h)) b;
                 b' = drop (unat (hdr_length h)) b;
                 k' = k\<lparr>input_header := None\<rparr>
             in (case decode_frame B h body_bytes of None \<Rightarrow> None
                 | Some f \<Rightarrow> Some (Ok (Some f), k', b')))
      in case input_header k of
           Some h \<Rightarrow> with_header k h b
         | None \<Rightarrow>
           if length b < 8 then Some (Ok None, k, b)
           else (case decode_header B (take 8 b) of None \<Rightarrow> None
                 | Some h \<Rightarrow> with_header (k\<lparr>input_header := Some h\<rparr>) h (drop 8 b)))"

text \<open>\<open>FrameCodec::encode\<close>: the result and the buffer after the call.\<close>

definition codec_encode :: "buf_ops \<Rightarrow> frame \<Rightarrow> bytes \<Rightarrow> (io_error, unit) result \<times> bytes" where
  "codec_encode B f buf =
     (case validate_header (frame_header f) of
        Inl e \<Rightarrow> (Err (invalid_header_to_io e), buf)
      | Inr _ \<Rightarrow> (Ok (), encode_body B (frame_body f) (encode_header B (frame_header f) buf)))"

section \<open>What a frame must satisfy to survive the wire\<close>

text \<open>
  The body has the type and the length that its header claims, and the numbers
  are in the ranges of their newtypes.
\<close>

fun body_ok :: "body \<Rightarrow> bool" where
  "body_ok (WndInc i) = (i \<le> WNDINC_MAX)"
| "body_ok (GoAway l _ _) = (l \<le> STREAMID_MAX)"
| "body_ok (Invalid _ _) = False"
| "body_ok _ = True"

fun wire_len :: "body \<Rightarrow> usize" where
  "wire_len (GoAway _ _ msg) = 8 + length msg"
| "wire_len b = body_len b"

definition header_ok :: "header \<Rightarrow> bool" where
  "header_ok h \<longleftrightarrow> hdr_length h \<le> LENGTH_MAX \<and> hdr_stream_id h \<le> STREAMID_MAX \<and>
     hdr_flags h AND NOT flags_all = 0"

definition wire_frame :: "frame \<Rightarrow> bool" where
  "wire_frame f \<longleftrightarrow> header_ok (frame_header f) \<and> validate_header (frame_header f) = Ok () \<and>
     hdr_typ (frame_header f) = body_header_type (frame_body f) \<and>
     wire_len (frame_body f) = unat (hdr_length (frame_header f)) \<and> body_ok (frame_body f)"

section \<open>Bit packing\<close>

lemma packing_masks [word_bits]:
  "(0xFFFFFF00 :: u32) = push_bit 8 (mask 24)" "(0xF0 :: u8) = push_bit 4 (mask 4)"
  "(0x0F :: u8) = mask 4" "flags_all = mask 2"
  by (simp_all add: mask_eq_exp_minus_1 flag_defs)

lemma take_bit_fixed_le: "v \<le> LENGTH_MAX \<Longrightarrow> take_bit 24 v = v"
  by (rule take_bit_le_mask) (simp add: LENGTH_MAX_def mask_eq_exp_minus_1)

lemma unpack_length:
  fixes len :: u32 and tf :: u8
  assumes "len \<le> LENGTH_MAX"
  shows "drop_bit 8 (((push_bit 8 len AND 0xFFFFFF00) OR ucast tf) AND 0xFFFFFF00) = len"
proof -
  have "drop_bit 8 (((push_bit 8 len AND 0xFFFFFF00) OR ucast tf) AND 0xFFFFFF00) = take_bit 24 len"
    unfolding word_bits
    by (rule bit_eqI) (auto simp: bit_simps dest: bit_imp_le_length)
  with assms show ?thesis by (simp add: take_bit_fixed_le)
qed

lemma unpack_type_flags:
  fixes len :: u32 and tf :: u8
  shows "ucast ((push_bit 8 len AND 0xFFFFFF00) OR (ucast tf :: u32)) = tf"
  unfolding word_bits
  by (rule bit_eqI) (auto simp: bit_simps)

lemma unpack_type:
  fixes t fl :: u8
  assumes "t < 16"
  shows "drop_bit 4 (((push_bit 4 t AND 0xF0) OR (fl AND 0x0F)) AND 0xF0) = t"
proof -
  have "drop_bit 4 (((push_bit 4 t AND 0xF0) OR (fl AND 0x0F)) AND 0xF0) = take_bit 4 t"
    unfolding word_bits
    by (rule bit_eqI) (auto simp: bit_simps)
  also have "take_bit 4 t = t"
  proof -
    have "unat t < 2 ^ 4" using assms by (simp add: word_less_nat_alt)
    then have "unat (take_bit 4 t) = unat t"
      by (simp add: unsigned_take_bit_eq take_bit_nat_eq_self)
    then show ?thesis by (simp only: word_unat_eq_iff)
  qed
  finally show ?thesis .
qed

lemma unpack_flags:
  fixes t fl :: u8
  assumes "fl AND NOT flags_all = 0"
  shows "flags_from_bits_truncate (((push_bit 4 t AND 0xF0) OR (fl AND 0x0F)) AND 0x0F) = fl"
proof (rule bit_eqI)
  fix n
  have "bit (fl AND NOT flags_all) n = False" using assms by simp
  then show "bit (flags_from_bits_truncate (((push_bit 4 t AND 0xF0) OR (fl AND 0x0F)) AND 0x0F)) n = bit fl n"
    if "possible_bit TYPE(u8) n"
    using that unfolding flags_from_bits_truncate_def word_bits
    by (auto simp: bit_simps)
qed

section \<open>Headers on the wire\<close>

text \<open>
  A header whose type fits the four bits of the wire. The types \<open>HInvalid\<close>
  0 to 3 are excluded: the wire gives them back as the valid types.
\<close>

definition wire_type :: "header_type \<Rightarrow> bool" where
  "wire_type t \<longleftrightarrow> header_type_to_u8 t < 16 \<and> (\<forall>x. t = HInvalid x \<longrightarrow> 3 < x)"

definition wire_header :: "header \<Rightarrow> bool" where
  "wire_header h \<longleftrightarrow> header_ok h \<and> wire_type (hdr_typ h)"

lemma validated_wire_type: "validate_header h = Ok () \<Longrightarrow> wire_type (hdr_typ h)"
  by (auto simp: validate_header_def wire_type_def split: header_type.splits)

lemma wire_length_bound: "drop_bit 8 x \<le> LENGTH_MAX" for x :: u32
proof -
  have "unat x < 4294967296"
    using unsigned_less [of x] by simp
  then have "unat x div 256 \<le> 16777215"
    by arith
  then show ?thesis
    by (simp add: LENGTH_MAX_def word_le_nat_alt unat_div_distrib drop_bit_eq_div)
qed

lemma nibble_bound: "drop_bit 4 x < 16" for x :: u8
proof -
  have "unat x < 256"
    using unsigned_less [of x] by simp
  then have "unat x div 16 < 16"
    by arith
  then show ?thesis
    by (simp add: word_less_nat_alt unat_div_distrib drop_bit_eq_div)
qed

lemma wire_type_nibble: "wire_type (header_type_from_u8 (drop_bit 4 x))" for x :: u8
  using nibble_bound [of x]
  by (auto simp: wire_type_def header_type_from_u8.simps u8_above_3_iff)

lemma flags_truncated: "flags_from_bits_truncate x AND NOT flags_all = 0"
  by (simp add: flags_from_bits_truncate_def and.assoc)

context be_buf
begin

lemma get_u32_append: "get_u32 B (u32_to_be_bytes v @ bs) = Some (v, bs)"
  by (simp add: get_u32_enough)

lemma encode_header_appends:
  "\<exists>hb. length hb = 8 \<and> (\<forall>buf. encode_header B h buf = buf @ hb)"
  by (auto simp: encode_header_def put_u32_appends Let_def)

lemma encode_header_append: "encode_header B h buf = buf @ encode_header B h []"
  by (simp add: encode_header_def put_u32_appends Let_def)

lemma length_encode_header [simp]: "length (encode_header B h []) = 8"
  by (simp add: encode_header_def put_u32_appends Let_def)

lemma decode_encode_header:
  assumes "wire_header h"
  shows "decode_header B (encode_header B h [] @ rest) = Some h"
proof -
  have ok: "hdr_length h \<le> LENGTH_MAX" "hdr_stream_id h \<le> STREAMID_MAX"
    "hdr_flags h AND NOT flags_all = 0" "header_type_to_u8 (hdr_typ h) < 16"
    "\<forall>x. hdr_typ h = HInvalid x \<longrightarrow> 3 < x"
    using assms by (auto simp: wire_header_def header_ok_def wire_type_def)
  have tyeq: "header_type_from_u8 (header_type_to_u8 (hdr_typ h)) = hdr_typ h"
    using ok(5) by (simp add: header_type_roundtrip)
  show ?thesis
    unfolding decode_header_def encode_header_def put_u32_appends Let_def append_Nil append_assoc
      get_u32_append
    using ok(1)
    by (simp only: option.case prod.case get_u32_append unpack_length [OF ok(1)] unpack_type_flags
        unpack_type [OF ok(4)] unpack_flags [OF ok(3)] constrained_fixed(2) [OF ok(2)] tyeq)
      (simp add: Length_try_from_def try_from_def)
qed

lemma decode_header_total:
  assumes "8 \<le> length bs"
  shows "\<exists>h. decode_header B bs = Some h \<and> wire_header h"
proof -
  define x where "x = u32_from_be_bytes (take 4 bs)"
  define y where "y = u32_from_be_bytes (take 4 (drop 4 bs))"
  have g: "get_u32 B bs = Some (x, drop 4 bs)" "get_u32 B (drop 4 bs) = Some (y, drop 8 bs)"
    using assms by (simp_all add: get_u32_enough x_def y_def)
  have "decode_header B bs = Some \<lparr>hdr_length = drop_bit 8 (x AND 0xFFFFFF00),
      hdr_typ = header_type_from_u8 (drop_bit 4 (ucast x AND 0xF0)),
      hdr_flags = flags_from_bits_truncate (ucast x AND 0x0F), hdr_stream_id = StreamID_mask y\<rparr>"
    unfolding decode_header_def g Length_try_from_def try_from_def Let_def
    by (simp only: option.case prod.case wire_length_bound word_zero_le simp_thms if_True sum.case g)
  then show ?thesis
    unfolding wire_header_def header_ok_def
    by (simp only: option.inject ex_simps simp_thms header.select_convs wire_length_bound
        wire_type_nibble flags_truncated constrained_in_range)
qed

lemma decode_encode_body:
  assumes "body_ok b" "hdr_typ h = body_header_type b"
  shows "decode_body B h (encode_body B b []) = Some b"
  using assms
  by (cases b) (simp_all add: decode_body_def encode_body_def put_u32_appends
      get_u32_append constrained_fixed get_u32_append [of _ "[]", simplified])

lemma encode_body_append: "encode_body B b buf = buf @ encode_body B b []"
  by (cases b) (simp_all add: encode_body_def put_u32_appends)

lemma length_encode_body: "length (encode_body B b []) = wire_len b"
  by (cases b) (simp_all add: encode_body_def put_u32_appends)

text \<open>
  Decoding what was encoded gives the frame back and leaves the bytes behind it.
\<close>

lemma encode_wire_frame:
  assumes "wire_frame f"
  shows "codec_encode B f buf =
    (Ok (), buf @ encode_header B (frame_header f) [] @ encode_body B (frame_body f) [])"
  using assms encode_body_append [of "frame_body f" "buf @ encode_header B (frame_header f) []"]
  by (simp add: codec_encode_def wire_frame_def encode_header_append [of _ buf])

lemma decode_encode:
  assumes "wire_frame f"
  shows "codec_decode B codec_default (snd (codec_encode B f []) @ rest) =
    Some (Ok (Some f), codec_default, rest)"
proof -
  let ?h = "frame_header f" and ?b = "frame_body f"
  have ok: "wire_header ?h" "validate_header ?h = Ok ()" "hdr_typ ?h = body_header_type ?b"
    "wire_len ?b = unat (hdr_length ?h)" "body_ok ?b"
    using assms validated_wire_type [of ?h] by (simp_all add: wire_frame_def wire_header_def)
  have dh: "decode_header B (encode_header B ?h []) = Some ?h"
    using decode_encode_header [OF ok(1), of "[]"] by simp
  show ?thesis
    by (simp add: encode_wire_frame [OF assms] codec_decode_def codec_default_def dh
        length_encode_body ok(4) [symmetric] decode_frame_def ok(2) decode_encode_body [OF ok(5,3)])
qed

end

section \<open>A byte stream in any chunks\<close>

text \<open>
  The loop of a framed reader: decode until the decoder asks for more bytes. A
  reader that is fed a list of chunks appends each to its buffer and decodes.
\<close>

partial_function (option) drain ::
  "buf_ops \<Rightarrow> frame_codec \<Rightarrow> bytes \<Rightarrow> (frame list \<times> frame_codec \<times> bytes) option" where
  "drain B k b =
     (case codec_decode B k b of
        None \<Rightarrow> None
      | Some (r, k', b') \<Rightarrow>
        (case r of
           Inl _ \<Rightarrow> None
         | Inr None \<Rightarrow> Some ([], k', b')
         | Inr (Some f) \<Rightarrow>
           Option.bind (drain B k' b') (\<lambda>(fs, r). Some (f # fs, r))))"

fun feed :: "buf_ops \<Rightarrow> frame_codec \<Rightarrow> bytes \<Rightarrow> bytes list \<Rightarrow> (frame list \<times> frame_codec \<times> bytes) option" where
  "feed B k b [] = Some ([], k, b)"
| "feed B k b (c # cs) =
     (case drain B k (b @ c) of
        None \<Rightarrow> None
      | Some (fs, k', b') \<Rightarrow> map_option (\<lambda>(gs, r). (fs @ gs, r)) (feed B k' b' cs))"

definition wire_bytes :: "buf_ops \<Rightarrow> frame list \<Rightarrow> bytes" where
  "wire_bytes B fs = concat (map (\<lambda>f. snd (codec_encode B f [])) fs)"

context be_buf
begin

lemma decode_frame_total:
  assumes "length bs = unat (hdr_length h)"
  shows "\<exists>f. decode_frame B h bs = Some f \<and> frame_header f = h"
  using assms
  by (auto simp: decode_frame_def decode_body_def validate_header_def expect_length_def
      expect_min_length_def constrained_fixed(5) LENGTH_MAX_def get_u32_enough word_less_nat_alt
      split: sum.splits header_type.splits if_splits option.splits)

lemma decode_total: "\<exists>r k' b'. codec_decode B k b = Some (Ok r, k', b')"
proof -
  have body: "\<exists>f. decode_frame B h (take (unat (hdr_length h)) b) = Some f"
    if "\<not> length b < unat (hdr_length h)" for h b
    using decode_frame_total [of "take (unat (hdr_length h)) b" h] that by auto
  show ?thesis
  proof (cases "input_header k")
    case None
    show ?thesis
    proof (cases "length b < 8")
      case False
      then obtain h where "decode_header B (take 8 b) = Some h"
        using decode_header_total [of "take 8 b"] by auto
      with None False body [of "drop 8 b" h] show ?thesis
        by (auto simp: codec_decode_def Let_def)
    qed (simp add: codec_decode_def None)
  next
    case (Some h)
    then show ?thesis
      using body [of b h] by (auto simp: codec_decode_def Let_def)
  qed
qed

lemma decode_more:
  assumes "codec_decode B k b = Some (Ok (Some f), k', b')"
  shows "codec_decode B k (b @ c) = Some (Ok (Some f), k', b' @ c)"
  using assms
  by (auto simp: codec_decode_def Let_def split: option.splits if_splits)

lemma decode_wait:
  assumes "codec_decode B k b = Some (Ok None, k', b')"
  shows "codec_decode B k (b @ c) = codec_decode B k' (b' @ c)"
proof (cases "k' = k \<and> b' = b")
  case False
  with assms obtain h where h: "input_header k = None" "8 \<le> length b" "k' = k\<lparr>input_header := Some h\<rparr>"
      "b' = drop 8 b" "decode_header B (take 8 b) = Some h"
    by (auto simp: codec_decode_def Let_def split: option.splits if_splits)
  then show ?thesis
    by (simp add: codec_decode_def Let_def)
qed simp

lemma decode_progress:
  assumes "codec_decode B k b = Some (Ok (Some f), k', b')"
  shows "input_header k' = None \<and> length b' + (if input_header k = None then 8 else 0) \<le> length b"
  using assms
  by (auto simp: codec_decode_def Let_def split: option.splits if_splits)

lemma drain_total: "\<exists>fs k' b'. drain B k b = Some (fs, k', b')"
proof (induction "length b + (if input_header k = None then 0 else 1)" arbitrary: k b rule: less_induct)
  case less
  obtain r k' b' where dec: "codec_decode B k b = Some (Ok r, k', b')"
    using decode_total by blast
  show ?case
  proof (cases r)
    case None
    then show ?thesis by (subst drain.simps) (simp add: dec)
  next
    case (Some f)
    then have "input_header k' = None" "length b' + (if input_header k = None then 8 else 0) \<le> length b"
      using decode_progress dec by auto
    then have "length b' + (if input_header k' = None then 0 else 1)
        < length b + (if input_header k = None then 0 else 1)"
      by (auto split: if_splits)
    then obtain fs k'' b'' where "drain B k' b' = Some (fs, k'', b'')"
      using less by blast
    with Some show ?thesis by (subst drain.simps) (simp add: dec)
  qed
qed

lemma drain_ends:
  assumes "drain B k b = Some (fs, k', b')"
  shows "\<forall>c. drain B k (b @ c) = map_option (\<lambda>(gs, r). (fs @ gs, r)) (drain B k' (b' @ c))"
    and "codec_decode B k' b' = Some (Ok None, k', b')"
proof -
  have "(\<forall>c. drain B k (b @ c) = map_option (\<lambda>(gs, r). (fs @ gs, r)) (drain B k' (b' @ c))) \<and>
      codec_decode B k' b' = Some (Ok None, k', b')"
    using assms
  proof (induction fs arbitrary: k b)
    case Nil
    then have dec: "codec_decode B k b = Some (Ok None, k', b')"
      by (subst (asm) drain.simps)
        (auto split: option.splits sum.splits Option.bind_splits prod.splits)
    have "drain B k (b @ c) = drain B k' (b' @ c)" for c
      by (subst (1 2) drain.simps) (simp add: decode_wait [OF dec])
    moreover have "codec_decode B k' b' = Some (Ok None, k', b')"
      using decode_wait [OF dec, of "[]"] dec by simp
    ultimately show ?case
      by (simp add: option.map_ident_strong split_beta)
  next
    case (Cons f fs)
    then obtain k1 b1 where dec: "codec_decode B k b = Some (Ok (Some f), k1, b1)"
        and rest: "drain B k1 b1 = Some (fs, k', b')"
      by (subst (asm) (2) drain.simps)
        (auto split: option.splits sum.splits Option.bind_splits prod.splits)
    have step: "drain B k (b @ c) = Option.bind (drain B k1 (b1 @ c)) (\<lambda>(gs, r). Some (f # gs, r))" for c
      by (subst drain.simps) (simp add: decode_more [OF dec] split_beta)
    have ih: "drain B k1 (b1 @ c) = map_option (\<lambda>(gs, r). (fs @ gs, r)) (drain B k' (b' @ c))"
      and quiet: "codec_decode B k' b' = Some (Ok None, k', b')" for c
      using Cons.IH [OF rest] by auto
    have "drain B k (b @ c) = map_option (\<lambda>(gs, r). ((f # fs) @ gs, r)) (drain B k' (b' @ c))" for c
      unfolding step ih by (cases "drain B k' (b' @ c)") auto
    with quiet show ?case by blast
  qed
  then show "\<forall>c. drain B k (b @ c) = map_option (\<lambda>(gs, r). (fs @ gs, r)) (drain B k' (b' @ c))"
    and "codec_decode B k' b' = Some (Ok None, k', b')" by auto
qed

lemma drain_quiet: "codec_decode B k b = Some (Ok None, k, b) \<Longrightarrow> drain B k b = Some ([], k, b)"
  by (subst drain.simps) simp

lemma feed_is_drain:
  "codec_decode B k b = Some (Ok None, k, b) \<Longrightarrow> feed B k b cs = drain B k (b @ concat cs)"
proof (induction cs arbitrary: k b)
  case Nil
  then show ?case by (simp add: drain_quiet)
next
  case (Cons c cs)
  obtain fs k' b' where d: "drain B k (b @ c) = Some (fs, k', b')"
    using drain_total by blast
  have "feed B k' b' cs = drain B k' (b' @ concat cs)"
    using drain_ends(2) [OF d] by (rule Cons.IH)
  with d drain_ends(1) [OF d] show ?case
    by simp
qed

lemma drain_wire_bytes:
  "\<forall>f \<in> set fs. wire_frame f \<Longrightarrow> drain B codec_default (wire_bytes B fs) = Some (fs, codec_default, [])"
proof (induction fs)
  case Nil
  show ?case
    by (subst drain.simps) (simp add: wire_bytes_def codec_decode_def codec_default_def)
next
  case (Cons f fs)
  then show ?case
    by (subst drain.simps) (simp add: wire_bytes_def decode_encode)
qed

lemma feed_wire_bytes:
  assumes "\<forall>f \<in> set fs. wire_frame f" and "concat cs = wire_bytes B fs"
  shows "feed B codec_default [] cs = Some (fs, codec_default, [])"
proof -
  have "codec_decode B codec_default [] = Some (Ok None, codec_default, [])"
    by (simp add: codec_decode_def codec_default_def)
  then have "feed B codec_default [] cs = drain B codec_default (concat cs)"
    by (simp add: feed_is_drain)
  with assms show ?thesis
    by (simp add: drain_wire_bytes)
qed

end

end
