(* ===== verification/Codec_Props.thy ===== *)
theory Codec_Props
  imports Codec
begin

text \<open>
  What the codec does to the frames the crate builds, to arbitrary bytes, and to
  a GOAWAY; the properties of the codec.
\<close>

section \<open>The frames the crate builds\<close>

interpretation std_buf: be_buf std_buf
  by unfold_locales (simp_all add: std_buf_def)

lemma frame_from_body_simps [simp]:
  "frame_body (frame_from_body b) = body_clamp_len b"
  "hdr_typ (frame_header (frame_from_body b)) = body_header_type b"
  "hdr_flags (frame_header (frame_from_body b)) = 0"
  "hdr_stream_id (frame_header (frame_from_body b)) = 0"
  by (simp_all add: frame_from_body_def Let_def header_default_def num_default_def)

lemma LENGTH_MAX_nat [simp]: "unat LENGTH_MAX = 16777215"
  by (simp add: LENGTH_MAX_def)

lemma unat_Length_clamp_exact: "n \<le> unat LENGTH_MAX \<Longrightarrow> unat (Length_clamp (as_u32 n)) = n"
  by (simp add: Length_clamp_le unat_as_u32)

lemma length_from_body:
  assumes "\<And>l e m. b \<noteq> GoAway l e m"
  shows "unat (hdr_length (frame_header (frame_from_body b))) = body_len (body_clamp_len b)"
  using assms
  by (cases b) (simp_all add: frame_from_body_def Let_def header_default_def unat_Length_clamp_exact)

lemma frame_flag_simps [simp]:
  "frame_body (frame_fin f) = frame_body f" "frame_body (frame_syn f) = frame_body f"
  "frame_body (frame_stream_id i f) = frame_body f"
  "hdr_length (frame_header (frame_fin f)) = hdr_length (frame_header f)"
  "hdr_length (frame_header (frame_syn f)) = hdr_length (frame_header f)"
  "hdr_length (frame_header (frame_stream_id i f)) = hdr_length (frame_header f)"
  "hdr_typ (frame_header (frame_fin f)) = hdr_typ (frame_header f)"
  "hdr_typ (frame_header (frame_syn f)) = hdr_typ (frame_header f)"
  "hdr_typ (frame_header (frame_stream_id i f)) = hdr_typ (frame_header f)"
  "hdr_flags (frame_header (frame_stream_id i f)) = hdr_flags (frame_header f)"
  "hdr_stream_id (frame_header (frame_stream_id i f)) = i"
  "hdr_stream_id (frame_header (frame_fin f)) = hdr_stream_id (frame_header f)"
  "hdr_stream_id (frame_header (frame_syn f)) = hdr_stream_id (frame_header f)"
  "hdr_flags (frame_header (frame_fin f)) = hdr_flags (frame_header f) OR FIN"
  "hdr_flags (frame_header (frame_syn f)) = hdr_flags (frame_header f) OR SYN"
  by (simp_all add: frame_fin_def frame_syn_def frame_stream_id_def flags_set_def)

lemma flag_bits:
  "(x OR FIN) AND FIN = FIN" "(x OR SYN) AND SYN = SYN"
  "(x OR FIN) AND SYN = SYN \<longleftrightarrow> x AND SYN = SYN" "(x OR SYN) AND FIN = FIN \<longleftrightarrow> x AND FIN = FIN"
proof -
  show "(x OR FIN) AND FIN = FIN" "(x OR SYN) AND SYN = SYN"
    by (simp_all add: bit.conj_disj_distrib2)
  show "(x OR FIN) AND SYN = SYN \<longleftrightarrow> x AND SYN = SYN" "(x OR SYN) AND FIN = FIN \<longleftrightarrow> x AND FIN = FIN"
    by (simp_all add: bit.conj_disj_distrib2 flag_defs)
qed

lemma frame_flags_query [simp]:
  "is_fin (frame_fin f)" "is_syn (frame_syn f)"
  "is_syn (frame_fin f) = is_syn f" "is_fin (frame_syn f) = is_fin f"
  "is_fin (frame_stream_id i f) = is_fin f" "is_syn (frame_stream_id i f) = is_syn f"
  "\<not> is_fin (frame_from_body b)" "\<not> is_syn (frame_from_body b)"
  by (simp_all add: is_fin_def is_syn_def flags_contains_def flag_bits) (simp_all add: flag_defs)

lemma flags_ok:
  "x AND NOT flags_all = 0 \<Longrightarrow> (x OR FIN) AND NOT flags_all = 0"
  "x AND NOT flags_all = 0 \<Longrightarrow> (x OR SYN) AND NOT flags_all = 0"
  by (simp_all add: bit.conj_disj_distrib2) (simp_all add: flag_defs)

text \<open>
  Every frame that a stream or the session sends, other than a GOAWAY, can be
  decoded by the peer: data, window increments and resets on a stream whose
  identifier is not zero, whatever their flags.
\<close>

lemma StreamID_clamp_0 [simp]: "StreamID_clamp 0 = 0"
  by (simp add: StreamID_clamp_def clamp_def)

lemma Length_clamp_4 [simp]: "Length_clamp 4 = 4"
  by (rule constrained_fixed) (simp add: LENGTH_MAX_def)

lemma Length_clamp_8 [simp]: "Length_clamp 8 = 8"
  by (rule constrained_fixed) (simp add: LENGTH_MAX_def)

lemma length_from_body_le: "hdr_length (frame_header (frame_from_body b)) \<le> LENGTH_MAX"
  by (simp add: frame_from_body_def Let_def)

lemma length_from_wndinc: "hdr_length (frame_header (frame_from_body (WndInc i))) = 4"
  by (simp add: frame_from_body_def Let_def as_u32_def)

lemmas validate_defs = validate_header_def expect_non_zero_stream_id_def expect_zero_stream_id_def
  expect_length_def expect_min_length_def

lemma validate_header_cong:
  "hdr_typ h = hdr_typ h' \<Longrightarrow> hdr_length h = hdr_length h' \<Longrightarrow> hdr_stream_id h = hdr_stream_id h' \<Longrightarrow>
   validate_header h = validate_header h'"
  by (simp add: validate_defs cong: header_type.case_cong)

lemma wire_data:
  assumes "sid \<noteq> 0" "sid \<le> STREAMID_MAX"
  shows "wire_frame (frame_stream_id sid (frame_from_body (Data bs)))"
  using assms length_from_body [of "Data bs"]
  by (simp add: wire_frame_def header_ok_def validate_defs length_from_body_le)

lemma wire_wndinc:
  assumes "sid \<noteq> 0" "sid \<le> STREAMID_MAX" "i \<le> WNDINC_MAX"
  shows "wire_frame (frame_stream_id sid (frame_from_body (WndInc i)))"
  using assms length_from_body_le [of "WndInc i"]
  by (simp add: wire_frame_def header_ok_def validate_defs length_from_wndinc)

lemma wire_rst:
  assumes "sid \<noteq> 0" "sid \<le> STREAMID_MAX"
  shows "wire_frame (frame_rst sid e)"
  using assms
  by (simp add: wire_frame_def header_ok_def validate_defs frame_rst_def header_default_def
      LENGTH_MAX_def)

lemma wire_flag:
  "wire_frame f \<Longrightarrow> wire_frame (frame_fin f)" "wire_frame f \<Longrightarrow> wire_frame (frame_syn f)"
  using validate_header_cong [of "frame_header (frame_fin f)" "frame_header f"]
    validate_header_cong [of "frame_header (frame_syn f)" "frame_header f"]
  by (simp_all add: wire_frame_def header_ok_def flags_ok)

text \<open>
  A GOAWAY as \<open>Frame::goaway\<close> builds it: its header claims the length of
  the message, and the body is eight bytes longer.
\<close>

lemma goaway_header:
  assumes "length msg \<le> unat LENGTH_MAX"
  shows "hdr_length (frame_header (frame_goaway l e msg)) = as_u32 (length msg)"
    "unat (hdr_length (frame_header (frame_goaway l e msg))) = length msg"
    "frame_body (frame_goaway l e msg) = GoAway l e msg"
    "hdr_typ (frame_header (frame_goaway l e msg)) = HGoAway"
    "hdr_stream_id (frame_header (frame_goaway l e msg)) = 0"
    "hdr_flags (frame_header (frame_goaway l e msg)) = 0"
  using assms
  by (simp_all add: frame_goaway_def Let_def header_default_def num_default_def Length_clamp_le
      unat_as_u32)

lemma goaway_validate:
  assumes "length msg \<le> unat LENGTH_MAX"
  shows "validate_header (frame_header (frame_goaway l e msg)) =
    (if length msg < 8 then Err (InvMinLength 8 (as_u32 (length msg))) else Ok ())"
  using goaway_header [OF assms, of l e]
  by (simp add: validate_defs word_less_nat_alt)

context be_buf
begin

lemma goaway_short:
  assumes "length msg < 8"
  shows "codec_encode B (frame_goaway l e msg) buf =
    (Err (invalid_header_to_io (InvMinLength 8 (as_u32 (length msg)))), buf)"
  using assms by (simp add: codec_encode_def goaway_validate)

lemma goaway_wire_header:
  assumes "length msg \<le> unat LENGTH_MAX"
  shows "wire_header (frame_header (frame_goaway l e msg))"
  using goaway_header [OF assms, of l e] assms
  by (simp add: wire_header_def header_ok_def wire_type_def word_le_nat_alt unat_as_u32)

lemma goaway_long:
  assumes "8 \<le> length msg" "length msg \<le> unat LENGTH_MAX" "l \<le> STREAMID_MAX"
  shows "\<exists>wire. codec_encode B (frame_goaway l e msg) [] = (Ok (), wire) \<and>
    codec_decode B codec_default (wire @ rest) =
      Some (Ok (Some ((frame_goaway l e msg)\<lparr>frame_body := GoAway l e (take (length msg - 8) msg)\<rparr>)),
        codec_default, drop (length msg - 8) msg @ rest)"
proof -
  define h where "h = frame_header (frame_goaway l e msg)"
  note hd = goaway_header [OF assms(2), of l e, folded h_def]
  define wire where "wire = encode_header B h [] @ u32_to_be_bytes l @ u32_to_be_bytes (error_to_code e) @ msg"
  have enc: "codec_encode B (frame_goaway l e msg) [] = (Ok (), wire)"
    using assms goaway_validate [OF assms(2), of l e]
    by (simp add: codec_encode_def encode_body_def put_u32_appends wire_def hd(3) flip: h_def)
  let ?bb = "u32_to_be_bytes l @ u32_to_be_bytes (error_to_code e) @ take (length msg - 8) msg"
  have val: "validate_header h = Ok ()"
    using assms goaway_validate [OF assms(2), of l e] by (simp flip: h_def)
  have body: "decode_frame B h ?bb = Some \<lparr>frame_header = h, frame_body = GoAway l e (take (length msg - 8) msg)\<rparr>"
    using assms by (simp add: decode_frame_def val decode_body_def hd get_u32_append constrained_fixed)
  have dh: "decode_header B (take 8 (wire @ rest)) = Some h"
    using decode_encode_header [OF goaway_wire_header [OF assms(2), of l e], of "[]"]
    by (simp add: wire_def h_def)
  have tk: "take (unat (hdr_length h)) (drop 8 (wire @ rest)) = ?bb"
    "drop (unat (hdr_length h)) (drop 8 (wire @ rest)) = drop (length msg - 8) msg @ rest"
    using assms unfolding hd(2) by (simp_all add: wire_def)
  have len: "\<not> length (wire @ rest) < 8" "\<not> length (drop 8 (wire @ rest)) < unat (hdr_length h)"
    using assms unfolding hd(2) by (simp_all add: wire_def)
  have "codec_decode B codec_default (wire @ rest) =
      Some (Ok (Some \<lparr>frame_header = h, frame_body = GoAway l e (take (length msg - 8) msg)\<rparr>),
        codec_default, drop (length msg - 8) msg @ rest)"
    unfolding codec_decode_def Let_def
    by (simp only: codec_default_def frame_codec.simps option.case len if_False dh tk body)
  with enc show ?thesis by (auto simp: h_def)
qed

end

section \<open>Arbitrary bytes\<close>

definition pending_ok :: "frame_codec \<Rightarrow> bool" where
  "pending_ok k \<longleftrightarrow> (\<forall>h. input_header k = Some h \<longrightarrow> wire_header h)"

definition pending_len :: "frame_codec \<Rightarrow> nat" where
  "pending_len k = (case input_header k of None \<Rightarrow> 0 | Some _ \<Rightarrow> 8)"

fun decoded_ok :: "frame \<Rightarrow> bool" where
  "decoded_ok f = (case validate_header (frame_header f) of
     Inl e \<Rightarrow> (case frame_body f of Invalid e' bs \<Rightarrow> e' = e \<and> length bs = unat (hdr_length (frame_header f)) | _ \<Rightarrow> False)
   | Inr _ \<Rightarrow> wire_frame f)"

context be_buf
begin

lemma decode_header_wire:
  "decode_header B bs = Some h \<Longrightarrow> 8 \<le> length bs \<Longrightarrow> wire_header h"
  using decode_header_total by fastforce

text \<open>
  A decoded frame either is well formed, or carries the reason for which its
  header was rejected and the bytes behind it.
\<close>

lemma decode_frame_sound:
  assumes "decode_frame B h bs = Some f" "wire_header h" "length bs = unat (hdr_length h)"
  shows "decoded_ok f \<and> frame_header f = h"
proof (cases "validate_header h")
  case (Inl e)
  with assms show ?thesis by (auto simp: decode_frame_def)
next
  case (Inr u)
  from assms(1) Inr obtain b where b: "decode_body B h bs = Some b" and f: "f = \<lparr>frame_header = h, frame_body = b\<rparr>"
    by (auto simp: decode_frame_def split: option.splits)
  have hl: "hdr_typ h = HRst \<or> hdr_typ h = HWndInc \<Longrightarrow> hdr_length h = 4"
      "hdr_typ h = HGoAway \<Longrightarrow> \<not> hdr_length h < 8" "\<forall>t. hdr_typ h \<noteq> HInvalid t"
    using Inr by (auto simp: validate_defs split: header_type.splits if_splits)
  have "wire_len b = unat (hdr_length h) \<and> body_ok b \<and> hdr_typ h = body_header_type b"
    using b hl assms(3)
    by (cases "hdr_typ h") (auto simp: decode_body_def get_u32_enough word_less_nat_alt)
  with Inr assms(2) show ?thesis
    by (simp add: f wire_frame_def wire_header_def)
qed

lemma decode_sound:
  assumes "codec_decode B k b = Some (Ok r, k', b')" "pending_ok k"
  shows "pending_ok k'"
    and "r = Some f \<Longrightarrow> decoded_ok f \<and> length b' + 8 + unat (hdr_length (frame_header f)) = length b + pending_len k \<and> pending_len k' = 0"
    and "r = None \<Longrightarrow> length b' + pending_len k' = length b + pending_len k"
proof -
  have "pending_ok k' \<and> (\<forall>f. r = Some f \<longrightarrow> decoded_ok f \<and>
      length b' + 8 + unat (hdr_length (frame_header f)) = length b + pending_len k \<and> pending_len k' = 0) \<and>
      (r = None \<longrightarrow> length b' + pending_len k' = length b + pending_len k)"
  proof (cases "input_header k")
    case None
    with assms show ?thesis
      by (auto simp: codec_decode_def Let_def pending_ok_def pending_len_def decode_header_wire
          dest!: decode_frame_sound split: option.splits if_splits simp del: decoded_ok.simps)
  next
    case (Some h)
    with assms show ?thesis
      by (auto simp: codec_decode_def Let_def pending_ok_def pending_len_def
          dest!: decode_frame_sound split: option.splits if_splits simp del: decoded_ok.simps)
  qed
  then show "pending_ok k'"
    and "r = Some f \<Longrightarrow> decoded_ok f \<and> length b' + 8 + unat (hdr_length (frame_header f)) = length b + pending_len k \<and> pending_len k' = 0"
    and "r = None \<Longrightarrow> length b' + pending_len k' = length b + pending_len k" by blast+
qed

lemma drain_sound:
  assumes "drain B k b = Some (fs, k', b')" "pending_ok k"
  shows "list_all decoded_ok fs \<and>
    sum_list (map (\<lambda>f. 8 + unat (hdr_length (frame_header f))) fs) + pending_len k' + length b'
      = length b + pending_len k"
  using assms
proof (induction fs arbitrary: k b)
  case Nil
  then have "codec_decode B k b = Some (Ok None, k', b')"
    by (subst (asm) drain.simps)
      (auto split: option.splits sum.splits Option.bind_splits prod.splits)
  from decode_sound(3) [OF this Nil(2)] show ?case by simp
next
  case (Cons f fs)
  then obtain k1 b1 where dec: "codec_decode B k b = Some (Ok (Some f), k1, b1)"
      and rest: "drain B k1 b1 = Some (fs, k', b')"
    by (subst (asm) (2) drain.simps)
      (auto split: option.splits sum.splits Option.bind_splits prod.splits)
  from Cons.IH [OF rest decode_sound(1) [OF dec Cons.prems(2)]]
    decode_sound(2) [OF dec Cons.prems(2) refl]
  show ?case by (simp del: decoded_ok.simps)
qed

end

section \<open>Properties of the codec\<close>

text \<open>
  C1. Whatever sequence of well-formed frames is encoded, and however the bytes
  are cut into chunks on their way, a reader that starts with an empty decoder
  returns exactly those frames in order, and is left with an empty buffer and no
  pending header.
\<close>

theorem codec_stream_roundtrip:
  assumes "be_buf B" "\<forall>f \<in> set fs. wire_frame f" "concat chunks = wire_bytes B fs"
  shows "feed B codec_default [] chunks = Some (fs, codec_default, [])"
  using assms(2,3) by (rule be_buf.feed_wire_bytes [OF assms(1)])

definition demo_frames :: "frame list" where
  "demo_frames = [frame_syn (frame_stream_id 1 (frame_from_body (Data [7, 8]))),
     frame_stream_id 1 (frame_from_body (WndInc 5)), frame_rst 2 StreamReset]"

lemma demo_frames_wire: "\<forall>f \<in> set demo_frames. wire_frame f"
  by (simp add: demo_frames_def wire_flag wire_data wire_wndinc wire_rst STREAMID_MAX_def WNDINC_MAX_def)

theorem codec_stream_roundtrip_witness:
  "feed std_buf codec_default [] [take 3 (wire_bytes std_buf demo_frames), drop 3 (wire_bytes std_buf demo_frames)]
     = Some (demo_frames, codec_default, [])"
  by (rule codec_stream_roundtrip [OF std_buf.be_buf_axioms demo_frames_wire]) simp

text \<open>
  C24. On arbitrary bytes the decoder never fails and never loops: it stops with
  a list of frames, each of which is well formed or is an \<open>Invalid\<close> frame
  that names the reason its header was rejected and holds its body, and every
  byte is accounted for by a frame, a pending header or the remaining buffer.
\<close>

theorem codec_total:
  assumes "be_buf B"
  shows "\<exists>fs k b. drain B codec_default bs = Some (fs, k, b) \<and> list_all decoded_ok fs \<and>
    sum_list (map (\<lambda>f. 8 + unat (hdr_length (frame_header f))) fs) + pending_len k + length b = length bs"
proof -
  obtain fs k b where d: "drain B codec_default bs = Some (fs, k, b)"
    using be_buf.drain_total [OF assms] by blast
  have "pending_ok codec_default" "pending_len codec_default = 0"
    by (simp_all add: pending_ok_def pending_len_def codec_default_def)
  with be_buf.drain_sound [OF assms d] d show ?thesis by auto
qed

theorem codec_total_witness:
  "\<exists>fs k b. drain std_buf codec_default [0, 0, 1, 240, 0, 0, 0, 9, 77, 5] = Some (fs, k, b) \<and> list_all decoded_ok fs \<and>
    sum_list (map (\<lambda>f. 8 + unat (hdr_length (frame_header f))) fs) + pending_len k + length b = 10"
  using codec_total [OF std_buf.be_buf_axioms, of "[0, 0, 1, 240, 0, 0, 0, 9, 77, 5]"]
  by (simp add: eval_nat_numeral)

text \<open>
  C37. A GOAWAY frame built by \<open>Frame::goaway\<close> claims the length of its message
  in its header although its body is eight bytes longer. A message shorter than
  eight bytes, the empty one included, makes the encoder refuse the frame; a
  longer one reaches the peer without its last eight bytes, which the peer then
  reads as the start of the next frame.
\<close>

theorem goaway_wire:
  assumes "be_buf B" "length msg \<le> unat LENGTH_MAX" "l \<le> STREAMID_MAX"
  shows "if length msg < 8
    then codec_encode B (frame_goaway l e msg) buf =
      (Err (invalid_header_to_io (InvMinLength 8 (as_u32 (length msg)))), buf)
    else \<exists>wire. codec_encode B (frame_goaway l e msg) [] = (Ok (), wire) \<and>
      codec_decode B codec_default (wire @ rest) =
        Some (Ok (Some ((frame_goaway l e msg)\<lparr>frame_body := GoAway l e (take (length msg - 8) msg)\<rparr>)),
          codec_default, drop (length msg - 8) msg @ rest)"
  using be_buf.goaway_short [OF assms(1), of msg l e buf]
    be_buf.goaway_long [OF assms(1) _ assms(2,3), of e rest]
  by auto

theorem goaway_wire_witness:
  "codec_encode std_buf (frame_goaway 0 NoError []) [] =
     (Err (invalid_header_to_io (InvMinLength 8 0)), [])"
  using goaway_wire [OF std_buf.be_buf_axioms, of "[]" 0 NoError "[]" "[]"] by (simp add: as_u32_def)

end
