(* ===== verification/Window.thy ===== *)
theory Window
  imports Prelude
begin

text \<open>
  \<open>muxado/src/window.rs\<close>: the flow-control window of a stream, and the
  contract its users rely on: what is taken from it never exceeds what it started
  with plus what was given back.
\<close>

section \<open>The window\<close>

record window =
  win_max :: usize
  win_size :: usize

definition window_new :: "usize \<Rightarrow> window" where
  "window_new capacity = \<lparr>win_max = capacity, win_size = capacity\<rparr>"

definition window_inc :: "usize \<Rightarrow> window \<Rightarrow> window" where
  "window_inc by w =
     (if by = 0 then w else w\<lparr>win_size := min (usize_add (win_size w) by) (win_max w)\<rparr>)"

definition window_capacity :: "window \<Rightarrow> usize" where
  "window_capacity w = win_size w"

definition window_dec :: "usize \<Rightarrow> window \<Rightarrow> usize \<times> window" where
  "window_dec by w =
     (let actual = min (win_size w) by in (actual, w\<lparr>win_size := win_size w - actual\<rparr>))"

section \<open>The invariant and the effect of each operation\<close>

text \<open>
  The size never exceeds the maximum. An increment is a \<open>WndInc\<close>, at most
  \<open>2 ^ 31 - 1\<close>: below \<open>2 ^ 64 - 2 ^ 31\<close> bytes of capacity the addition
  does not wrap.
\<close>

definition window_inv :: "window \<Rightarrow> bool" where
  "window_inv w \<longleftrightarrow> win_size w \<le> win_max w"

definition window_small :: "window \<Rightarrow> bool" where
  "window_small w \<longleftrightarrow> win_max w \<le> 2 ^ 64 - 2 ^ 31"

lemma window_inv_new [simp]: "window_inv (window_new n)"
  by (simp add: window_inv_def window_new_def)

lemma window_inv_ops [simp]:
  "window_inv w \<Longrightarrow> window_inv (window_inc n w)" "window_inv w \<Longrightarrow> window_inv (snd (window_dec n w))"
  by (auto simp: window_inv_def window_inc_def window_dec_def Let_def)

lemma window_max_ops [simp]:
  "win_max (window_new n) = n" "win_max (window_inc n w) = win_max w"
  "win_max (snd (window_dec n w)) = win_max w"
  by (simp_all add: window_new_def window_inc_def window_dec_def Let_def)

lemma window_small_ops [simp]:
  "window_small (window_inc n w) = window_small w" "window_small (snd (window_dec n w)) = window_small w"
  by (simp_all add: window_small_def)

lemma window_dec_exact [simp]:
  "n \<le> window_capacity w \<Longrightarrow> fst (window_dec n w) = n"
  by (simp add: window_dec_def window_capacity_def Let_def)

lemma capacity_dec [simp]:
  "window_capacity (snd (window_dec n w)) = window_capacity w - n"
  by (simp add: window_dec_def window_capacity_def Let_def min_def)

lemma capacity_new [simp]: "window_capacity (window_new n) = n"
  by (simp add: window_new_def window_capacity_def)

lemma capacity_inc:
  assumes "window_inv w" "window_small w" "n < 2 ^ 31"
  shows "window_capacity (window_inc n w) = min (window_capacity w + n) (win_max w)"
proof -
  have "win_size w + n < 2 ^ 64"
    using assms by (simp add: window_inv_def window_small_def)
  with assms(1) show ?thesis
    by (auto simp: window_inc_def window_capacity_def window_inv_def usize_add_exact)
qed

section \<open>The contract of a window\<close>

text \<open>
  A client takes and gives in any order. \<open>cap\<close> is what may still be taken.
\<close>

datatype credit_op = Take nat | Give nat

locale credit =
  fixes cap :: "'w \<Rightarrow> nat" and take_op :: "nat \<Rightarrow> 'w \<Rightarrow> nat \<times> 'w" and give_op :: "nat \<Rightarrow> 'w \<Rightarrow> 'w"
    and ok :: "'w \<Rightarrow> bool" and give_ok :: "nat \<Rightarrow> bool"
  assumes take_law: "ok w \<Longrightarrow> take_op n w = (a, w') \<Longrightarrow> a \<le> n \<and> a + cap w' = cap w \<and> ok w'"
    and give_law: "ok w \<Longrightarrow> give_ok n \<Longrightarrow> cap (give_op n w) \<le> cap w + n \<and> ok (give_op n w)"
begin

fun run :: "credit_op list \<Rightarrow> 'w \<Rightarrow> nat \<times> 'w" where
  "run [] w = (0, w)"
| "run (Take n # ops) w = (let (a, w') = take_op n w; (t, w'') = run ops w' in (a + t, w''))"
| "run (Give n # ops) w = run ops (give_op n w)"

fun given :: "credit_op list \<Rightarrow> nat" where
  "given [] = 0"
| "given (Take _ # ops) = given ops"
| "given (Give n # ops) = n + given ops"

lemma run_bound:
  assumes "ok w" "list_all (\<lambda>op. case op of Give n \<Rightarrow> give_ok n | _ \<Rightarrow> True) ops"
  shows "fst (run ops w) + cap (snd (run ops w)) \<le> cap w + given ops"
  using assms
proof (induction ops arbitrary: w)
  case (Cons op ops)
  show ?case
  proof (cases op)
    case (Take n)
    obtain a w' where aw: "take_op n w = (a, w')" by fastforce
    with take_law [OF Cons.prems(1)] have "a + cap w' = cap w" "ok w'" by auto
    with Cons.IH [of w'] Cons.prems(2) Take aw show ?thesis
      by (auto simp: split_beta Let_def)
  next
    case (Give n)
    with give_law [OF Cons.prems(1), of n] Cons.IH [of "give_op n w"] Cons.prems(2) show ?thesis
      by auto
  qed
qed simp

end

interpretation window_credit: credit window_capacity window_dec window_inc
  "\<lambda>w. window_inv w \<and> window_small w" "\<lambda>n. n < 2 ^ 31"
proof unfold_locales
  show "a \<le> n \<and> a + window_capacity w' = window_capacity w \<and> window_inv w' \<and> window_small w'"
    if "window_inv w \<and> window_small w" "window_dec n w = (a, w')" for w n a w'
    using that window_inv_ops(2) [of w n] window_small_ops(2) [of n w]
    by (auto simp: window_dec_def window_capacity_def Let_def)
  show "window_capacity (window_inc n w) \<le> window_capacity w + n \<and>
      window_inv (window_inc n w) \<and> window_small (window_inc n w)"
    if "window_inv w \<and> window_small w" "n < 2 ^ 31" for n w
    using that by (simp add: capacity_inc)
qed

end
