(* ===== verification/Mpsc.thy ===== *)
theory Mpsc
  imports Prelude
begin

text \<open>
  The channels of \<open>futures::channel::mpsc\<close>, which the repository calls and does
  not contain. Their operations are a parameter, a record over an abstract channel
  state; what the code relies on (a bounded queue, first in first out) is the
  locale \<open>fifo_chan\<close>. The bounded queue below satisfies it.
\<close>

section \<open>The operations and their laws\<close>

datatype send_error = Full | Disconnected

record ('a, 'c) mpsc =
  mk_chan :: "usize \<Rightarrow> 'c"
  tx_poll_ready :: "waker \<Rightarrow> 'c \<Rightarrow> (send_error, unit) result poll \<times> 'c"
  tx_start_send :: "'a \<Rightarrow> 'c \<Rightarrow> (send_error, unit) result \<times> 'c"
  tx_poll_flush :: "waker \<Rightarrow> 'c \<Rightarrow> (send_error, unit) result poll \<times> 'c"
  tx_poll_close :: "waker \<Rightarrow> 'c \<Rightarrow> (send_error, unit) result poll \<times> 'c"
  tx_close_channel :: "'c \<Rightarrow> 'c"
  rx_poll_next :: "waker \<Rightarrow> 'c \<Rightarrow> 'a option poll \<times> 'c"
  tx_drop :: "'c \<Rightarrow> 'c"
  rx_drop :: "'c \<Rightarrow> 'c"

text \<open>
  \<open>tx_drop\<close> and \<open>rx_drop\<close> are what the channel does when its last sender,
  or its receiver, goes out of scope.
  \<open>contents\<close> is what was sent and not yet received. A receiver is only told
  to wait, or that the channel is at its end, when nothing is left in it.
\<close>

locale fifo_chan =
  fixes M :: "('a, 'c) mpsc" and contents :: "'c \<Rightarrow> 'a list"
  assumes mk_empty [chan_laws]: "contents (mk_chan M n) = []"
    and ready_keeps: "tx_poll_ready M w c = (r, c') \<Longrightarrow> contents c' = contents c \<and> r \<noteq> Panicked"
    and send_appends: "tx_start_send M x c = (Ok (), c') \<Longrightarrow> contents c' = contents c @ [x]"
    and send_fails: "tx_start_send M x c = (Err e, c') \<Longrightarrow> contents c' = contents c"
    and flush_keeps: "tx_poll_flush M w c = (r, c') \<Longrightarrow> contents c' = contents c \<and> r \<noteq> Panicked"
    and close_keeps: "tx_poll_close M w c = (r, c') \<Longrightarrow> contents c' = contents c \<and> r \<noteq> Panicked"
    and close_channel_keeps [chan_laws]: "contents (tx_close_channel M c) = contents c"
    and next_pops: "rx_poll_next M w c = (Ready (Some x), c') \<Longrightarrow> contents c = x # contents c'"
    and next_empty: "rx_poll_next M w c = (Ready None, c') \<Longrightarrow> contents c = [] \<and> contents c' = []"
    and next_pending: "rx_poll_next M w c = (Pending, c') \<Longrightarrow> contents c = [] \<and> contents c' = []"
    and tx_drop_keeps [chan_laws]: "contents (tx_drop M c) = contents c"
    and rx_drop_clears [chan_laws]: "contents (rx_drop M c) = []"
    and next_no_panic: "fst (rx_poll_next M w c) \<noteq> Panicked"
begin

text \<open>The facts in the form the proofs of the clients use.\<close>

lemma contents_ready [chan_laws]: "contents (snd (tx_poll_ready M w c)) = contents c"
  using ready_keeps [of w c] by (cases "tx_poll_ready M w c") auto

lemma no_panic [simp]:
  "fst (tx_poll_ready M w c) \<noteq> Panicked" "fst (tx_poll_flush M w c) \<noteq> Panicked"
  "fst (tx_poll_close M w c) \<noteq> Panicked" "fst (rx_poll_next M w c) \<noteq> Panicked"
  using ready_keeps [of w c] flush_keeps [of w c] close_keeps [of w c] next_no_panic [of w c]
  by (metis prod.collapse)+

lemma contents_flush [chan_laws]: "contents (snd (tx_poll_flush M w c)) = contents c"
  using flush_keeps [of w c] by (cases "tx_poll_flush M w c") auto

lemma contents_close [chan_laws]: "contents (snd (tx_poll_close M w c)) = contents c"
  using close_keeps [of w c] by (cases "tx_poll_close M w c") auto

lemma contents_send [chan_laws]:
  "contents (snd (tx_start_send M x c)) =
    (case fst (tx_start_send M x c) of Inl _ \<Rightarrow> contents c | Inr _ \<Rightarrow> contents c @ [x])"
  using send_appends [of x c] send_fails [of x c]
  by (cases "tx_start_send M x c"; cases "fst (tx_start_send M x c)") auto

lemma contents_next_cases:
  "contents c = (case fst (rx_poll_next M w c) of
     Ready (Some x) \<Rightarrow> x # contents (snd (rx_poll_next M w c)) | _ \<Rightarrow> [])"
  using next_pops [of w c] next_empty [of w c] next_pending [of w c] next_no_panic [of w c]
  by (cases "rx_poll_next M w c"; cases "fst (rx_poll_next M w c)"; fastforce split: option.splits)

lemma contents_next [chan_laws]: "contents (snd (rx_poll_next M w c)) = tl (contents c)"
  using next_pops [of w c] next_empty [of w c] next_pending [of w c] next_no_panic [of w c]
  by (cases "rx_poll_next M w c"; cases "fst (rx_poll_next M w c)"; fastforce split: option.splits)

lemma next_Some_iff: "(\<exists>x. fst (rx_poll_next M w c) = Ready (Some x)) \<longleftrightarrow> contents c \<noteq> []"
  using contents_next_cases [of c w] by (auto split: poll.splits option.splits)

end

text \<open>
  A channel both of whose ends are held and not closed: it accepts what is sent to it
  once it was found ready, and its receiver is not told that it is at its end.
\<close>

locale open_chan = fifo_chan M contents
  for M :: "('a, 'c) mpsc" and contents :: "'c \<Rightarrow> 'a list" +
  fixes chan_open :: "'c \<Rightarrow> bool"
  assumes new_open: "chan_open (mk_chan M n)"
    and ready_open: "tx_poll_ready M w c = (r, c') \<Longrightarrow> chan_open c \<Longrightarrow> chan_open c' \<and> r \<noteq> Ready (Err e)"
    and send_open: "tx_start_send M x c = (q, c') \<Longrightarrow> chan_open c \<Longrightarrow> chan_open c'"
    and ready_sends: "tx_poll_ready M w c = (Ready (Ok ()), c1) \<Longrightarrow> chan_open c \<Longrightarrow>
      tx_start_send M x c1 = (q, c2) \<Longrightarrow> q = Ok ()"
    and next_open: "rx_poll_next M w c = (p, c') \<Longrightarrow> chan_open c \<Longrightarrow> chan_open c' \<and> p \<noteq> Ready None"

section \<open>A bounded queue\<close>

record 'a bounded_chan =
  bc_queue :: "'a list"
  bc_cap :: nat
  bc_open :: bool

definition bounded_mpsc :: "('a, 'a bounded_chan) mpsc" where
  "bounded_mpsc = \<lparr>
     mk_chan = (\<lambda>n. \<lparr>bc_queue = [], bc_cap = n, bc_open = True\<rparr>),
     tx_poll_ready = (\<lambda>_ c. (if \<not> bc_open c then Ready (Err Disconnected)
        else if bc_cap c < length (bc_queue c) then Pending else Ready (Ok ()), c)),
     tx_start_send = (\<lambda>x c. if \<not> bc_open c then (Err Disconnected, c)
        else (Ok (), c\<lparr>bc_queue := bc_queue c @ [x]\<rparr>)),
     tx_poll_flush = (\<lambda>_ c. (Ready (Ok ()), c)),
     tx_poll_close = (\<lambda>_ c. (Ready (Ok ()), c\<lparr>bc_open := False\<rparr>)),
     tx_close_channel = (\<lambda>c. c\<lparr>bc_open := False\<rparr>),
     rx_poll_next = (\<lambda>_ c. case bc_queue c of
        x # xs \<Rightarrow> (Ready (Some x), c\<lparr>bc_queue := xs\<rparr>)
      | [] \<Rightarrow> (if bc_open c then Pending else Ready None, c)),
     tx_drop = (\<lambda>c. c\<lparr>bc_open := False\<rparr>),
     rx_drop = (\<lambda>c. c\<lparr>bc_queue := [], bc_open := False\<rparr>)\<rparr>"

interpretation bounded: fifo_chan bounded_mpsc bc_queue
  by unfold_locales (auto simp: bounded_mpsc_def split: if_splits list.splits)

interpretation bounded: open_chan bounded_mpsc bc_queue bc_open
  by unfold_locales (auto simp: bounded_mpsc_def split: if_splits list.splits)

end
