(* ===== verification/Stream_Output.thy ===== *)
theory Stream_Output
  imports Frame Mpsc
begin

text \<open>
  \<open>muxado/src/stream_output.rs\<close>: the sink a stream writes its frames to, and
  the closer through which the stream manager shuts it. Channels and atomic cells
  are shared between the stream and the manager, so they live in a heap and are
  named by numbers.
\<close>

section \<open>The shared heap\<close>

text \<open>
  \<open>chans\<close> holds the frame channels, \<open>codes\<close> the cells
  \<open>Arc<AtomicU32>\<close>, \<open>heap_next\<close> is the next fresh name and
  \<open>woken\<close> records the calls of \<open>Waker::wake\<close>, oldest first.
\<close>

record 'c heap =
  chans :: "nat \<Rightarrow> 'c"
  codes :: "nat \<Rightarrow> u32"
  heap_next :: nat
  woken :: "waker list"

definition set_chan :: "nat \<Rightarrow> 'c \<Rightarrow> 'c heap \<Rightarrow> 'c heap" where
  "set_chan i c h = h\<lparr>chans := (chans h)(i := c)\<rparr>"

definition set_code :: "nat \<Rightarrow> u32 \<Rightarrow> 'c heap \<Rightarrow> 'c heap" where
  "set_code i v h = h\<lparr>codes := (codes h)(i := v)\<rparr>"

definition on_chan :: "nat \<Rightarrow> ('c \<Rightarrow> 'r \<times> 'c) \<Rightarrow> 'c heap \<Rightarrow> 'r \<times> 'c heap" where
  "on_chan i f h = (let (r, c) = f (chans h i) in (r, set_chan i c h))"

definition new_chan :: "(frame, 'c) mpsc \<Rightarrow> usize \<Rightarrow> 'c heap \<Rightarrow> nat \<times> 'c heap" where
  "new_chan M n h = (heap_next h, (set_chan (heap_next h) (mk_chan M n) h)\<lparr>heap_next := Suc (heap_next h)\<rparr>)"

definition new_code :: "u32 \<Rightarrow> 'c heap \<Rightarrow> nat \<times> 'c heap" where
  "new_code v h = (heap_next h, (set_code (heap_next h) v h)\<lparr>heap_next := Suc (heap_next h)\<rparr>)"

definition wake :: "waker \<Rightarrow> 'c heap \<Rightarrow> 'c heap" where
  "wake w h = h\<lparr>woken := woken h @ [w]\<rparr>"

lemma heap_simps [simp]:
  "chans (set_chan i c h) = (chans h)(i := c)" "codes (set_chan i c h) = codes h"
  "heap_next (set_chan i c h) = heap_next h" "woken (set_chan i c h) = woken h"
  "chans (set_code i v h) = chans h" "codes (set_code i v h) = (codes h)(i := v)"
  "heap_next (set_code i v h) = heap_next h" "woken (set_code i v h) = woken h"
  "chans (wake w h) = chans h" "codes (wake w h) = codes h" "heap_next (wake w h) = heap_next h"
  "woken (wake w h) = woken h @ [w]"
  by (simp_all add: set_chan_def set_code_def wake_def)

lemma on_chan_simps [simp]:
  "fst (on_chan i f h) = fst (f (chans h i))"
  "snd (on_chan i f h) = set_chan i (snd (f (chans h i))) h"
  by (simp_all add: on_chan_def split_beta Let_def)

section \<open>The closer\<close>

definition compare_exchange :: "u32 \<Rightarrow> u32 \<Rightarrow> nat \<Rightarrow> 'c heap \<Rightarrow> 'c heap" where
  "compare_exchange old new i h = (if codes h i = old then set_code i new h else h)"

definition close_with :: "nat \<Rightarrow> mux_error \<Rightarrow> 'c heap \<Rightarrow> 'c heap" where
  "close_with i e h = compare_exchange 0 (error_to_code e) i h"

definition check_closed :: "nat \<Rightarrow> 'c heap \<Rightarrow> (mux_error, unit) result" where
  "check_closed i h =
     (let code = codes h i in
      if code \<noteq> 0 then Err (error_from_code (ErrorCode_mask code)) else Ok ())"

definition is_closed :: "nat \<Rightarrow> 'c heap \<Rightarrow> bool" where
  "is_closed i h = (case check_closed i h of Inl _ \<Rightarrow> True | Inr _ \<Rightarrow> False)"

section \<open>The sender\<close>

record stream_sender =
  snd_sink :: nat
  snd_closer :: nat

definition sender_wrap :: "nat \<Rightarrow> 'c heap \<Rightarrow> stream_sender \<times> 'c heap" where
  "sender_wrap sink h = (let (code, h') = new_code 0 h in (\<lparr>snd_sink = sink, snd_closer = code\<rparr>, h'))"

definition sender_poll_ready ::
  "(frame, 'c) mpsc \<Rightarrow> waker \<Rightarrow> stream_sender \<Rightarrow> 'c heap \<Rightarrow> (mux_error, unit) result poll \<times> 'c heap" where
  "sender_poll_ready M w s h =
     (case check_closed (snd_closer s) h of
        Inl e \<Rightarrow> (Ready (Err e), h)
      | Inr _ \<Rightarrow>
        (let (r, h1) = on_chan (snd_sink s) (tx_poll_ready M w) h in
         case r of
           Pending \<Rightarrow> (Pending, h1)
         | Panicked \<Rightarrow> (Panicked, h1)
         | Ready (Inr _) \<Rightarrow> (Ready (Ok ()), h1)
         | Ready (Inl _) \<Rightarrow> (Ready (Err SessionClosed), close_with (snd_closer s) SessionClosed h1)))"

definition sender_start_send ::
  "(frame, 'c) mpsc \<Rightarrow> frame \<Rightarrow> stream_sender \<Rightarrow> 'c heap \<Rightarrow> (mux_error, unit) result \<times> 'c heap" where
  "sender_start_send M item s h =
     (case check_closed (snd_closer s) h of
        Inl e \<Rightarrow> (Err e, h)
      | Inr _ \<Rightarrow>
        (let (r, h1) = on_chan (snd_sink s) (tx_start_send M item) h in
         case r of
           Inr _ \<Rightarrow> (Ok (), h1)
         | Inl _ \<Rightarrow> (Err SessionClosed, close_with (snd_closer s) SessionClosed h1)))"

definition sender_poll_flush ::
  "(frame, 'c) mpsc \<Rightarrow> waker \<Rightarrow> stream_sender \<Rightarrow> 'c heap \<Rightarrow> (mux_error, unit) result poll \<times> 'c heap" where
  "sender_poll_flush M w s h =
     (case check_closed (snd_closer s) h of
        Inl e \<Rightarrow> (Ready (Err e), h)
      | Inr _ \<Rightarrow>
        (let (r, h1) = on_chan (snd_sink s) (tx_poll_flush M w) h in
         case r of
           Pending \<Rightarrow> (Pending, h1)
         | Panicked \<Rightarrow> (Panicked, h1)
         | Ready (Inr _) \<Rightarrow> (Ready (Ok ()), h1)
         | Ready (Inl _) \<Rightarrow> (Ready (Err SessionClosed), close_with (snd_closer s) SessionClosed h1)))"

definition sender_poll_close ::
  "(frame, 'c) mpsc \<Rightarrow> waker \<Rightarrow> stream_sender \<Rightarrow> 'c heap \<Rightarrow> (mux_error, unit) result poll \<times> 'c heap" where
  "sender_poll_close M w s h =
     (case check_closed (snd_closer s) h of
        Inl e \<Rightarrow> (Ready (Err e), h)
      | Inr _ \<Rightarrow>
        (let failed = (\<lambda>h. (Ready (Err SessionClosed), close_with (snd_closer s) SessionClosed h));
             (r, h1) = on_chan (snd_sink s) (tx_poll_flush M w) h in
         case r of
           Pending \<Rightarrow> (Pending, h1)
         | Panicked \<Rightarrow> (Panicked, h1)
         | Ready (Inl _) \<Rightarrow> failed h1
         | Ready (Inr _) \<Rightarrow>
           (let (r2, h2) = on_chan (snd_sink s) (tx_poll_close M w) h1 in
            case r2 of
              Pending \<Rightarrow> (Pending, h2)
            | Panicked \<Rightarrow> (Panicked, h2)
            | Ready (Inl _) \<Rightarrow> failed h2
            | Ready (Inr _) \<Rightarrow> (Ready (Ok ()), close_with (snd_closer s) StreamClosed h2))))"

section \<open>The closer keeps the first error\<close>

lemma close_with_simps [simp]:
  "chans (close_with i e h) = chans h" "heap_next (close_with i e h) = heap_next h"
  "woken (close_with i e h) = woken h"
  "codes (close_with i e h) =
     (if codes h i = 0 then (codes h)(i := error_to_code e) else codes h)"
  by (simp_all add: close_with_def compare_exchange_def)

lemma check_closed_iff: "check_closed i h = Ok () \<longleftrightarrow> codes h i = 0"
  by (simp add: check_closed_def Let_def)

lemma check_closed_cases:
  "check_closed i h = (if codes h i = 0 then Ok () else Err (error_from_code (codes h i)))"
  by (simp add: check_closed_def Let_def)

lemma is_closed_iff [simp]: "is_closed i h \<longleftrightarrow> codes h i \<noteq> 0"
  by (simp add: is_closed_def check_closed_cases)

lemma check_closed_after:
  "check_closed i (close_with i e h) =
     (if is_closed i h then check_closed i h else if e = NoError then Ok () else Err e)"
  by (simp add: check_closed_cases)

section \<open>What the sender does to the heap\<close>

text \<open>
  An operation of the sender touches its own channel and its own cell, and
  returns an error exactly when the sink is closed afterwards.
\<close>

definition sender_frame :: "stream_sender \<Rightarrow> 'c heap \<Rightarrow> 'c heap \<Rightarrow> bool" where
  "sender_frame s h h' \<longleftrightarrow> (\<forall>i. i \<noteq> snd_sink s \<longrightarrow> chans h' i = chans h i) \<and>
     (\<forall>i. i \<noteq> snd_closer s \<longrightarrow> codes h' i = codes h i) \<and>
     (codes h (snd_closer s) \<noteq> 0 \<longrightarrow> h' = h) \<and>
     heap_next h' = heap_next h \<and> woken h' = woken h"

lemma error_to_code_SessionClosed [simp]: "error_to_code SessionClosed \<noteq> 0"
  by simp

lemma sender_poll_ready_frame:
  "sender_poll_ready M w s h = (r, h') \<Longrightarrow> sender_frame s h h'"
  by (auto simp: sender_poll_ready_def sender_frame_def check_closed_cases on_chan_def split_beta Let_def
      split: poll.splits sum.splits if_splits)

lemma sender_start_send_frame:
  "sender_start_send M x s h = (r, h') \<Longrightarrow> sender_frame s h h'"
  by (auto simp: sender_start_send_def sender_frame_def check_closed_cases on_chan_def split_beta Let_def
      split: poll.splits sum.splits if_splits)

lemma sender_poll_flush_frame:
  "sender_poll_flush M w s h = (r, h') \<Longrightarrow> sender_frame s h h'"
  by (auto simp: sender_poll_flush_def sender_frame_def check_closed_cases on_chan_def split_beta Let_def
      split: poll.splits sum.splits if_splits)

context fifo_chan
begin

abbreviation queue :: "'c heap \<Rightarrow> nat \<Rightarrow> 'a list" where
  "queue h i \<equiv> contents (chans h i)"

end

locale frame_chan = fifo_chan M contents for M :: "(frame, 'c) mpsc" and contents
begin

lemma sender_ready_effect:
  assumes "sender_poll_ready M w s h = (r, h')"
  shows "queue h' (snd_sink s) = queue h (snd_sink s)" "r \<noteq> Panicked"
    "r = Ready (Ok ()) \<Longrightarrow> codes h' = codes h \<and> codes h (snd_closer s) = 0"
    "r = Ready (Err e) \<Longrightarrow> codes h' (snd_closer s) \<noteq> 0 \<and> e = error_from_code (codes h' (snd_closer s))"
  using assms no_panic(1) [of w "chans h (snd_sink s)"]
  by (auto simp: sender_poll_ready_def check_closed_cases on_chan_def split_beta Let_def chan_laws
      split: poll.splits sum.splits if_splits)

lemma sender_send_effect:
  assumes "sender_start_send M x s h = (r, h')"
  shows "r = Ok () \<Longrightarrow> queue h' (snd_sink s) = queue h (snd_sink s) @ [x] \<and> codes h' = codes h \<and> codes h (snd_closer s) = 0"
    "r = Err e \<Longrightarrow> queue h' (snd_sink s) = queue h (snd_sink s) \<and> codes h' (snd_closer s) \<noteq> 0 \<and>
      e = error_from_code (codes h' (snd_closer s))"
  using assms
  by (auto simp: sender_start_send_def check_closed_cases on_chan_def split_beta Let_def chan_laws
      split: poll.splits sum.splits if_splits)

lemma sender_flush_effect:
  assumes "sender_poll_flush M w s h = (r, h')"
  shows "queue h' (snd_sink s) = queue h (snd_sink s)" "r \<noteq> Panicked"
    "r = Ready (Ok ()) \<Longrightarrow> codes h' = codes h \<and> codes h (snd_closer s) = 0"
    "r = Ready (Err e) \<Longrightarrow> codes h' (snd_closer s) \<noteq> 0 \<and> e = error_from_code (codes h' (snd_closer s))"
  using assms no_panic(2) [of w "chans h (snd_sink s)"]
  by (auto simp: sender_poll_flush_def check_closed_cases on_chan_def split_beta Let_def chan_laws
      split: poll.splits sum.splits if_splits)

end

interpretation bounded_frames: frame_chan bounded_mpsc bc_queue
  by unfold_locales

section \<open>Properties of the closer\<close>

text \<open>
  The first error a sink is closed with is the one every later operation of
  the stream reports, whatever errors it is closed with afterwards; but closing
  it with \<open>Error::None\<close>, as a GOAWAY without an error does, leaves it open.
\<close>

theorem closer_first_error:
  "check_closed i (foldl (\<lambda>h e. close_with i e h) h es) =
     (if is_closed i h then check_closed i h
      else case dropWhile (\<lambda>e. e = NoError) es of [] \<Rightarrow> Ok () | e # _ \<Rightarrow> Err e)"
proof (induction es arbitrary: h)
  case Nil
  then show ?case by (simp add: check_closed_cases)
next
  case (Cons e es)
  then show ?case by (auto simp: check_closed_cases)
qed

end
