(* ===== verification/Mux_Stream.thy ===== *)
theory Mux_Stream
  imports Window Stream_Output
begin

text \<open>
  \<open>muxado/src/stream.rs\<close>: a stream, the object a user reads from and writes to.
  Each poll takes the waker of the polling task, the stream and the heap, and
  returns its result with both. A loop that polls a channel returns an option,
  \<open>None\<close> standing for a loop that does not end; the theorems show that
  this does not happen on a channel that obeys its laws.
\<close>

section \<open>The stream\<close>

record mux_stream =
  st_dropref :: "nat option"
  st_window :: window
  read_buf :: bytes
  st_fin :: nat
  st_fout :: stream_sender
  read_waker :: "waker option"
  write_waker :: "waker option"
  write_closed :: "mux_error option"
  data_read_closed :: bool
  needs_syn :: bool

definition stream_new :: "stream_sender \<Rightarrow> nat \<Rightarrow> usize \<Rightarrow> bool \<Rightarrow> mux_stream" where
  "stream_new fout fin window_size syn =
     \<lparr>st_dropref = None, st_window = window_new window_size, read_buf = [], st_fin = fin, st_fout = fout,
      read_waker = None, write_waker = None, write_closed = None, data_read_closed = False,
      needs_syn = syn\<rparr>"

section \<open>Receiving frames\<close>

definition poll_recv_frame ::
  "(frame, 'c) mpsc \<Rightarrow> waker \<Rightarrow> mux_stream \<Rightarrow> 'c heap \<Rightarrow> frame option poll \<times> 'c heap" where
  "poll_recv_frame M w s h = on_chan (st_fin s) (rx_poll_next M w) h"

definition maybe_wake :: "waker option \<Rightarrow> waker option \<Rightarrow> 'c heap \<Rightarrow> 'c heap" where
  "maybe_wake me other h =
     (case (me, other) of
        (Some m, Some o') \<Rightarrow> if o' \<noteq> m then wake o' h else h
      | (None, Some o') \<Rightarrow> wake o' h
      | _ \<Rightarrow> h)"

definition maybe_wake_read :: "waker option \<Rightarrow> mux_stream \<Rightarrow> 'c heap \<Rightarrow> mux_stream \<times> 'c heap" where
  "maybe_wake_read cx s h = (s\<lparr>read_waker := None\<rparr>, maybe_wake cx (read_waker s) h)"

definition maybe_wake_write :: "waker option \<Rightarrow> mux_stream \<Rightarrow> 'c heap \<Rightarrow> mux_stream \<times> 'c heap" where
  "maybe_wake_write cx s h = (s\<lparr>write_waker := None\<rparr>, maybe_wake cx (write_waker s) h)"

text \<open>\<open>None\<close> is the panic of \<open>unreachable!\<close>.\<close>

definition stream_handle_frame ::
  "frame \<Rightarrow> waker option \<Rightarrow> mux_stream \<Rightarrow> 'c heap \<Rightarrow> (header_type \<times> mux_stream \<times> 'c heap) option" where
  "stream_handle_frame f cx s h =
     (let s1 = (if is_fin f then s\<lparr>data_read_closed := True\<rparr> else s);
          typ = hdr_typ (frame_header f) in
      case frame_body f of
        Data bs \<Rightarrow> Some (typ, maybe_wake_read cx (s1\<lparr>read_buf := read_buf s1 @ bs\<rparr>) h)
      | WndInc by \<Rightarrow> Some (typ, maybe_wake_write cx (s1\<lparr>st_window := window_inc (unat by) (st_window s1)\<rparr>) h)
      | _ \<Rightarrow> None)"

partial_function (option) poll_recv_frame_type ::
  "(frame, 'c) mpsc \<Rightarrow> waker \<Rightarrow> header_type \<Rightarrow> mux_stream \<Rightarrow> 'c heap
     \<Rightarrow> ((io_error, unit) result poll \<times> mux_stream \<times> 'c heap) option" where
  "poll_recv_frame_type M w target_typ s h =
     (case poll_recv_frame M w s h of
        (Pending, h1) \<Rightarrow> Some (Pending, s, h1)
      | (Panicked, h1) \<Rightarrow> Some (Panicked, s, h1)
      | (Ready None, h1) \<Rightarrow> Some (Ready (Ok ()), s\<lparr>data_read_closed := True\<rparr>, h1)
      | (Ready (Some f), h1) \<Rightarrow>
        (case stream_handle_frame f (Some w) s h1 of
           None \<Rightarrow> Some (Panicked, s, h1)
         | Some (typ, s2, h2) \<Rightarrow>
           if typ = target_typ then Some (Ready (Ok ()), s2, h2)
           else poll_recv_frame_type M w target_typ s2 h2))"

definition poll_recv_data ::
  "(frame, 'c) mpsc \<Rightarrow> waker \<Rightarrow> mux_stream \<Rightarrow> 'c heap
     \<Rightarrow> ((io_error, unit) result poll \<times> mux_stream \<times> 'c heap) option" where
  "poll_recv_data M w s h = poll_recv_frame_type M w HData s h"

definition poll_recv_wndinc ::
  "(frame, 'c) mpsc \<Rightarrow> waker \<Rightarrow> mux_stream \<Rightarrow> 'c heap
     \<Rightarrow> ((io_error, unit) result poll \<times> mux_stream \<times> 'c heap) option" where
  "poll_recv_wndinc M w s h = poll_recv_frame_type M w HWndInc s h"

definition poll_send_wndinc ::
  "(frame, 'c) mpsc \<Rightarrow> waker \<Rightarrow> u32 \<Rightarrow> mux_stream \<Rightarrow> 'c heap \<Rightarrow> unit poll \<times> 'c heap" where
  "poll_send_wndinc M w by s h =
     (case sender_poll_ready M w (st_fout s) h of
        (Pending, h1) \<Rightarrow> (Pending, h1)
      | (Panicked, h1) \<Rightarrow> (Panicked, h1)
      | (Ready (Inl _), h1) \<Rightarrow> (Ready (), h1)
      | (Ready (Inr _), h1) \<Rightarrow>
        (let (_, h2) = sender_start_send M (frame_from_body (WndInc by)) (st_fout s) h1 in (Ready (), h2)))"

section \<open>Reading\<close>

text \<open>
  \<open>poll_read\<close>: the room in the caller's buffer is \<open>room\<close>; the bytes put
  into it are part of the result.
\<close>

partial_function (option) poll_read ::
  "(frame, 'c) mpsc \<Rightarrow> waker \<Rightarrow> usize \<Rightarrow> mux_stream \<Rightarrow> 'c heap
     \<Rightarrow> ((io_error, unit) result poll \<times> bytes \<times> mux_stream \<times> 'c heap) option" where
  "poll_read M w room s h =
     (if read_buf s \<noteq> [] then
        (let max_n = min (length (read_buf s)) room;
             clamped = WndInc_clamp (as_u32 max_n);
             n = unat clamped in
         if 0 < n then
           (case poll_send_wndinc M w clamped s h of
              (Pending, h1) \<Rightarrow> Some (Pending, [], s, h1)
            | (Panicked, h1) \<Rightarrow> Some (Panicked, [], s, h1)
            | (Ready _, h1) \<Rightarrow>
              Some (Ready (Ok ()), take n (read_buf s), s\<lparr>read_buf := drop n (read_buf s)\<rparr>, h1))
         else Some (Ready (Ok ()), [], s, h))
      else if data_read_closed s then Some (Ready (Ok ()), [], s, h)
      else
        (let s1 = s\<lparr>read_waker := Some w\<rparr> in
         Option.bind (poll_recv_data M w s1 h)
           (\<lambda>(r, s2, h2).
              case r of
                Pending \<Rightarrow> Some (Pending, [], s2, h2)
              | Panicked \<Rightarrow> Some (Panicked, [], s2, h2)
              | Ready (Inl e) \<Rightarrow> Some (Ready (Err e), [], s2, h2)
              | Ready (Inr _) \<Rightarrow> poll_read M w room s2 h2)))"

section \<open>Writing\<close>

definition closed_err :: "mux_error \<Rightarrow> mux_stream \<Rightarrow> io_error \<times> mux_stream" where
  "closed_err code s = (IoError ConnectionReset (SrcMux code), s\<lparr>write_closed := Some code\<rparr>)"

text \<open>The part of \<open>poll_write\<close> after the window was found open or waited for.\<close>

definition poll_write_send ::
  "(frame, 'c) mpsc \<Rightarrow> waker \<Rightarrow> bytes \<Rightarrow> mux_stream \<Rightarrow> 'c heap
     \<Rightarrow> (io_error, usize) result poll \<times> mux_stream \<times> 'c heap" where
  "poll_write_send M w buf s h =
     (case sender_poll_ready M w (st_fout s) h of
        (Pending, h1) \<Rightarrow> (Pending, s, h1)
      | (Panicked, h1) \<Rightarrow> (Panicked, s, h1)
      | (Ready (Inl e), h1) \<Rightarrow> (let (e', s1) = closed_err e s in (Ready (Err e'), s1, h1))
      | (Ready (Inr _), h1) \<Rightarrow>
        (let wincap = window_capacity (st_window s);
             max_len = Length_clamp (as_u32 (length buf));
             send_len = min wincap (unat max_len);
             f = frame_from_body (Data (take send_len buf));
             (f, s1) = (if needs_syn s then (frame_syn f, s\<lparr>needs_syn := False\<rparr>) else (f, s)) in
         case sender_start_send M f (st_fout s) h1 of
           (Inl e, h2) \<Rightarrow> (let (e', s2) = closed_err e s1 in (Ready (Err e'), s2, h2))
         | (Inr _, h2) \<Rightarrow>
           (Ready (Ok send_len), s1\<lparr>st_window := snd (window_dec send_len (st_window s1))\<rparr>, h2)))"

definition poll_write ::
  "(frame, 'c) mpsc \<Rightarrow> waker \<Rightarrow> bytes \<Rightarrow> mux_stream \<Rightarrow> 'c heap
     \<Rightarrow> ((io_error, usize) result poll \<times> mux_stream \<times> 'c heap) option" where
  "poll_write M w buf s h =
     (case write_closed s of
        Some code \<Rightarrow> Some (Ready (Err (IoError BrokenPipe (SrcMux code))), s, h)
      | None \<Rightarrow>
        if window_capacity (st_window s) = 0 then
          Option.bind (poll_recv_wndinc M w (s\<lparr>write_waker := Some w\<rparr>) h)
            (\<lambda>(r, s1, h1).
               case r of
                 Pending \<Rightarrow> Some (Pending, s1, h1)
               | Panicked \<Rightarrow> Some (Panicked, s1, h1)
               | Ready (Inl e) \<Rightarrow> Some (Ready (Err e), s1, h1)
               | Ready (Inr _) \<Rightarrow> Some (poll_write_send M w buf s1 h1))
        else Some (poll_write_send M w buf s h))"

definition stream_poll_flush ::
  "(frame, 'c) mpsc \<Rightarrow> waker \<Rightarrow> mux_stream \<Rightarrow> 'c heap
     \<Rightarrow> (io_error, unit) result poll \<times> mux_stream \<times> 'c heap" where
  "stream_poll_flush M w s h =
     (case sender_poll_flush M w (st_fout s) h of
        (Pending, h1) \<Rightarrow> (Pending, s, h1)
      | (Panicked, h1) \<Rightarrow> (Panicked, s, h1)
      | (Ready (Inr _), h1) \<Rightarrow> (Ready (Ok ()), s, h1)
      | (Ready (Inl e), h1) \<Rightarrow> (let (e', s1) = closed_err e s in (Ready (Err e'), s1, h1)))"

definition poll_shutdown ::
  "(frame, 'c) mpsc \<Rightarrow> waker \<Rightarrow> mux_stream \<Rightarrow> 'c heap
     \<Rightarrow> (io_error, unit) result poll \<times> mux_stream \<times> 'c heap" where
  "poll_shutdown M w s h =
     (if write_closed s = None then
        (case sender_poll_ready M w (st_fout s) h of
           (Pending, h1) \<Rightarrow> (Pending, s, h1)
         | (Panicked, h1) \<Rightarrow> (Panicked, s, h1)
         | (Ready (Inl e), h1) \<Rightarrow> (let (e', s1) = closed_err e s in (Ready (Err e'), s1, h1))
         | (Ready (Inr _), h1) \<Rightarrow>
           (case sender_start_send M (frame_fin (frame_from_body (Data []))) (st_fout s) h1 of
              (Inl e, h2) \<Rightarrow> (let (e', s1) = closed_err e s in (Ready (Err e'), s1, h2))
            | (Inr _, h2) \<Rightarrow> stream_poll_flush M w (s\<lparr>write_closed := Some StreamClosed\<rparr>) h2))
      else stream_poll_flush M w s h)"

section \<open>What a stream takes from its channel\<close>

fun is_data :: "frame \<Rightarrow> bool" where
  "is_data f = (case frame_body f of Data _ \<Rightarrow> True | _ \<Rightarrow> False)"

fun frame_data :: "frame \<Rightarrow> bytes" where
  "frame_data f = (case frame_body f of Data bs \<Rightarrow> bs | _ \<Rightarrow> [])"

definition data_of :: "frame list \<Rightarrow> bytes" where
  "data_of fs = concat (map frame_data fs)"

fun frame_inc :: "frame \<Rightarrow> nat" where
  "frame_inc f = (case frame_body f of WndInc i \<Rightarrow> unat i | _ \<Rightarrow> 0)"

definition window_after :: "frame list \<Rightarrow> window \<Rightarrow> window" where
  "window_after fs win = foldl (\<lambda>v f. window_inc (frame_inc f) v) win fs"

text \<open>
  The frames the stream manager forwards to a stream: data and window increments
  whose header has the type of the body.
\<close>

fun stream_frame :: "frame \<Rightarrow> bool" where
  "stream_frame f = (case frame_body f of Data _ \<Rightarrow> hdr_typ (frame_header f) = HData
     | WndInc i \<Rightarrow> hdr_typ (frame_header f) = HWndInc \<and> i \<le> WNDINC_MAX | _ \<Rightarrow> False)"

lemma data_of_simps [simp]:
  "data_of [] = []" "data_of (f # fs) = frame_data f @ data_of fs" "data_of (fs @ gs) = data_of fs @ data_of gs"
  by (simp_all add: data_of_def)

lemma window_after_simps [simp]:
  "window_after [] v = v" "window_after (f # fs) v = window_after fs (window_inc (frame_inc f) v)"
  "window_after (fs @ gs) v = window_after gs (window_after fs v)"
  by (simp_all add: window_after_def)

lemma window_inc_0 [simp]: "window_inc 0 v = v"
  by (simp add: window_inc_def)

text \<open>
  The effect of taking the frames \<open>used\<close>: data goes to the read buffer,
  increments to the window, the flag FIN closes the read side, the two wakers are
  woken by the frames they wait for; nothing else changes.
\<close>

definition absorb :: "frame list \<Rightarrow> mux_stream \<Rightarrow> mux_stream" where
  "absorb used s = s\<lparr>read_buf := read_buf s @ data_of used, st_window := window_after used (st_window s),
     data_read_closed := data_read_closed s \<or> list_ex is_fin used,
     read_waker := (if list_ex is_data used then None else read_waker s),
     write_waker := (if list_ex (\<lambda>f. \<not> is_data f) used then None else write_waker s)\<rparr>"

definition wakes :: "waker \<Rightarrow> frame list \<Rightarrow> mux_stream \<Rightarrow> waker list \<Rightarrow> bool" where
  "wakes w used s ws \<longleftrightarrow>
     (\<forall>r. read_waker s = Some r \<and> r \<noteq> w \<and> list_ex is_data used \<longrightarrow> r \<in> set ws) \<and>
     (\<forall>r. write_waker s = Some r \<and> r \<noteq> w \<and> list_ex (\<lambda>f. \<not> is_data f) used \<longrightarrow> r \<in> set ws)"

definition recv_post ::
  "waker \<Rightarrow> frame list \<Rightarrow> mux_stream \<Rightarrow> 'c heap \<Rightarrow> 'c heap \<Rightarrow> bool" where
  "recv_post w used s h h' \<longleftrightarrow>
     (\<forall>i. i \<noteq> st_fin s \<longrightarrow> chans h' i = chans h i) \<and> codes h' = codes h \<and> heap_next h' = heap_next h \<and>
     set (woken h) \<subseteq> set (woken h') \<and> wakes w used s (woken h')"

lemma absorb_simps [simp]:
  "st_fin (absorb us s) = st_fin s" "st_fout (absorb us s) = st_fout s" "absorb [] s = s"
  "needs_syn (absorb us s) = needs_syn s" "write_closed (absorb us s) = write_closed s"
  "read_buf (absorb us s) = read_buf s @ data_of us"
  "st_window (absorb us s) = window_after us (st_window s)"
  "data_read_closed (absorb us s) = (data_read_closed s \<or> list_ex is_fin us)"
  by (simp_all add: absorb_def)

lemma absorb_append: "absorb vs (absorb us s) = absorb (us @ vs) s"
  by (simp add: absorb_def)

lemma recv_post_refl: "(\<forall>i. i \<noteq> st_fin s \<longrightarrow> chans h' i = chans h i) \<Longrightarrow> codes h' = codes h \<Longrightarrow>
    heap_next h' = heap_next h \<Longrightarrow> woken h' = woken h \<Longrightarrow> recv_post w [] s h h'"
  by (simp add: recv_post_def wakes_def)

lemma wakes_append:
  assumes "wakes w us s ws" "wakes w vs (absorb us s) ws'" "set ws \<subseteq> set ws'"
  shows "wakes w (us @ vs) s ws'"
  using assms by (auto simp: wakes_def absorb_def simp del: is_data.simps split: if_splits)

lemma recv_post_trans:
  assumes "recv_post w us s h h1" "recv_post w vs (absorb us s) h1 h2"
  shows "recv_post w (us @ vs) s h h2"
  using assms wakes_append [of w us s "woken h1" vs "woken h2"]
  by (auto simp: recv_post_def)

lemma handle_frame_post:
  assumes "stream_frame f"
  shows "\<exists>h'. stream_handle_frame f (Some w) s h = Some (hdr_typ (frame_header f), absorb [f] s, h') \<and>
    recv_post w [f] s h h' \<and> chans h' = chans h"
  using assms
  by (cases "frame_body f")
    (auto simp: stream_handle_frame_def recv_post_def wakes_def absorb_def maybe_wake_read_def
      maybe_wake_write_def maybe_wake_def split: option.splits)

definition recv_result ::
  "header_type \<Rightarrow> (io_error, unit) result poll \<Rightarrow> frame list \<Rightarrow> bool \<Rightarrow> frame list \<Rightarrow> bool" where
  "recv_result t r used closed rest \<longleftrightarrow>
     (if used \<noteq> [] \<and> hdr_typ (frame_header (last used)) = t
      then r = Ready (Ok ()) \<and> (\<forall>f \<in> set (butlast used). hdr_typ (frame_header f) \<noteq> t) \<and> \<not> closed
      else rest = [] \<and> (\<forall>f \<in> set used. hdr_typ (frame_header f) \<noteq> t) \<and>
        r = (if closed then Ready (Ok ()) else Pending))"

lemma recv_result_Cons:
  assumes "recv_result t r used closed rest" "hdr_typ (frame_header f) \<noteq> t"
  shows "recv_result t r (f # used) closed rest"
proof (cases "used \<noteq> [] \<and> hdr_typ (frame_header (last used)) = t")
  case True
  with assms show ?thesis unfolding recv_result_def by simp
next
  case False
  with assms have "rest = [] \<and> (\<forall>f \<in> set used. hdr_typ (frame_header f) \<noteq> t) \<and>
        r = (if closed then Ready (Ok ()) else Pending)"
    unfolding recv_result_def by (simp only: if_False) simp
  moreover have "\<not> (f # used \<noteq> [] \<and> hdr_typ (frame_header (last (f # used))) = t)"
    using False assms(2) by auto
  ultimately show ?thesis
    using assms(2) unfolding recv_result_def by (simp only: if_False set_simps ball_simps simp_thms refl) blast
qed

context frame_chan
begin

definition recv_spec where
  "recv_spec w t s h res \<longleftrightarrow> (\<exists>r h' used closed. res = Some (r,
      (if closed then (absorb used s)\<lparr>data_read_closed := True\<rparr> else absorb used s), h') \<and>
    queue h (st_fin s) = used @ queue h' (st_fin s) \<and> recv_post w used s h h' \<and>
    recv_result t r used closed (queue h' (st_fin s)))"

lemma recv_specI:
  "queue h (st_fin s) = used @ queue h' (st_fin s) \<Longrightarrow> recv_post w used s h h' \<Longrightarrow>
   recv_result t r used closed (queue h' (st_fin s)) \<Longrightarrow>
   s' = (if closed then (absorb used s)\<lparr>data_read_closed := True\<rparr> else absorb used s) \<Longrightarrow>
   recv_spec w t s h (Some (r, s', h'))"
  unfolding recv_spec_def by blast

lemma recv_spec_step:
  assumes "recv_spec w t (absorb [f] s) h2 res" "recv_post w [f] s h h2"
    "queue h (st_fin s) = f # queue h2 (st_fin s)" "hdr_typ (frame_header f) \<noteq> t"
  shows "recv_spec w t s h res"
proof -
  from assms(1) obtain r h' used closed where
    ih: "res = Some (r, (if closed then (absorb used (absorb [f] s))\<lparr>data_read_closed := True\<rparr>
        else absorb used (absorb [f] s)), h')"
      "queue h2 (st_fin s) = used @ queue h' (st_fin s)" "recv_post w used (absorb [f] s) h2 h'"
      "recv_result t r used closed (queue h' (st_fin s))"
    unfolding recv_spec_def absorb_simps by blast
  have "recv_result t r ([f] @ used) closed (queue h' (st_fin s))"
    using recv_result_Cons [OF ih(4) assms(4)] by simp
  moreover have "queue h (st_fin s) = ([f] @ used) @ queue h' (st_fin s)"
    using assms(3) ih(2) by simp
  ultimately show ?thesis
    unfolding ih(1) absorb_append
    using recv_post_trans [OF assms(2) ih(3)] by (blast intro: recv_specI)
qed

lemma recv_frame_type_post:
  assumes "\<forall>f \<in> set (queue h (st_fin s)). stream_frame f"
  shows "recv_spec w t s h (poll_recv_frame_type M w t s h)"
  using assms
proof (induction "queue h (st_fin s)" arbitrary: s h)
  case Nil
  obtain p c where pc: "rx_poll_next M w (chans h (st_fin s)) = (p, c)" by fastforce
  have c: "contents c = []"
    using contents_next [of w "chans h (st_fin s)"] Nil(1) pc by simp
  have p: "p = Pending \<or> p = Ready None"
    using next_Some_iff [of w "chans h (st_fin s)"] no_panic(4) [of w "chans h (st_fin s)"] Nil(1) pc
    by (cases p) (auto simp: not_None_eq)
  have refl: "recv_post w [] s h (set_chan (st_fin s) c h)"
    by (rule recv_post_refl) auto
  have "poll_recv_frame_type M w t s h =
      Some (if p = Pending then Pending else Ready (Ok ()),
        if p \<noteq> Pending then s\<lparr>data_read_closed := True\<rparr> else s, set_chan (st_fin s) c h)"
    using p by (subst poll_recv_frame_type.simps) (auto simp: poll_recv_frame_def on_chan_def pc)
  moreover have "recv_spec w t s h \<dots>"
    by (rule recv_specI [of _ _ "[]" _ _ _ _ "p \<noteq> Pending"])
      (use p refl c Nil(1) in \<open>auto simp: recv_result_def\<close>)
  ultimately show ?case by simp
next
  case (Cons f q)
  obtain c where pc: "rx_poll_next M w (chans h (st_fin s)) = (Ready (Some f), c)"
    using contents_next_cases [of "chans h (st_fin s)" w] Cons.hyps(2)
    by (cases "rx_poll_next M w (chans h (st_fin s))") (auto split: poll.splits option.splits)
  then have q: "contents c = q" using next_pops Cons.hyps(2) by fastforce
  let ?h1 = "set_chan (st_fin s) c h"
  have sf: "stream_frame f" using Cons.prems Cons.hyps(2) by (metis list.set_intros(1))
  obtain h2 where hf: "stream_handle_frame f (Some w) s ?h1 = Some (hdr_typ (frame_header f), absorb [f] s, h2)"
    "recv_post w [f] s ?h1 h2" "chans h2 = chans ?h1"
    using handle_frame_post [OF sf] by blast
  have "recv_post w [] s h ?h1"
    by (rule recv_post_refl) auto
  then have post: "recv_post w [f] s h h2"
    using recv_post_trans [of w "[]" s h ?h1 "[f]" h2] hf(2) by simp
  have q2: "queue h2 (st_fin s) = q" by (simp add: hf(3) q)
  have unf: "poll_recv_frame_type M w t s h =
     (if hdr_typ (frame_header f) = t then Some (Ready (Ok ()), absorb [f] s, h2)
      else poll_recv_frame_type M w t (absorb [f] s) h2)"
    by (subst poll_recv_frame_type.simps) (simp add: poll_recv_frame_def on_chan_def pc hf(1))
  show ?case
  proof (cases "hdr_typ (frame_header f) = t")
    case True
    then have "recv_spec w t s h (Some (Ready (Ok ()), absorb [f] s, h2))"
      by (intro recv_specI [of _ _ "[f]" _ _ _ _ False])
        (use post q2 Cons.hyps(2) in \<open>auto simp: recv_result_def\<close>)
    with True unf show ?thesis by simp
  next
    case False
    have "\<forall>g \<in> set (queue h2 (st_fin (absorb [f] s))). stream_frame g"
      using Cons.prems q2 unfolding Cons.hyps(2) [symmetric] by simp
    then have "recv_spec w t (absorb [f] s) h2 (poll_recv_frame_type M w t (absorb [f] s) h2)"
      by (rule Cons.hyps(1) [rotated]) (simp add: q2)
    then have "recv_spec w t s h (poll_recv_frame_type M w t (absorb [f] s) h2)"
      by (rule recv_spec_step) (use post q2 Cons.hyps(2) False in auto)
    with False unf show ?thesis by simp
  qed
qed

end

end
