(* ===== verification/Stream_Props.thy ===== *)
theory Stream_Props
  imports Mux_Stream
begin

text \<open>
  What a write, a read and a shutdown of a stream do to its channels, and the
  properties of a stream.
\<close>

section \<open>What a write sends and what a read delivers\<close>

definition data_frame :: "bool \<Rightarrow> bytes \<Rightarrow> frame" where
  "data_frame syn bs = (if syn then frame_syn (frame_from_body (Data bs)) else frame_from_body (Data bs))"

definition write_len :: "window \<Rightarrow> bytes \<Rightarrow> nat" where
  "write_len win buf = min (window_capacity win) (unat (Length_clamp (as_u32 (length buf))))"

lemma write_len_bounds:
  "write_len win buf \<le> window_capacity win" "write_len win buf \<le> length buf"
  "write_len win buf \<le> unat LENGTH_MAX"
proof -
  show "write_len win buf \<le> length buf"
    using unat_Length_clamp_le [of "length buf"] by (simp add: write_len_def)
  show "write_len win buf \<le> unat LENGTH_MAX"
    using constrained_in_range(5) [of "as_u32 (length buf)"]
    unfolding write_len_def word_le_nat_alt by linarith
qed (simp add: write_len_def)

lemma recv_result_cases:
  assumes "recv_result t r used closed rest"
  obtains (found) "used \<noteq> []" "hdr_typ (frame_header (last used)) = t" "r = Ready (Ok ())" "\<not> closed"
  | (ended) "rest = []" "\<forall>f \<in> set used. hdr_typ (frame_header f) \<noteq> t" "r = Ready (Ok ())" "closed"
  | (waiting) "rest = []" "\<forall>f \<in> set used. hdr_typ (frame_header f) \<noteq> t" "r = Pending" "\<not> closed"
proof (cases "used \<noteq> [] \<and> hdr_typ (frame_header (last used)) = t")
  case True
  with assms have "r = Ready (Ok ()) \<and> \<not> closed"
    unfolding recv_result_def by (simp only: simp_thms if_True)
  with True show ?thesis using found by blast
next
  case False
  then have "rest = [] \<and> (\<forall>f \<in> set used. hdr_typ (frame_header f) \<noteq> t) \<and>
      r = (if closed then Ready (Ok ()) else Pending)"
    using assms unfolding recv_result_def by presburger
  then show ?thesis using ended waiting by presburger
qed

lemma recv_result_ok:
  assumes "recv_result t r used closed rest"
  shows "r = Pending \<and> rest = [] \<or> r = Ready (Ok ())"
  using assms by (rule recv_result_cases) blast+

context frame_chan
begin

text \<open>
  The effect of the sending half of a write: on success one data frame is appended
  to the sink, with the flag SYN when the stream still owes it, and the window
  shrinks by its length; otherwise the sink is as before.
\<close>

definition send_spec ::
  "bytes \<Rightarrow> mux_stream \<Rightarrow> 'c heap \<Rightarrow> (io_error, usize) result poll \<times> mux_stream \<times> 'c heap \<Rightarrow> bool" where
  "send_spec buf s h res \<longleftrightarrow> (case res of (r, s', h') \<Rightarrow>
     sender_frame (st_fout s) h h' \<and> read_buf s' = read_buf s \<and> data_read_closed s' = data_read_closed s \<and>
     st_fin s' = st_fin s \<and> st_fout s' = st_fout s \<and>
     (case r of
        Ready (Inr n) \<Rightarrow> n = write_len (st_window s) buf \<and> \<not> needs_syn s' \<and> write_closed s' = write_closed s \<and>
          queue h' (snd_sink (st_fout s)) = queue h (snd_sink (st_fout s)) @ [data_frame (needs_syn s) (take n buf)] \<and>
          st_window s' = snd (window_dec n (st_window s)) \<and> codes h (snd_closer (st_fout s)) = 0
      | Ready (Inl e) \<Rightarrow> (\<exists>code. e = IoError ConnectionReset (SrcMux code) \<and> write_closed s' = Some code \<and>
          code = error_from_code (codes h' (snd_closer (st_fout s))) \<and> codes h' (snd_closer (st_fout s)) \<noteq> 0) \<and>
          queue h' (snd_sink (st_fout s)) = queue h (snd_sink (st_fout s)) \<and> st_window s' = st_window s
      | Pending \<Rightarrow> s' = s \<and> queue h' (snd_sink (st_fout s)) = queue h (snd_sink (st_fout s))
      | Panicked \<Rightarrow> False))"

lemma sender_frame_trans:
  "sender_frame s h h1 \<Longrightarrow> sender_frame s h1 h2 \<Longrightarrow> sender_frame s h h2"
  by (auto simp: sender_frame_def)

lemma write_send_spec: "send_spec buf s h (poll_write_send M w buf s h)"
proof -
  obtain r h1 where pr: "sender_poll_ready M w (st_fout s) h = (r, h1)" by fastforce
  note fr = sender_poll_ready_frame [OF pr] and ef = sender_ready_effect [OF pr]
  show ?thesis
  proof (cases r)
    case Pending
    with pr fr ef show ?thesis by (simp add: poll_write_send_def send_spec_def)
  next
    case Panicked
    with ef show ?thesis by simp
  next
    case (Ready x)
    show ?thesis
    proof (cases x)
      case (Inl e)
      with pr fr ef Ready show ?thesis by (simp add: poll_write_send_def send_spec_def closed_err_def)
    next
      case (Inr u)
      define n where "n = write_len (st_window s) buf"
      define f where "f = data_frame (needs_syn s) (take n buf)"
      obtain q h2 where ps: "sender_start_send M f (st_fout s) h1 = (q, h2)" by fastforce
      note fr2 = sender_frame_trans [OF fr sender_start_send_frame [OF ps]] and ef2 = sender_send_effect [OF ps]
      have eq: "poll_write_send M w buf s h =
        (case q of Inl e \<Rightarrow> (Ready (Err (IoError ConnectionReset (SrcMux e))),
             s\<lparr>needs_syn := False, write_closed := Some e\<rparr>, h2)
         | Inr _ \<Rightarrow> (Ready (Ok n), s\<lparr>needs_syn := False, st_window := snd (window_dec n (st_window s))\<rparr>, h2))"
        using pr Ready Inr ps unfolding poll_write_send_def n_def [unfolded write_len_def, symmetric] Let_def
        by (auto simp: f_def data_frame_def closed_err_def split: sum.splits)
      show ?thesis
      proof (cases q)
        case (Inl e)
        with eq fr2 ef Ready Inr ef2(2) [of e] show ?thesis by (auto simp: send_spec_def)
      next
        case (Inr u')
        with eq fr2 ef Ready \<open>x = Inr u\<close> ef2(1) show ?thesis
          by (auto simp: send_spec_def n_def f_def)
      qed
    qed
  qed
qed

lemma write_post:
  assumes "write_closed s = None" "snd_sink (st_fout s) \<noteq> st_fin s"
    "\<forall>f \<in> set (queue h (st_fin s)). stream_frame f"
  shows "\<exists>r s' h' used. poll_write M w buf s h = Some (r, s', h') \<and>
    queue h (st_fin s) = used @ queue h' (st_fin s) \<and> read_buf s' = read_buf s @ data_of used \<and>
    (used = [] \<or> window_capacity (st_window s) = 0) \<and> st_fin s' = st_fin s \<and> st_fout s' = st_fout s \<and>
    (case r of
       Ready (Inr n) \<Rightarrow> n = write_len (window_after used (st_window s)) buf \<and> \<not> needs_syn s' \<and>
         write_closed s' = None \<and> st_window s' = snd (window_dec n (window_after used (st_window s))) \<and>
         queue h' (snd_sink (st_fout s)) = queue h (snd_sink (st_fout s)) @ [data_frame (needs_syn s) (take n buf)]
     | Ready (Inl e) \<Rightarrow> queue h' (snd_sink (st_fout s)) = queue h (snd_sink (st_fout s)) \<and>
         st_window s' = window_after used (st_window s) \<and>
         (\<exists>code. e = IoError ConnectionReset (SrcMux code) \<and> write_closed s' = Some code)
     | Pending \<Rightarrow> queue h' (snd_sink (st_fout s)) = queue h (snd_sink (st_fout s)) \<and> needs_syn s' = needs_syn s \<and>
         st_window s' = window_after used (st_window s) \<and> write_closed s' = None
     | Panicked \<Rightarrow> False) \<and>
    (\<forall>reader. read_waker s = Some reader \<and> reader \<noteq> w \<and> list_ex is_data used \<longrightarrow> reader \<in> set (woken h'))"
proof (cases "window_capacity (st_window s) = 0")
  case False
  obtain r s' h' where ps: "poll_write_send M w buf s h = (r, s', h')"
    by (cases "poll_write_send M w buf s h") auto
  have "chans h' (st_fin s) = chans h (st_fin s)"
    using write_send_spec [of buf s h w] assms(2) by (simp add: ps send_spec_def sender_frame_def)
  with write_send_spec [of buf s h w] assms False show ?thesis
    by (intro exI [of _ r] exI [of _ s'] exI [of _ h'] exI [of _ "[]"])
      (auto simp: poll_write_def ps send_spec_def split: poll.splits sum.splits)
next
  case True
  let ?s = "s\<lparr>write_waker := Some w\<rparr>"
  have "recv_spec w HWndInc ?s h (poll_recv_wndinc M w ?s h)"
    unfolding poll_recv_wndinc_def by (rule recv_frame_type_post) (use assms in simp)
  then obtain r1 h1 used closed where
    rv: "poll_recv_wndinc M w ?s h = Some (r1, (if closed then (absorb used ?s)\<lparr>data_read_closed := True\<rparr>
          else absorb used ?s), h1)" "queue h (st_fin s) = used @ queue h1 (st_fin s)"
      "recv_post w used ?s h h1" "recv_result HWndInc r1 used closed (queue h1 (st_fin s))"
    unfolding recv_spec_def by auto
  define s1 where "s1 = (if closed then (absorb used ?s)\<lparr>data_read_closed := True\<rparr> else absorb used ?s)"
  have s1: "read_buf s1 = read_buf s @ data_of used" "st_window s1 = window_after used (st_window s)"
    "st_fin s1 = st_fin s" "st_fout s1 = st_fout s" "needs_syn s1 = needs_syn s" "write_closed s1 = None"
    using assms(1) by (auto simp: s1_def)
  have wk: "\<forall>reader. read_waker s = Some reader \<and> reader \<noteq> w \<and> list_ex is_data used \<longrightarrow> reader \<in> set (woken h1)"
    using rv(3) by (simp add: recv_post_def wakes_def)
  have sink: "queue h1 (snd_sink (st_fout s)) = queue h (snd_sink (st_fout s))"
    using rv(3) assms(2) by (simp add: recv_post_def)
  from recv_result_ok [OF rv(4)] consider "r1 = Pending" | "r1 = Ready (Ok ())" by blast
  then show ?thesis
  proof cases
    case 1
    with rv True assms(1) s1 sink wk show ?thesis
      by (intro exI [of _ Pending] exI [of _ s1] exI [of _ h1] exI [of _ used])
        (auto simp: poll_write_def s1_def simp del: is_data.simps)
  next
    case 2
    obtain r s' h' where ps: "poll_write_send M w buf s1 h1 = (r, s', h')"
      by (cases "poll_write_send M w buf s1 h1") auto
    have "poll_write M w buf s h = Some (r, s', h')"
      using True assms(1) rv(1) 2 ps by (simp add: poll_write_def s1_def)
    moreover have "chans h' (st_fin s) = chans h1 (st_fin s)" "woken h' = woken h1"
      using write_send_spec [of buf s1 h1 w] assms(2) s1 by (simp_all add: ps send_spec_def sender_frame_def)
    ultimately show ?thesis
      using write_send_spec [of buf s1 h1 w] rv(2) True s1 sink wk
      by (intro exI [of _ r] exI [of _ s'] exI [of _ h'] exI [of _ used])
        (auto simp: ps send_spec_def simp del: is_data.simps split: poll.splits sum.splits)
  qed
qed

text \<open>
  A read moves bytes from the front of what has arrived to the caller, and tells
  the peer how many: the sink receives one window increment of that number, unless
  the sink is closed.
\<close>

definition inc_sent :: "mux_stream \<Rightarrow> nat \<Rightarrow> 'c heap \<Rightarrow> 'c heap \<Rightarrow> bool" where
  "inc_sent s n h h' \<longleftrightarrow>
     (if n = 0 then queue h' (snd_sink (st_fout s)) = queue h (snd_sink (st_fout s))
      else queue h' (snd_sink (st_fout s)) =
             queue h (snd_sink (st_fout s)) @ [frame_from_body (WndInc (as_u32 n))] \<and> n \<le> unat WNDINC_MAX \<or>
           queue h' (snd_sink (st_fout s)) = queue h (snd_sink (st_fout s)) \<and> codes h' (snd_closer (st_fout s)) \<noteq> 0)"

lemma send_wndinc_post:
  assumes "poll_send_wndinc M w by s h = (r, h')"
  shows "r = Pending \<and> queue h' (snd_sink (st_fout s)) = queue h (snd_sink (st_fout s)) \<or>
    r = Ready () \<and> (queue h' (snd_sink (st_fout s)) = queue h (snd_sink (st_fout s)) @ [frame_from_body (WndInc by)] \<or>
      queue h' (snd_sink (st_fout s)) = queue h (snd_sink (st_fout s)) \<and> codes h' (snd_closer (st_fout s)) \<noteq> 0)"
    and "sender_frame (st_fout s) h h'"
proof -
  obtain q h1 where pr: "sender_poll_ready M w (st_fout s) h = (q, h1)" by fastforce
  obtain q2 h2 where ps: "sender_start_send M (frame_from_body (WndInc by)) (st_fout s) h1 = (q2, h2)" by fastforce
  note e1 = sender_ready_effect [OF pr] and e2 = sender_send_effect [OF ps]
  show "r = Pending \<and> queue h' (snd_sink (st_fout s)) = queue h (snd_sink (st_fout s)) \<or>
    r = Ready () \<and> (queue h' (snd_sink (st_fout s)) = queue h (snd_sink (st_fout s)) @ [frame_from_body (WndInc by)] \<or>
      queue h' (snd_sink (st_fout s)) = queue h (snd_sink (st_fout s)) \<and> codes h' (snd_closer (st_fout s)) \<noteq> 0)"
    using assms e1 e2(1) e2(2) [of "projl q2"]
    by (cases q2) (auto simp: poll_send_wndinc_def pr ps split: poll.splits sum.splits)
  show "sender_frame (st_fout s) h h'"
    using assms sender_poll_ready_frame [OF pr]
      sender_frame_trans [OF sender_poll_ready_frame [OF pr] sender_start_send_frame [OF ps]]
    by (auto simp: poll_send_wndinc_def pr ps split: poll.splits sum.splits)
qed

definition read_spec ::
  "waker \<Rightarrow> usize \<Rightarrow> mux_stream \<Rightarrow> 'c heap \<Rightarrow> frame list \<Rightarrow>
    ((io_error, unit) result poll \<times> bytes \<times> mux_stream \<times> 'c heap) option \<Rightarrow> bool" where
  "read_spec w room s h used res \<longleftrightarrow> (\<exists>r out s' h'. res = Some (r, out, s', h') \<and>
     queue h (st_fin s) = used @ queue h' (st_fin s) \<and> read_buf s @ data_of used = out @ read_buf s' \<and>
     length out \<le> room \<and> inc_sent s (length out) h h' \<and>
     st_window s' = window_after used (st_window s) \<and> st_fin s' = st_fin s \<and> st_fout s' = st_fout s \<and>
     needs_syn s' = needs_syn s \<and> write_closed s' = write_closed s \<and>
     (data_read_closed s \<or> list_ex is_fin used \<longrightarrow> data_read_closed s') \<and>
     (r = Ready (Ok ()) \<and> (out = [] \<longrightarrow> room = 0 \<or> read_buf s' = [] \<and> data_read_closed s') \<or>
      r = Pending \<and> out = [] \<and> (read_buf s' \<noteq> [] \<or> queue h' (st_fin s) = [] \<and> \<not> data_read_closed s)))"

lemma clamp_wndinc:
  assumes "n < 2 ^ 32"
  shows "unat (WndInc_clamp (as_u32 n)) \<le> n" "0 < n \<Longrightarrow> 0 < unat (WndInc_clamp (as_u32 n))"
    "as_u32 (unat (WndInc_clamp (as_u32 n))) = WndInc_clamp (as_u32 n)"
    "unat (WndInc_clamp (as_u32 n)) \<le> unat WNDINC_MAX"
proof -
  have u: "unat (as_u32 n) = n" using assms by (simp add: unat_as_u32)
  show "unat (WndInc_clamp (as_u32 n)) \<le> n" "0 < n \<Longrightarrow> 0 < unat (WndInc_clamp (as_u32 n))"
    using u by (auto simp: WndInc_clamp_def clamp_def WNDINC_MAX_def word_less_nat_alt)
  show "as_u32 (unat (WndInc_clamp (as_u32 n))) = WndInc_clamp (as_u32 n)"
    by (simp add: as_u32_def)
  show "unat (WndInc_clamp (as_u32 n)) \<le> unat WNDINC_MAX"
    using constrained_in_range(3) [of "as_u32 n"] by (simp only: word_le_nat_alt)
qed

lemma read_buffered:
  assumes "read_buf s \<noteq> []" "length (read_buf s) < 2 ^ 32" "snd_sink (st_fout s) \<noteq> st_fin s"
  shows "read_spec w room s h [] (poll_read M w room s h)"
proof -
  define m where "m = min (length (read_buf s)) room"
  define n where "n = unat (WndInc_clamp (as_u32 m))"
  have m32: "m < 2 ^ 32" using assms(2) by (simp add: m_def)
  note cl = clamp_wndinc [OF m32, folded n_def]
  show ?thesis
  proof (cases "0 < n")
    case False
    then have "m = 0" using cl(2) by auto
    then have "room = 0" using assms(1) by (simp add: m_def min_def split: if_splits)
    with False assms(1) show ?thesis
      by (subst poll_read.simps) (simp add: read_spec_def inc_sent_def n_def m_def)
  next
    case True
    obtain r h1 where ps: "poll_send_wndinc M w (WndInc_clamp (as_u32 m)) s h = (r, h1)" by fastforce
    note sp = send_wndinc_post [OF ps]
    have fin: "chans h1 (st_fin s) = chans h (st_fin s)"
      using sp(2) assms(3) by (simp add: sender_frame_def)
    have len: "length (take n (read_buf s)) = n" "n \<le> room"
      using cl(1) by (simp_all add: m_def)
    have eq: "poll_read M w room s h = (case r of Pending \<Rightarrow> Some (Pending, [], s, h1)
        | Panicked \<Rightarrow> Some (Panicked, [], s, h1)
        | Ready _ \<Rightarrow> Some (Ready (Ok ()), take n (read_buf s), s\<lparr>read_buf := drop n (read_buf s)\<rparr>, h1))"
      using True assms(1) ps
      by (subst poll_read.simps) (simp add: n_def m_def Let_def split: poll.splits)
    from sp(1) show ?thesis
    proof (elim disjE conjE)
      assume "r = Pending" and q: "queue h1 (snd_sink (st_fout s)) = queue h (snd_sink (st_fout s))"
      then show ?thesis
        using assms(1) fin by (simp add: eq read_spec_def inc_sent_def)
    qed (use True len fin cl(3,4) assms(1) in \<open>auto simp: eq read_spec_def inc_sent_def n_def\<close>)
  qed
qed

text \<open>A round of the loop that takes \<open>us\<close> from the channel and goes on.\<close>

lemma read_spec_round:
  assumes "read_spec w room s2 h2 vs res"
    "queue h (st_fin s) = us @ queue h2 (st_fin s)" "read_buf s2 = read_buf s @ data_of us"
    "st_window s2 = window_after us (st_window s)" "st_fin s2 = st_fin s" "st_fout s2 = st_fout s"
    "needs_syn s2 = needs_syn s" "write_closed s2 = write_closed s"
    "data_read_closed s \<or> list_ex is_fin us \<longrightarrow> data_read_closed s2"
    "\<not> data_read_closed s \<or> read_buf s2 \<noteq> []"
    "queue h2 (snd_sink (st_fout s)) = queue h (snd_sink (st_fout s))"
  shows "read_spec w room s h (us @ vs) res"
proof -
  have "inc_sent s n h h' = inc_sent s2 n h2 h'" for n h'
    using assms by (simp add: inc_sent_def)
  with assms show ?thesis
    unfolding read_spec_def by fastforce
qed

lemma read_post:
  assumes "snd_sink (st_fout s) \<noteq> st_fin s" "\<forall>f \<in> set (queue h (st_fin s)). stream_frame f"
    "length (read_buf s @ data_of (queue h (st_fin s))) < 2 ^ 32"
  shows "\<exists>used. read_spec w room s h used (poll_read M w room s h)"
  using assms
proof (induction "length (queue h (st_fin s))" arbitrary: s h rule: less_induct)
  case less
  consider (buffered) "read_buf s \<noteq> []" | (eof) "read_buf s = []" "data_read_closed s"
    | (recv) "read_buf s = []" "\<not> data_read_closed s" by blast
  then show ?case
  proof cases
    case buffered
    with less.prems show ?thesis by (intro exI [of _ "[]"] read_buffered) auto
  next
    case eof
    then show ?thesis
      by (intro exI [of _ "[]"]) (subst poll_read.simps, simp add: read_spec_def inc_sent_def)
  next
    case recv
    let ?s = "s\<lparr>read_waker := Some w\<rparr>"
    have "recv_spec w HData ?s h (poll_recv_data M w ?s h)"
      unfolding poll_recv_data_def by (rule recv_frame_type_post) (use less.prems in simp)
    then obtain r1 h1 us closed where
      rv: "poll_recv_data M w ?s h = Some (r1, (if closed then (absorb us ?s)\<lparr>data_read_closed := True\<rparr>
            else absorb us ?s), h1)" "queue h (st_fin s) = us @ queue h1 (st_fin s)"
        "recv_post w us ?s h h1" "recv_result HData r1 us closed (queue h1 (st_fin s))"
      unfolding recv_spec_def by auto
    define s1 where "s1 = (if closed then (absorb us ?s)\<lparr>data_read_closed := True\<rparr> else absorb us ?s)"
    have s1: "read_buf s1 = data_of us" "st_window s1 = window_after us (st_window s)"
      "st_fin s1 = st_fin s" "st_fout s1 = st_fout s" "needs_syn s1 = needs_syn s"
      "write_closed s1 = write_closed s" "data_read_closed s1 = (closed \<or> list_ex is_fin us)"
      using recv by (auto simp: s1_def)
    have sink: "queue h1 (snd_sink (st_fout s)) = queue h (snd_sink (st_fout s))"
      using rv(3) less.prems(1) by (simp add: recv_post_def)
    have unf: "poll_read M w room s h = (case r1 of Pending \<Rightarrow> Some (Pending, [], s1, h1)
        | Panicked \<Rightarrow> Some (Panicked, [], s1, h1) | Ready (Inl e) \<Rightarrow> Some (Ready (Err e), [], s1, h1)
        | Ready (Inr _) \<Rightarrow> poll_read M w room s1 h1)"
      using recv rv(1) [folded s1_def] by (subst poll_read.simps) (simp add: Let_def)
    have step: "\<exists>used. read_spec w room s h used (poll_read M w room s1 h1)"
      if "\<exists>vs. read_spec w room s1 h1 vs (poll_read M w room s1 h1)"
      using that read_spec_round [OF _ rv(2), of w room s1 _ "poll_read M w room s1 h1"] s1 sink recv by auto
    from rv(4) show ?thesis
    proof (cases rule: recv_result_cases)
      case found
      have "\<exists>vs. read_spec w room s1 h1 vs (poll_read M w room s1 h1)"
        by (rule less.hyps) (use found rv(2) less.prems s1 in auto)
      with step unf found show ?thesis by simp
    next
      case ended
      have "\<exists>vs. read_spec w room s1 h1 vs (poll_read M w room s1 h1)"
      proof (cases "read_buf s1 = []")
        case True
        then show ?thesis
          using ended s1(7)
          by (intro exI [of _ "[]"]) (subst poll_read.simps, simp add: read_spec_def inc_sent_def)
      next
        case False
        then show ?thesis
          using less.prems s1 rv(2) by (intro exI [of _ "[]"] read_buffered) auto
      qed
      with step unf ended show ?thesis by simp
    next
      case waiting
      then have "poll_read M w room s h = Some (Pending, [], s1, h1)"
        using unf by simp
      with waiting rv(2) s1 sink recv show ?thesis
        by (intro exI [of _ us]) (auto simp: read_spec_def inc_sent_def)
    qed
  qed
qed

section \<open>Shutting down\<close>

abbreviation fin_frame :: frame where
  "fin_frame \<equiv> frame_fin (frame_from_body (Data []))"

lemma flush_post:
  assumes "stream_poll_flush M w s h = (r, s', h')"
  shows "queue h' (snd_sink (st_fout s)) = queue h (snd_sink (st_fout s))"
    "r = Pending \<and> s' = s \<or> r = Ready (Ok ()) \<and> s' = s \<or>
     (\<exists>code. r = Ready (Err (IoError ConnectionReset (SrcMux code))) \<and> s' = s\<lparr>write_closed := Some code\<rparr>)"
proof -
  obtain q h1 where fl: "sender_poll_flush M w (st_fout s) h = (q, h1)" by fastforce
  note ef = sender_flush_effect [OF fl]
  show "queue h' (snd_sink (st_fout s)) = queue h (snd_sink (st_fout s))"
    "r = Pending \<and> s' = s \<or> r = Ready (Ok ()) \<and> s' = s \<or>
     (\<exists>code. r = Ready (Err (IoError ConnectionReset (SrcMux code))) \<and> s' = s\<lparr>write_closed := Some code\<rparr>)"
    using assms ef(1,2)
    by (auto simp: stream_poll_flush_def fl closed_err_def split: poll.splits sum.splits)
qed

lemma shutdown_post:
  assumes "poll_shutdown M w s h = (r, s', h')"
  shows "if write_closed s = None
    then write_closed s' = None \<and> r = Pending \<and> queue h' (snd_sink (st_fout s)) = queue h (snd_sink (st_fout s)) \<or>
      (\<exists>code. write_closed s' = Some code \<and>
        (queue h' (snd_sink (st_fout s)) = queue h (snd_sink (st_fout s)) @ [fin_frame] \<or>
         queue h' (snd_sink (st_fout s)) = queue h (snd_sink (st_fout s)) \<and>
           r = Ready (Err (IoError ConnectionReset (SrcMux code)))))
    else write_closed s' \<noteq> None \<and> queue h' (snd_sink (st_fout s)) = queue h (snd_sink (st_fout s))"
    and "st_fout s' = st_fout s"
proof -
  obtain q h1 where pr: "sender_poll_ready M w (st_fout s) h = (q, h1)" by fastforce
  obtain q2 h2 where ps: "sender_start_send M fin_frame (st_fout s) h1 = (q2, h2)" by fastforce
  obtain q3 s3 h3 where f3: "stream_poll_flush M w (s\<lparr>write_closed := Some StreamClosed\<rparr>) h2 = (q3, s3, h3)"
    by (cases "stream_poll_flush M w (s\<lparr>write_closed := Some StreamClosed\<rparr>) h2") auto
  obtain q4 s4 h4 where f4: "stream_poll_flush M w s h = (q4, s4, h4)"
    by (cases "stream_poll_flush M w s h") auto
  have n4: "write_closed s \<noteq> None \<Longrightarrow> write_closed s4 \<noteq> None" and o4: "st_fout s4 = st_fout s"
    and w3: "\<exists>code. write_closed s3 = Some code" and o3: "st_fout s3 = st_fout s"
    using flush_post(2) [OF f3] flush_post(2) [OF f4] by auto
  note e1 = sender_ready_effect [OF pr] and e2 = sender_send_effect [OF ps]
  show "if write_closed s = None
    then write_closed s' = None \<and> r = Pending \<and> queue h' (snd_sink (st_fout s)) = queue h (snd_sink (st_fout s)) \<or>
      (\<exists>code. write_closed s' = Some code \<and>
        (queue h' (snd_sink (st_fout s)) = queue h (snd_sink (st_fout s)) @ [fin_frame] \<or>
         queue h' (snd_sink (st_fout s)) = queue h (snd_sink (st_fout s)) \<and>
           r = Ready (Err (IoError ConnectionReset (SrcMux code)))))
    else write_closed s' \<noteq> None \<and> queue h' (snd_sink (st_fout s)) = queue h (snd_sink (st_fout s))"
    using assms e1(1,2) e2(1) e2(2) [of "projl q2"] flush_post(1) [OF f3] flush_post(1) [OF f4] n4 w3
    by (cases q2) (auto simp: poll_shutdown_def pr ps f3 f4 closed_err_def split: poll.splits sum.splits if_splits)
  show "st_fout s' = st_fout s"
    using assms o3 o4
    by (auto simp: poll_shutdown_def pr ps f3 f4 closed_err_def split: poll.splits sum.splits if_splits)
qed

lemma shutdown_frame:
  assumes "poll_shutdown M w s h = (r, s', h')"
  shows "sender_frame (st_fout s) h h'" "\<exists>code. s' = s\<lparr>write_closed := code\<rparr>"
proof -
  obtain q h1 where pr: "sender_poll_ready M w (st_fout s) h = (q, h1)" by fastforce
  obtain q2 h2 where ps: "sender_start_send M fin_frame (st_fout s) h1 = (q2, h2)" by fastforce
  obtain q3 h3 where f3: "sender_poll_flush M w (st_fout s) h2 = (q3, h3)" by fastforce
  obtain q4 h4 where f4: "sender_poll_flush M w (st_fout s) h = (q4, h4)" by fastforce
  note fr = sender_poll_ready_frame [OF pr] sender_start_send_frame [OF ps] sender_poll_flush_frame [OF f3]
  note fr4 = sender_poll_flush_frame [OF f4] and fr2 = sender_frame_trans [OF fr(1,2)]
  note fr3 = sender_frame_trans [OF fr2 fr(3)]
  note eqs = poll_shutdown_def stream_poll_flush_def pr ps f3 f4 closed_err_def
  show "sender_frame (st_fout s) h h'"
    using assms fr(1) fr2 fr3 fr4 by (auto simp: eqs split: poll.splits sum.splits if_splits)
  show "\<exists>code. s' = s\<lparr>write_closed := code\<rparr>"
    using assms by (auto simp: eqs split: poll.splits sum.splits if_splits intro: exI [of _ "write_closed s"])
qed

lemma writer_eof:
  assumes "write_closed s = None" "window_capacity (st_window s) = 0"
    "rx_poll_next M w (chans h (st_fin s)) = (Ready None, c)"
  shows "\<exists>r s' h'. poll_write M w buf s h = Some (r, s', h') \<and> data_read_closed s' \<and> woken h' = woken h \<and>
    (case r of Ready (Inr n) \<Rightarrow> n = 0 | _ \<Rightarrow> True)"
proof -
  let ?s = "s\<lparr>write_waker := Some w, data_read_closed := True\<rparr>" and ?h = "set_chan (st_fin s) c h"
  have "poll_recv_wndinc M w (s\<lparr>write_waker := Some w\<rparr>) h = Some (Ready (Ok ()), ?s, ?h)"
    unfolding poll_recv_wndinc_def
    by (subst poll_recv_frame_type.simps) (simp add: poll_recv_frame_def on_chan_def assms(3))
  then have eq: "poll_write M w buf s h = Some (poll_write_send M w buf ?s ?h)"
    using assms by (simp add: poll_write_def)
  obtain r s' h' where ps: "poll_write_send M w buf ?s ?h = (r, s', h')"
    by (cases "poll_write_send M w buf ?s ?h") auto
  with write_send_spec [of buf ?s ?h w] assms(2) eq show ?thesis
    by (auto simp: send_spec_def sender_frame_def write_len_def split: poll.splits sum.splits)
qed

end

section \<open>Properties of a stream\<close>

text \<open>
  C12. A write on an open stream always returns. When it reports \<open>n\<close> bytes,
  exactly one data frame with the first \<open>n\<close> bytes was appended to the sink,
  carrying SYN if and only if no frame was sent before; \<open>n\<close> is at most the
  window, the length of the buffer and the largest frame, and the window shrinks
  by it. When it reports anything else, no frame was sent. Data frames that arrive
  while it waits for window are appended to the read buffer, and the task that
  waits to read is woken.
\<close>

theorem poll_write_sends:
  assumes "frame_chan M contents" "write_closed s = None" "snd_sink (st_fout s) \<noteq> st_fin s"
    "\<forall>f \<in> set (contents (chans h (st_fin s))). stream_frame f"
  shows "\<exists>r s' h' used. poll_write M w buf s h = Some (r, s', h') \<and>
    contents (chans h (st_fin s)) = used @ contents (chans h' (st_fin s)) \<and>
    read_buf s' = read_buf s @ data_of used \<and>
    (case r of
       Ready (Inr n) \<Rightarrow> n \<le> window_capacity (window_after used (st_window s)) \<and> n \<le> length buf \<and>
         n \<le> unat LENGTH_MAX \<and> \<not> needs_syn s' \<and>
         st_window s' = snd (window_dec n (window_after used (st_window s))) \<and>
         contents (chans h' (snd_sink (st_fout s))) =
           contents (chans h (snd_sink (st_fout s))) @ [data_frame (needs_syn s) (take n buf)]
     | Ready (Inl e) \<Rightarrow> contents (chans h' (snd_sink (st_fout s))) = contents (chans h (snd_sink (st_fout s))) \<and>
         (\<exists>code. e = IoError ConnectionReset (SrcMux code) \<and> write_closed s' = Some code)
     | Pending \<Rightarrow> contents (chans h' (snd_sink (st_fout s))) = contents (chans h (snd_sink (st_fout s))) \<and>
         needs_syn s' = needs_syn s
     | Panicked \<Rightarrow> False) \<and>
    (\<forall>reader. read_waker s = Some reader \<and> reader \<noteq> w \<and> list_ex is_data used \<longrightarrow> reader \<in> set (woken h'))"
proof -
  obtain r s' h' used where
    "poll_write M w buf s h = Some (r, s', h')"
    "contents (chans h (st_fin s)) = used @ contents (chans h' (st_fin s))"
    "read_buf s' = read_buf s @ data_of used"
    "\<forall>reader. read_waker s = Some reader \<and> reader \<noteq> w \<and> list_ex is_data used \<longrightarrow> reader \<in> set (woken h')"
    and c: "case r of
       Ready (Inr n) \<Rightarrow> n = write_len (window_after used (st_window s)) buf \<and> \<not> needs_syn s' \<and>
         write_closed s' = None \<and> st_window s' = snd (window_dec n (window_after used (st_window s))) \<and>
         contents (chans h' (snd_sink (st_fout s))) =
           contents (chans h (snd_sink (st_fout s))) @ [data_frame (needs_syn s) (take n buf)]
     | Ready (Inl e) \<Rightarrow> contents (chans h' (snd_sink (st_fout s))) = contents (chans h (snd_sink (st_fout s))) \<and>
         st_window s' = window_after used (st_window s) \<and>
         (\<exists>code. e = IoError ConnectionReset (SrcMux code) \<and> write_closed s' = Some code)
     | Pending \<Rightarrow> contents (chans h' (snd_sink (st_fout s))) = contents (chans h (snd_sink (st_fout s))) \<and>
         needs_syn s' = needs_syn s \<and> st_window s' = window_after used (st_window s) \<and> write_closed s' = None
     | Panicked \<Rightarrow> False"
    using frame_chan.write_post [OF assms, of w buf] by blast
  with write_len_bounds [of "window_after used (st_window s)" buf] show ?thesis
    by (intro exI [of _ r] exI [of _ s'] exI [of _ h'] exI [of _ used])
      (cases r, auto simp del: is_data.simps split: sum.splits)
qed

definition demo_heap :: "frame bounded_chan heap" where
  "demo_heap = \<lparr>chans = (\<lambda>_. mk_chan bounded_mpsc 4), codes = (\<lambda>_. 0), heap_next = 3, woken = []\<rparr>"

definition demo_stream :: mux_stream where
  "demo_stream = stream_new \<lparr>snd_sink = 1, snd_closer = 0\<rparr> 2 5 True"

lemma demo_facts:
  "write_closed demo_stream = None" "snd_sink (st_fout demo_stream) \<noteq> st_fin demo_stream"
  "st_fin demo_stream = 2" "snd_sink (st_fout demo_stream) = 1" "read_waker demo_stream = None"
  "needs_syn demo_stream" "read_buf demo_stream = []"
  "bc_queue (chans demo_heap i) = []"
  by (simp_all add: demo_stream_def stream_new_def demo_heap_def bounded_mpsc_def)

theorem poll_write_sends_witness:
  "\<exists>r s' h' used. poll_write bounded_mpsc 9 [1, 2, 3, 4, 5, 6, 7] demo_stream demo_heap = Some (r, s', h') \<and>
    read_buf s' = data_of used \<and> r \<noteq> Panicked"
proof -
  have "\<forall>f \<in> set (bc_queue (chans demo_heap (st_fin demo_stream))). stream_frame f"
    by (simp add: demo_facts)
  from poll_write_sends [OF bounded_frames.frame_chan_axioms demo_facts(1,2) this, of 9 "[1, 2, 3, 4, 5, 6, 7]"]
  show ?thesis
    by (elim ex_forward) (auto simp: demo_facts)
qed

text \<open>
  C11. A read always returns. The bytes it delivers are the next bytes of the
  stream: what was buffered and what is taken from the channel, in order, is what
  is delivered followed by what stays buffered. It delivers at most the room of
  the caller, and it sends one window increment of exactly that many bytes unless
  the sink is closed. It delivers nothing and returns only at the end of the
  stream with an empty buffer (or when the caller left no room), and it waits
  only when the channel is empty or the sink is full.
\<close>

theorem poll_read_delivers:
  assumes "frame_chan M contents" "snd_sink (st_fout s) \<noteq> st_fin s"
    "\<forall>f \<in> set (contents (chans h (st_fin s))). stream_frame f"
    "length (read_buf s @ data_of (contents (chans h (st_fin s)))) < 2 ^ 32"
  shows "\<exists>r out s' h' used. poll_read M w room s h = Some (r, out, s', h') \<and>
    contents (chans h (st_fin s)) = used @ contents (chans h' (st_fin s)) \<and>
    read_buf s @ data_of used = out @ read_buf s' \<and> length out \<le> room \<and>
    (out = [] \<and> contents (chans h' (snd_sink (st_fout s))) = contents (chans h (snd_sink (st_fout s))) \<or>
     contents (chans h' (snd_sink (st_fout s))) =
       contents (chans h (snd_sink (st_fout s))) @ [frame_from_body (WndInc (as_u32 (length out)))] \<or>
     is_closed (snd_closer (st_fout s)) h') \<and>
    (r = Ready (Ok ()) \<and> (out = [] \<longrightarrow> room = 0 \<or> read_buf s' = [] \<and> data_read_closed s') \<or>
     r = Pending \<and> out = [] \<and> (read_buf s' \<noteq> [] \<or> contents (chans h' (st_fin s)) = []))"
proof -
  from frame_chan.read_post [OF assms, of w room] obtain used r out s' h' where
    "poll_read M w room s h = Some (r, out, s', h')"
    "contents (chans h (st_fin s)) = used @ contents (chans h' (st_fin s))"
    "read_buf s @ data_of used = out @ read_buf s'" "length out \<le> room"
    "frame_chan.inc_sent contents s (length out) h h'"
    "r = Ready (Ok ()) \<and> (out = [] \<longrightarrow> room = 0 \<or> read_buf s' = [] \<and> data_read_closed s') \<or>
      r = Pending \<and> out = [] \<and> (read_buf s' \<noteq> [] \<or> contents (chans h' (st_fin s)) = [] \<and> \<not> data_read_closed s)"
    unfolding frame_chan.read_spec_def [OF assms(1)] by auto
  then show ?thesis
    unfolding frame_chan.inc_sent_def [OF assms(1)]
    by (intro exI [of _ r] exI [of _ out] exI [of _ s'] exI [of _ h'] exI [of _ used])
      (auto split: if_splits)
qed

theorem poll_read_delivers_witness:
  "\<exists>r out s' h'. poll_read bounded_mpsc 9 3 (demo_stream\<lparr>read_buf := [1, 2, 3, 4]\<rparr>) demo_heap = Some (r, out, s', h') \<and>
    [1, 2, 3, 4] = out @ read_buf s' \<and> length out \<le> 3"
  using poll_read_delivers [OF bounded_frames.frame_chan_axioms, of "demo_stream\<lparr>read_buf := [1, 2, 3, 4]\<rparr>" demo_heap 9 3]
  by (fastforce simp: demo_facts)

text \<open>
  A shutdown of an open stream either waits and sends nothing, or sends one
  empty data frame with FIN, or reports a reset; once it has closed the stream for
  writing, every later write fails with a broken pipe and sends nothing, and a
  repeated shutdown sends no second FIN.
\<close>

theorem shutdown_sends_one_fin:
  assumes "frame_chan M contents" "write_closed s = None" "poll_shutdown M w s h = (r, s', h')"
  shows "write_closed s' = None \<and> r = Pending \<and>
      contents (chans h' (snd_sink (st_fout s))) = contents (chans h (snd_sink (st_fout s))) \<or>
    (\<exists>code. write_closed s' = Some code \<and>
      (contents (chans h' (snd_sink (st_fout s))) =
         contents (chans h (snd_sink (st_fout s))) @ [frame_fin (frame_from_body (Data []))] \<or>
       contents (chans h' (snd_sink (st_fout s))) = contents (chans h (snd_sink (st_fout s))) \<and>
         r = Ready (Err (IoError ConnectionReset (SrcMux code)))) \<and>
      (\<forall>w2 buf h2. poll_write M w2 buf s' h2 = Some (Ready (Err (IoError BrokenPipe (SrcMux code))), s', h2)) \<and>
      (\<forall>w2 h2 r3 s3 h3. poll_shutdown M w2 s' h2 = (r3, s3, h3) \<longrightarrow>
         contents (chans h3 (snd_sink (st_fout s))) = contents (chans h2 (snd_sink (st_fout s)))))"
proof -
  note post = frame_chan.shutdown_post [OF assms(1,3)]
  have again: "write_closed s' \<noteq> None \<Longrightarrow> poll_shutdown M w2 s' h2 = (r3, s3, h3) \<Longrightarrow>
      contents (chans h3 (snd_sink (st_fout s))) = contents (chans h2 (snd_sink (st_fout s)))" for w2 h2 r3 s3 h3
    using frame_chan.shutdown_post(1) [OF assms(1), of w2 s' h2 r3 s3 h3] post(2) by auto
  have broken: "write_closed s' = Some code \<Longrightarrow>
      poll_write M w2 buf s' h2 = Some (Ready (Err (IoError BrokenPipe (SrcMux code))), s', h2)" for code w2 buf h2
    by (simp add: poll_write_def)
  from post(1) assms(2) show ?thesis
    using again broken by (auto simp del: not_None_eq)
qed

theorem shutdown_sends_one_fin_witness:
  "\<exists>r s' h'. poll_shutdown bounded_mpsc 9 demo_stream demo_heap = (r, s', h') \<and>
     (write_closed s' = None \<longrightarrow> r = Pending)"
proof -
  obtain r s' h' where e: "poll_shutdown bounded_mpsc 9 demo_stream demo_heap = (r, s', h')"
    by (cases "poll_shutdown bounded_mpsc 9 demo_stream demo_heap") auto
  from shutdown_sends_one_fin [OF bounded_frames.frame_chan_axioms demo_facts(1) e] e show ?thesis by auto
qed

text \<open>
  When a write that waits for window finds the stream's channel at its end, it
  closes the read side of the stream without waking the task that waits to read,
  whose registration with the channel it has replaced by its own; and the write
  then reports 0 bytes if it reports success.
\<close>

theorem writer_eof_forgets_reader:
  assumes "frame_chan M contents" "write_closed s = None" "window_capacity (st_window s) = 0"
    "rx_poll_next M w (chans h (st_fin s)) = (Ready None, c)"
  shows "\<exists>r s' h'. poll_write M w buf s h = Some (r, s', h') \<and> data_read_closed s' \<and> woken h' = woken h \<and>
    (case r of Ready (Inr n) \<Rightarrow> n = 0 | _ \<Rightarrow> True)"
  by (rule frame_chan.writer_eof [OF assms])

theorem writer_eof_forgets_reader_witness:
  "\<exists>r s' h'. poll_write bounded_mpsc 9 [1]
      (demo_stream\<lparr>read_waker := Some 4, st_window := window_new 0\<rparr>)
      (demo_heap\<lparr>chans := (chans demo_heap)(2 := tx_close_channel bounded_mpsc (chans demo_heap 2))\<rparr>) = Some (r, s', h')
    \<and> data_read_closed s' \<and> 4 \<notin> set (woken h')"
proof -
  have "rx_poll_next bounded_mpsc 9 (tx_close_channel bounded_mpsc (chans demo_heap 2)) =
      (Ready None, tx_close_channel bounded_mpsc (chans demo_heap 2))"
    by (simp add: bounded_mpsc_def demo_heap_def)
  then show ?thesis
    using writer_eof_forgets_reader [OF bounded_frames.frame_chan_axioms,
        of "demo_stream\<lparr>read_waker := Some 4, st_window := window_new 0\<rparr>" 9
        "demo_heap\<lparr>chans := (chans demo_heap)(2 := tx_close_channel bounded_mpsc (chans demo_heap 2))\<rparr>"
        "tx_close_channel bounded_mpsc (chans demo_heap 2)" "[1]"]
    by (fastforce simp: demo_facts demo_heap_def)
qed

end
