(* ===== verification/Stream_Manager.thy ===== *)
theory Stream_Manager
  imports Mux_Stream "HOL-Library.AList"
begin

text \<open>
  \<open>muxado/src/stream_manager.rs\<close>: the manager that routes frames between the
  streams and the session. A \<open>HashMap\<close> is an association list with distinct
  keys. Both ends of a channel are its name in the heap. The order in which
  \<open>FuturesUnordered\<close> polls its futures is an argument, a list of positions.
\<close>

section \<open>The state\<close>

record stream_handle =
  to_stream :: nat
  sink_closer :: nat
  needs_fin :: bool
  data_write_closed :: bool
  hd_window :: usize

record stream_manager =
  stream_limit :: usize
  streams :: "(u32 \<times> stream_handle) list"
  sys_tx :: nat
  sys_rx :: nat
  tasks :: "(u32 \<times> nat) list"
  last_local_id :: u32
  last_remote_id :: u32
  gone_away :: bool
  new_streams :: "waker option"

definition manager_new ::
  "(frame, 'c) mpsc \<Rightarrow> usize \<Rightarrow> bool \<Rightarrow> 'c heap \<Rightarrow> stream_manager \<times> 'c heap" where
  "manager_new M limit client h =
     (let (sys, h1) = new_chan M 512 h;
          local_id = (if client then 0 + 1 else 0);
          remote_id = (if client then 0 else 0 + 1)
      in (\<lparr>stream_limit = limit, streams = [], sys_tx = sys, sys_rx = sys, tasks = [],
           last_local_id = StreamID_clamp local_id, last_remote_id = StreamID_clamp remote_id,
           gone_away = False, new_streams = None\<rparr>, h1))"

text \<open>
  A handle that goes out of scope drops its sender; a receiver that goes out of
  scope is dropped with what it holds.
\<close>

definition drop_handle :: "(frame, 'c) mpsc \<Rightarrow> stream_handle \<Rightarrow> 'c heap \<Rightarrow> 'c heap" where
  "drop_handle M hdl h = set_chan (to_stream hdl) (tx_drop M (chans h (to_stream hdl))) h"

definition drop_rx :: "(frame, 'c) mpsc \<Rightarrow> nat \<Rightarrow> 'c heap \<Rightarrow> 'c heap" where
  "drop_rx M c h = set_chan c (rx_drop M (chans h c)) h"

definition manager_go_away ::
  "(frame, 'c) mpsc \<Rightarrow> mux_error \<Rightarrow> stream_manager \<Rightarrow> 'c heap \<Rightarrow> stream_manager \<times> 'c heap" where
  "manager_go_away M e m h =
     (m\<lparr>gone_away := True, streams := []\<rparr>,
      foldl (\<lambda>h (_, hdl). drop_handle M hdl (close_with (sink_closer hdl) e h)) h (streams m))"

definition sys_sender :: "stream_manager \<Rightarrow> nat" where
  "sys_sender m = sys_tx m"

definition close_senders :: "(frame, 'c) mpsc \<Rightarrow> stream_manager \<Rightarrow> 'c heap \<Rightarrow> 'c heap" where
  "close_senders M m h =
     foldl (\<lambda>h (_, hdl). set_chan (to_stream hdl) (tx_close_channel M (chans h (to_stream hdl))) h) h (streams m)"

definition manager_is_terminated :: "stream_manager \<Rightarrow> bool" where
  "manager_is_terminated m = gone_away m"

section \<open>Streams and tasks\<close>

record open_req =
  req_channel :: "nat \<times> nat"
  req_closer :: nat
  req_window :: usize

definition open_req_create ::
  "(frame, 'c) mpsc \<Rightarrow> usize \<Rightarrow> bool \<Rightarrow> 'c heap \<Rightarrow> (open_req \<times> mux_stream) \<times> 'c heap" where
  "open_req_create M window syn h =
     (let (to_stream_chan, h1) = new_chan M window h;
          (to_session_chan, h2) = new_chan M window h1;
          (to_session, h3) = sender_wrap to_session_chan h2;
          req = \<lparr>req_channel = (to_stream_chan, to_session_chan), req_closer = snd_closer to_session,
                 req_window = window\<rparr>;
          stream = stream_new to_session to_stream_chan window syn
      in ((req, stream), h3))"

definition get_stream :: "u32 \<Rightarrow> stream_manager \<Rightarrow> (mux_error, stream_handle) result" where
  "get_stream sid m = (case map_of (streams m) sid of Some hdl \<Rightarrow> Ok hdl | None \<Rightarrow> Err StreamClosed)"

text \<open>Writing through the reference that \<open>get_stream\<close> returns.\<close>

definition put_stream :: "u32 \<Rightarrow> stream_handle \<Rightarrow> stream_manager \<Rightarrow> stream_manager" where
  "put_stream sid hdl m = m\<lparr>streams := AList.update sid hdl (streams m)\<rparr>"

definition push_task :: "u32 \<Rightarrow> nat \<Rightarrow> stream_manager \<Rightarrow> stream_manager" where
  "push_task sid recv m = m\<lparr>tasks := tasks m @ [(sid, recv)]\<rparr>"

definition remove_stream ::
  "(frame, 'c) mpsc \<Rightarrow> u32 \<Rightarrow> stream_manager \<Rightarrow> 'c heap \<Rightarrow> stream_manager \<times> 'c heap" where
  "remove_stream M sid m h =
     (m\<lparr>streams := AList.delete sid (streams m)\<rparr>,
      case map_of (streams m) sid of Some hdl \<Rightarrow> drop_handle M hdl h | None \<Rightarrow> h)"

text \<open>\<open>HashMap::insert\<close>, whose result, a handle it replaced, is dropped.\<close>

definition insert_stream ::
  "(frame, 'c) mpsc \<Rightarrow> u32 \<Rightarrow> stream_handle \<Rightarrow> stream_manager \<Rightarrow> 'c heap \<Rightarrow> stream_manager \<times> 'c heap" where
  "insert_stream M sid hdl m h =
     (put_stream sid hdl m, case map_of (streams m) sid of Some old \<Rightarrow> drop_handle M old h | None \<Rightarrow> h)"

definition create_stream ::
  "(frame, 'c) mpsc \<Rightarrow> u32 option \<Rightarrow> open_req \<Rightarrow> stream_manager \<Rightarrow> 'c heap
     \<Rightarrow> (mux_error, u32) result \<times> stream_manager \<times> 'c heap" where
  "create_stream M sid req m h =
     (let (to_stream_chan, from_stream) = req_channel req in
      if length (streams m) = stream_limit m
      then (Err StreamsExhausted, m,
            drop_rx M from_stream (set_chan to_stream_chan (tx_drop M (chans h to_stream_chan)) h))
      else
        let (new_id, m1) =
              (case sid of
                 Some remote_id \<Rightarrow> (remote_id, m\<lparr>last_remote_id := remote_id\<rparr>)
               | None \<Rightarrow> (let new_id = StreamID_clamp (last_local_id m + 2)
                          in (new_id, m\<lparr>last_local_id := new_id\<rparr>)));
            (m2, h1) = insert_stream M new_id
              \<lparr>to_stream = to_stream_chan, sink_closer = req_closer req, needs_fin = True,
               data_write_closed = False, hd_window = req_window req\<rparr> m1 h;
            m3 = push_task new_id from_stream m2;
            h2 = (case new_streams m3 of Some w \<Rightarrow> wake w h1 | None \<Rightarrow> h1)
        in (Ok new_id, m3\<lparr>new_streams := None\<rparr>, h2))"

text \<open>
  \<open>WithID::poll\<close> over a \<open>StreamFuture\<close>: the identifier, the next item
  and the rest of the receiver.
\<close>

definition with_id_poll ::
  "(frame, 'c) mpsc \<Rightarrow> waker \<Rightarrow> u32 \<times> nat \<Rightarrow> 'c heap \<Rightarrow> (u32 \<times> frame option \<times> nat) poll \<times> 'c heap" where
  "with_id_poll M w t h =
     (let (r, h1) = on_chan (snd t) (rx_poll_next M w) h in
      (case r of Pending \<Rightarrow> Pending | Panicked \<Rightarrow> Panicked | Ready item \<Rightarrow> Ready (fst t, item, snd t), h1))"

definition remove_nth :: "nat \<Rightarrow> 'a list \<Rightarrow> 'a list" where
  "remove_nth i xs = take i xs @ drop (Suc i) xs"

fun poll_in_order ::
  "(frame, 'c) mpsc \<Rightarrow> waker \<Rightarrow> nat list \<Rightarrow> (u32 \<times> nat) list \<Rightarrow> 'c heap
     \<Rightarrow> (u32 \<times> frame option \<times> nat) poll \<times> (u32 \<times> nat) list \<times> 'c heap" where
  "poll_in_order M w [] ts h = (Pending, ts, h)"
| "poll_in_order M w (i # order) ts h =
     (if i < length ts then
        (case with_id_poll M w (ts ! i) h of
           (Pending, h1) \<Rightarrow> poll_in_order M w order ts h1
         | (r, h1) \<Rightarrow> (r, remove_nth i ts, h1))
      else poll_in_order M w order ts h)"

definition tasks_poll_next ::
  "(frame, 'c) mpsc \<Rightarrow> waker \<Rightarrow> nat list \<Rightarrow> (u32 \<times> nat) list \<Rightarrow> 'c heap
     \<Rightarrow> (u32 \<times> frame option \<times> nat) option poll \<times> (u32 \<times> nat) list \<times> 'c heap" where
  "tasks_poll_next M w order ts h =
     (if ts = [] then (Ready None, ts, h)
      else case poll_in_order M w order ts h of
        (Ready i, ts', h') \<Rightarrow> (Ready (Some i), ts', h')
      | (Pending, ts', h') \<Rightarrow> (Pending, ts', h')
      | (Panicked, ts', h') \<Rightarrow> (Panicked, ts', h'))"

section \<open>The next frame for the remote\<close>

definition handle_task_item ::
  "(frame, 'c) mpsc \<Rightarrow> waker \<Rightarrow> u32 \<Rightarrow> frame option \<Rightarrow> nat \<Rightarrow> stream_manager \<Rightarrow> 'c heap
     \<Rightarrow> frame option poll \<times> stream_manager \<times> 'c heap" where
  "handle_task_item M w sid item rest m h =
     (case get_stream sid m of
        Inl _ \<Rightarrow> (Panicked, m, h)
      | Inr hdl \<Rightarrow>
        if is_closed (sink_closer hdl) h \<and> \<not> needs_fin hdl
        then (let (m1, h1) = remove_stream M sid m h in (Pending, m1, drop_rx M rest (wake w h1)))
        else
          (case item of
             Some f \<Rightarrow>
               (let hdl1 = (case frame_body f of
                             WndInc inc \<Rightarrow> hdl\<lparr>hd_window := usize_add (hd_window hdl) (unat inc)\<rparr> | _ \<Rightarrow> hdl);
                    hdl2 = (if is_fin f then hdl1\<lparr>needs_fin := False\<rparr> else hdl1);
                    m1 = push_task sid rest (put_stream sid hdl2 m)
                in (Ready (Some (frame_stream_id sid f)), m1, h))
           | None \<Rightarrow>
             (let (m1, h1) = remove_stream M sid m h in
              if needs_fin hdl
              then (Ready (Some (frame_stream_id sid (frame_fin (frame_from_body (Data []))))), m1, drop_rx M rest h1)
              else (Pending, m1, drop_rx M rest (wake w h1)))))"

definition manager_poll_next ::
  "(frame, 'c) mpsc \<Rightarrow> waker \<Rightarrow> nat list \<Rightarrow> stream_manager \<Rightarrow> 'c heap
     \<Rightarrow> frame option poll \<times> stream_manager \<times> 'c heap" where
  "manager_poll_next M w order m h =
     (if gone_away m then (Ready None, m, h)
      else
        let m1 = m\<lparr>new_streams := Some w\<rparr>;
            (sys, h1) = on_chan (sys_rx m1) (rx_poll_next M w) h in
        case sys of
          Panicked \<Rightarrow> (Panicked, m1, h1)
        | Ready (Some f) \<Rightarrow>
          (case frame_body f of
             GoAway _ e msg \<Rightarrow>
               (let f' = f\<lparr>frame_body := GoAway (last_remote_id m1) e msg\<rparr>;
                    h2 = foldl (\<lambda>h (_, c). drop_rx M c h) h1 (tasks m1);
                    (m3, h3) = manager_go_away M SessionClosed (m1\<lparr>tasks := []\<rparr>) h2
                in (Ready (Some f'), m3, h3))
           | _ \<Rightarrow> (Ready (Some f), m1, h1))
        | _ \<Rightarrow>
          (case tasks_poll_next M w order (tasks m1) h1 of
             (Pending, ts, h2) \<Rightarrow> (Pending, m1\<lparr>tasks := ts\<rparr>, h2)
           | (Panicked, ts, h2) \<Rightarrow> (Panicked, m1\<lparr>tasks := ts\<rparr>, h2)
           | (Ready None, ts, h2) \<Rightarrow> (Pending, m1\<lparr>tasks := ts\<rparr>, h2)
           | (Ready (Some (sid, item, rest)), ts, h2) \<Rightarrow>
             handle_task_item M w sid item rest (m1\<lparr>tasks := ts\<rparr>) h2))"

section \<open>A frame from the remote\<close>

text \<open>
  \<open>send_to_stream\<close> is asynchronous: its first part checks the frame and sets
  up the closure that is then polled until it is ready. \<open>send_fut\<close> is what
  the closure captures.
\<close>

record send_fut =
  sf_id :: u32
  sf_typ :: header_type
  sf_shrink :: usize
  sf_is_fin :: bool
  sf_frame :: "frame option"

definition send_to_stream_start :: "frame \<Rightarrow> (mux_error, send_fut) result" where
  "send_to_stream_start f =
     (let shrink = (case frame_body f of Data bs \<Rightarrow> length bs | _ \<Rightarrow> 0);
          fut = \<lparr>sf_id = hdr_stream_id (frame_header f), sf_typ = hdr_typ (frame_header f), sf_shrink = shrink,
                 sf_is_fin = (is_fin f \<and> body_len (frame_body f) = 0), sf_frame = Some f\<rparr> in
      case frame_body f of
        GoAway _ _ _ \<Rightarrow> Err Internal
      | Invalid _ _ \<Rightarrow> Err Internal
      | _ \<Rightarrow> Ok fut)"

definition fut_handle_frame ::
  "(frame, 'c) mpsc \<Rightarrow> waker \<Rightarrow> send_fut \<Rightarrow> stream_handle \<Rightarrow> 'c heap
     \<Rightarrow> (mux_error, unit) result poll \<times> send_fut \<times> stream_handle \<times> 'c heap" where
  "fut_handle_frame M w k hdl h =
     (let deliver = (\<lambda>k hdl.
        if sf_shrink k \<le> hd_window hdl then
          (let hdl1 = hdl\<lparr>hd_window := hd_window hdl - sf_shrink k\<rparr>;
               k1 = k\<lparr>sf_shrink := 0\<rparr>;
               (r, h1) = on_chan (to_stream hdl1) (tx_poll_ready M w) h;
               finish = (\<lambda>res k h. (Ready (case res of Inr _ \<Rightarrow> Ok ()
                          | Inl _ \<Rightarrow> if sf_is_fin k then Ok () else Err StreamClosed), k, hdl1, h)) in
           case r of
             Pending \<Rightarrow> (Pending, k1, hdl1, h1)
           | Panicked \<Rightarrow> (Panicked, k1, hdl1, h1)
           | Ready (Inl e) \<Rightarrow> finish (Err e) k1 h1
           | Ready (Inr _) \<Rightarrow>
             (case sf_frame k1 of
                None \<Rightarrow> (Panicked, k1, hdl1, h1)
              | Some f \<Rightarrow>
                (let (res, h2) = on_chan (to_stream hdl1) (tx_start_send M f) h1
                 in finish res (k1\<lparr>sf_frame := None\<rparr>) h2)))
        else (Ready (Err FlowControl), k, hdl, h)) in
      if sf_typ k = HData \<and> data_write_closed hdl then (Ready (Err StreamClosed), k, hdl, h)
      else
        case sf_frame k of
          Some f \<Rightarrow>
            (case frame_body f of
               Rst err \<Rightarrow> (Ready (Ok ()), k, hdl\<lparr>data_write_closed := True, needs_fin := False\<rparr>,
                            close_with (sink_closer hdl) err h)
             | _ \<Rightarrow> deliver k hdl)
        | None \<Rightarrow> deliver k hdl)"

definition send_to_stream_poll ::
  "(frame, 'c) mpsc \<Rightarrow> waker \<Rightarrow> send_fut \<Rightarrow> stream_manager \<Rightarrow> 'c heap
     \<Rightarrow> (mux_error, unit) result poll \<times> send_fut \<times> stream_manager \<times> 'c heap" where
  "send_to_stream_poll M w k m h =
     (case get_stream (sf_id k) m of
        Inl e \<Rightarrow> (Ready (if sf_typ k \<noteq> HData \<or> sf_is_fin k then Ok () else Err e), k, m, h)
      | Inr hdl \<Rightarrow>
        (case fut_handle_frame M w k hdl h of
           (Pending, k1, hdl1, h1) \<Rightarrow> (Pending, k1, put_stream (sf_id k) hdl1 m, h1)
         | (Panicked, k1, hdl1, h1) \<Rightarrow> (Panicked, k1, put_stream (sf_id k) hdl1 m, h1)
         | (Ready res, k1, hdl1, h1) \<Rightarrow>
           if sf_typ k = HData \<and> \<not> sf_is_fin k then
             (case res of
                Inl e \<Rightarrow> (Ready (Err e), k1,
                  put_stream (sf_id k) (hdl1\<lparr>data_write_closed := True, needs_fin := False\<rparr>) m,
                  close_with (sink_closer hdl1) StreamClosed h1)
              | Inr _ \<Rightarrow> (Ready (Ok ()), k1, put_stream (sf_id k) hdl1 m, h1))
           else (Ready (Ok ()), k1, put_stream (sf_id k) hdl1 m, h1)))"

end
