(* ===== verification/Manager_Props.thy ===== *)
theory Manager_Props
  imports Stream_Manager
begin

text \<open>
  The invariant of the stream manager, the identifiers it hands out, and what it
  does with a frame from either side.
\<close>

section \<open>The invariant\<close>

text \<open>
  Streams have distinct identifiers and there are at most \<open>stream_limit\<close> of
  them; as long as the session has not gone away, the manager waits on exactly one
  channel per stream.
\<close>

definition mgr_inv :: "stream_manager \<Rightarrow> bool" where
  "mgr_inv m \<longleftrightarrow> distinct (map fst (streams m)) \<and> length (streams m) \<le> stream_limit m \<and>
     last_local_id m \<le> STREAMID_MAX \<and>
     (\<not> gone_away m \<longrightarrow> distinct (map fst (tasks m)) \<and> fst ` set (tasks m) = fst ` set (streams m))"

lemma get_stream_iff: "(\<exists>hdl. get_stream sid m = Ok hdl) \<longleftrightarrow> sid \<in> fst ` set (streams m)"
  by (auto simp: get_stream_def dom_map_of_conv_image_fst [symmetric] split: option.splits)

lemma get_stream_Ok: "get_stream sid m = Ok hdl \<Longrightarrow> sid \<in> fst ` set (streams m)"
  using get_stream_iff by blast

lemma put_stream_simps [simp]:
  "stream_limit (put_stream sid hdl m) = stream_limit m" "tasks (put_stream sid hdl m) = tasks m"
  "last_local_id (put_stream sid hdl m) = last_local_id m" "gone_away (put_stream sid hdl m) = gone_away m"
  "streams (put_stream sid hdl m) = AList.update sid hdl (streams m)"
  "new_streams (put_stream sid hdl m) = new_streams m"
  by (simp_all add: put_stream_def)

lemma get_put_stream [simp]: "get_stream sid (put_stream sid hdl m) = Ok hdl"
  by (simp add: get_stream_def update_conv)

lemma length_update:
  "length (AList.update k v xs) = (if k \<in> fst ` set xs then length xs else Suc (length xs))"
  by (induction xs) auto

lemma length_delete_le: "length (AList.delete k xs) \<le> length xs"
  by (simp add: AList.delete_eq)

lemma put_stream_inv:
  assumes "mgr_inv m" "get_stream sid m = Ok old"
  shows "mgr_inv (put_stream sid hdl m)"
  using assms get_stream_Ok [OF assms(2)]
  by (auto simp: mgr_inv_def length_update distinct_update dom_update insert_absorb)

lemma remove_nth_map: "map f (remove_nth i xs) = remove_nth i (map f xs)"
  by (simp add: remove_nth_def take_map drop_map)

lemma set_remove_nth:
  assumes "distinct xs" "i < length xs"
  shows "set (remove_nth i xs) = set xs - {xs ! i}" "distinct (remove_nth i xs)"
proof -
  have xs: "xs = take i xs @ xs ! i # drop (Suc i) xs" using assms(2) by (simp add: id_take_nth_drop)
  have "distinct (take i xs @ xs ! i # drop (Suc i) xs)" using assms(1) xs by simp
  then show "distinct (remove_nth i xs)" and "set (remove_nth i xs) = set xs - {xs ! i}"
    using arg_cong [OF xs, of set] unfolding remove_nth_def by auto
qed

lemma length_streams_fst: "distinct (map fst xs) \<Longrightarrow> length xs = card (fst ` set xs)"
  by (metis distinct_card length_map set_map)

section \<open>Every operation keeps the invariant\<close>

definition new_stream_id :: "u32 option \<Rightarrow> stream_manager \<Rightarrow> u32" where
  "new_stream_id sid m = (case sid of Some i \<Rightarrow> i | None \<Rightarrow> StreamID_clamp (last_local_id m + 2))"

lemma create_stream_effect:
  assumes "length (streams m) \<noteq> stream_limit m" "create_stream M sid req m h = (r, m', h')"
  shows "r = Ok (new_stream_id sid m)"
    "streams m' = AList.update (new_stream_id sid m)
       \<lparr>to_stream = fst (req_channel req), sink_closer = req_closer req, needs_fin = True,
        data_write_closed = False, hd_window = req_window req\<rparr> (streams m)"
    "tasks m' = tasks m @ [(new_stream_id sid m, snd (req_channel req))]"
    "stream_limit m' = stream_limit m" "gone_away m' = gone_away m" "sys_rx m' = sys_rx m"
    "last_local_id m' = (if sid = None then new_stream_id sid m else last_local_id m)"
  using assms
  by (cases sid; auto simp: create_stream_def Let_def split_beta insert_stream_def push_task_def
      put_stream_def new_stream_id_def)+

lemma create_stream_full:
  assumes "length (streams m) = stream_limit m" "create_stream M sid req m h = (r, m', h')"
  shows "r = Err StreamsExhausted" "m' = m"
  using assms by (auto simp: create_stream_def Let_def split_beta)

lemma create_stream_inv:
  assumes "mgr_inv m" "create_stream M sid req m h = (r, m', h')"
    "new_stream_id sid m \<notin> fst ` set (streams m)"
  shows "mgr_inv m'"
proof (cases "length (streams m) = stream_limit m")
  case True
  with assms create_stream_full show ?thesis by metis
next
  case False
  note eff = create_stream_effect [OF False assms(2)]
  have "last_local_id m' \<le> STREAMID_MAX"
    using assms(1) by (simp add: eff(7) mgr_inv_def new_stream_id_def)
  with assms(1,3) False show ?thesis
    unfolding mgr_inv_def eff(2-5)
    by (simp add: length_update distinct_update dom_update image_iff)
qed

lemma poll_in_order_cases:
  assumes "poll_in_order M w order ts h = (r, ts', h')"
  shows "r = Pending \<and> ts' = ts \<or> r = Panicked \<or>
    (\<exists>i item. i < length ts \<and> r = Ready (fst (ts ! i), item, snd (ts ! i)) \<and> ts' = remove_nth i ts)"
  using assms
  by (induction M w order ts h rule: poll_in_order.induct)
    (auto simp: with_id_poll_def split_beta Let_def split: if_splits poll.splits)



lemma remove_stream_simps [simp]:
  "streams (fst (remove_stream M sid m h)) = AList.delete sid (streams m)"
  "tasks (fst (remove_stream M sid m h)) = tasks m" "gone_away (fst (remove_stream M sid m h)) = gone_away m"
  "stream_limit (fst (remove_stream M sid m h)) = stream_limit m"
  "last_local_id (fst (remove_stream M sid m h)) = last_local_id m"
  by (simp_all add: remove_stream_def)

text \<open>
  The state between taking a task out of the set and handling its item: the
  streams are those of the remaining tasks and the one that was taken.
\<close>

definition mgr_taken :: "u32 \<Rightarrow> stream_manager \<Rightarrow> bool" where
  "mgr_taken sid m \<longleftrightarrow> distinct (map fst (streams m)) \<and> length (streams m) \<le> stream_limit m \<and>
     last_local_id m \<le> STREAMID_MAX \<and> distinct (map fst (tasks m)) \<and> sid \<notin> fst ` set (tasks m) \<and>
     fst ` set (streams m) = insert sid (fst ` set (tasks m))"

lemma taken_remove:
  "mgr_taken sid m \<Longrightarrow> mgr_inv (fst (remove_stream M sid m h))"
  using length_delete_le [of sid "streams m"]
  unfolding mgr_taken_def mgr_inv_def set_map [symmetric] remove_stream_simps delete_keys
  by (auto simp: distinct_removeAll)

lemma taken_push:
  "mgr_taken sid m \<Longrightarrow> mgr_inv (push_task sid c (put_stream sid hdl m))"
  by (auto simp: mgr_taken_def mgr_inv_def push_task_def length_update distinct_update dom_update)

lemma go_away_inv:
  "mgr_inv m \<Longrightarrow> manager_go_away M e (m\<lparr>tasks := ts\<rparr>) h = (m', h') \<Longrightarrow> mgr_inv m'"
  by (auto simp: mgr_inv_def manager_go_away_def)

lemma handle_task_item_inv:
  assumes "mgr_taken sid m" "handle_task_item M w sid item rest m h = (r, m', h')"
  shows "mgr_inv m' \<and> r \<noteq> Panicked"
proof -
  have "sid \<in> fst ` set (streams m)" using assms(1) by (simp add: mgr_taken_def)
  then obtain hdl where "get_stream sid m = Ok hdl" using get_stream_iff by blast
  with assms show ?thesis
    by (auto simp: handle_task_item_def Let_def split_beta taken_remove taken_push
        split: if_splits option.splits)
qed

context frame_chan
begin

lemma poll_in_order_no_panic: "fst (poll_in_order M w order ts h) \<noteq> Panicked"
  by (induction order arbitrary: h)
    (auto simp: with_id_poll_def split_beta Let_def split: poll.splits)

lemma tasks_poll_next_cases:
  assumes "tasks_poll_next M w order ts h = (r, ts', h')"
  shows "r = Ready None \<and> ts' = ts \<or> r = Pending \<and> ts' = ts \<or>
    (\<exists>i item. i < length ts \<and> r = Ready (Some (fst (ts ! i), item, snd (ts ! i))) \<and> ts' = remove_nth i ts)"
proof (cases "ts = []")
  case False
  obtain q ts1 h1 where p: "poll_in_order M w order ts h = (q, ts1, h1)"
    by (cases "poll_in_order M w order ts h") auto
  with poll_in_order_no_panic [of w order ts h] have np: "q \<noteq> Panicked" by simp
  have "ts' = ts1" "r = (case q of Ready i \<Rightarrow> Ready (Some i) | Pending \<Rightarrow> Pending | Panicked \<Rightarrow> Panicked)"
    using assms False p by (auto simp: tasks_poll_next_def split: poll.splits)
  with poll_in_order_cases [OF p] np show ?thesis
    by (elim disjE exE conjE) (simp, simp, simp, blast)
qed (use assms in \<open>simp add: tasks_poll_next_def\<close>)

lemma poll_next_inv:
  assumes "mgr_inv m" "manager_poll_next M w order m h = (r, m', h')"
  shows "mgr_inv m' \<and> r \<noteq> Panicked"
proof (cases "gone_away m")
  case True
  with assms show ?thesis by (auto simp: manager_poll_next_def)
next
  case False
  let ?m = "m\<lparr>new_streams := Some w\<rparr>"
  obtain sys c where sys: "rx_poll_next M w (chans h (sys_rx m)) = (sys, c)" by fastforce
  let ?h = "set_chan (sys_rx m) c h"
  have np: "sys \<noteq> Panicked" using no_panic(4) [of w "chans h (sys_rx m)"] sys by simp
  have inv: "mgr_inv ?m" using assms(1) by (simp add: mgr_inv_def)
  show ?thesis
  proof (cases "\<exists>f. sys = Ready (Some f)")
    case True
    then obtain f where "sys = Ready (Some f)" by blast
    with assms(2) False inv show ?thesis
      by (cases "frame_body f")
        (auto simp: manager_poll_next_def on_chan_def sys Let_def split: prod.splits
          dest: go_away_inv [OF inv])
  next
    case no_sys: False
    obtain q ts h2 where t: "tasks_poll_next M w order (tasks m) ?h = (q, ts, h2)"
      by (cases "tasks_poll_next M w order (tasks m) ?h") auto
    have eq: "manager_poll_next M w order m h =
      (case q of Pending \<Rightarrow> (Pending, ?m\<lparr>tasks := ts\<rparr>, h2) | Panicked \<Rightarrow> (Panicked, ?m\<lparr>tasks := ts\<rparr>, h2)
       | Ready None \<Rightarrow> (Pending, ?m\<lparr>tasks := ts\<rparr>, h2)
       | Ready (Some (sid, item, rest)) \<Rightarrow> handle_task_item M w sid item rest (?m\<lparr>tasks := ts\<rparr>) h2)"
      using False no_sys np
      by (cases sys) (auto simp: manager_poll_next_def on_chan_def sys t split: poll.splits option.splits)
    from tasks_poll_next_cases [OF t] show ?thesis
    proof (elim disjE conjE exE)
      fix i item
      assume i: "i < length (tasks m)" "q = Ready (Some (fst (tasks m ! i), item, snd (tasks m ! i)))"
        "ts = remove_nth i (tasks m)"
      have d: "distinct (map fst (tasks m))" "fst ` set (tasks m) = fst ` set (streams m)"
        using inv False by (simp_all add: mgr_inv_def)
      have tk: "fst ` set ts = fst ` set (tasks m) - {fst (tasks m ! i)}" "distinct (map fst ts)"
        using set_remove_nth [OF d(1), of i] i
        by (simp_all add: i(3) remove_nth_map flip: set_map)
      have "fst (tasks m ! i) \<in> fst ` set (tasks m)" using i(1) by simp
      with tk d inv have "mgr_taken (fst (tasks m ! i)) (?m\<lparr>tasks := ts\<rparr>)"
        by (simp add: mgr_taken_def mgr_inv_def insert_absorb)
      moreover have "handle_task_item M w (fst (tasks m ! i)) item (snd (tasks m ! i)) (?m\<lparr>tasks := ts\<rparr>) h2 = (r, m', h')"
        using i(2) eq assms(2) by simp
      ultimately show ?thesis by (rule handle_task_item_inv)
    qed (use eq assms(2) inv in simp_all)
  qed
qed

end

text \<open>The closure of \<open>send_to_stream\<close> changes the handle it was given and nothing else of the manager.\<close>

lemma send_to_stream_manager:
  assumes "send_to_stream_poll M w k m h = (r, k', m', h')"
  shows "m' = m \<or> (\<exists>old hdl. get_stream (sf_id k) m = Ok old \<and> m' = put_stream (sf_id k) hdl m)"
  using assms
  by (cases "get_stream (sf_id k) m") (auto simp: send_to_stream_poll_def split: poll.splits sum.splits if_splits prod.splits)

lemma send_to_stream_inv:
  assumes "mgr_inv m" "send_to_stream_poll M w k m h = (r, k', m', h')"
  shows "mgr_inv m'"
  using send_to_stream_manager [OF assms(2)] assms(1) put_stream_inv by metis

section \<open>The manager as a state machine\<close>

text \<open>
  What the two tasks of a session do to the manager, interleaved with anything the
  streams do to the shared channels and cells. A stream is opened under an
  identifier that is not in use; \<open>duplicate_syn_panics\<close> below shows what
  happens otherwise.
\<close>

type_synonym 'c mstate = "stream_manager \<times> 'c heap"

inductive mgr_step :: "(frame, 'c) mpsc \<Rightarrow> 'c mstate \<Rightarrow> 'c mstate \<Rightarrow> bool" for M where
  streams_act: "mgr_step M (m, h) (m, h')"
| open_stream: "create_stream M sid req m h = (r, m', h') \<Longrightarrow> new_stream_id sid m \<notin> fst ` set (streams m)
    \<Longrightarrow> mgr_step M (m, h) (m', h')"
| next_frame: "manager_poll_next M w order m h = (r, m', h') \<Longrightarrow> mgr_step M (m, h) (m', h')"
| to_a_stream: "send_to_stream_poll M w k m h = (r, k', m', h') \<Longrightarrow> mgr_step M (m, h) (m', h')"
| fin_received: "get_stream sid m = Ok hdl
    \<Longrightarrow> mgr_step M (m, h) (put_stream sid (hdl\<lparr>data_write_closed := True\<rparr>) m, h)"
| remote_gone: "manager_go_away M e m h = (m', h') \<Longrightarrow> mgr_step M (m, h) (m', h')"
| close_streams: "mgr_step M (m, h) (m, close_senders M m h)"

inductive_simps mgr_step_simps: "mgr_step M s t"

definition mgr_init :: "(frame, 'c) mpsc \<Rightarrow> 'c mstate \<Rightarrow> bool" where
  "mgr_init M s \<longleftrightarrow> (\<exists>limit client h. s = manager_new M limit client h)"

lemma manager_new_inv: "mgr_init M s \<Longrightarrow> mgr_inv (fst s)"
  by (auto simp: mgr_init_def manager_new_def mgr_inv_def Let_def split_beta)

lemma go_away_keeps: "mgr_inv m \<Longrightarrow> manager_go_away M e m h = (m', h') \<Longrightarrow> mgr_inv m'"
  using go_away_inv [of m M e "tasks m"] by simp

context frame_chan
begin

lemma mgr_step_inv:
  assumes "mgr_step M s t" "mgr_inv (fst s)"
  shows "mgr_inv (fst t)"
  using assms
proof (induction rule: mgr_step.induct)
  case (next_frame w order m h r m' h')
  then show ?case using poll_next_inv by simp
qed (auto intro: create_stream_inv send_to_stream_inv put_stream_inv go_away_keeps)

sublocale manager: machine_inv "mgr_init M" "mgr_step M" "\<lambda>s. mgr_inv (fst s)"
  by unfold_locales (auto intro: manager_new_inv mgr_step_inv)

lemmas manager_reach = manager.inv_reach

end

section \<open>Identifiers of local streams\<close>

text \<open>
  A history of the manager: streams opened locally and by the remote, and streams
  removed. The result lists the identifiers given to the local streams.
\<close>

datatype history_op = OpenLocal open_req | OpenRemote u32 open_req | Remove u32

fun run_history ::
  "(frame, 'c) mpsc \<Rightarrow> history_op list \<Rightarrow> stream_manager \<Rightarrow> 'c heap \<Rightarrow> u32 list" where
  "run_history M [] m h = []"
| "run_history M (OpenLocal req # ops) m h =
     (case create_stream M None req m h of
        (Inl _, m', h') \<Rightarrow> run_history M ops m' h'
      | (Inr sid, m', h') \<Rightarrow> sid # run_history M ops m' h')"
| "run_history M (OpenRemote sid req # ops) m h =
     (case create_stream M (Some sid) req m h of (_, m', h') \<Rightarrow> run_history M ops m' h')"
| "run_history M (Remove sid # ops) m h =
     (case remove_stream M sid m h of (m', h') \<Rightarrow> run_history M ops m' h')"

lemma unat_next_id:
  assumes "v \<le> STREAMID_MAX"
  shows "unat (StreamID_clamp (v + 2)) = min (unat v + 2) (unat STREAMID_MAX)"
proof -
  have v: "unat v \<le> 2147483647" using assms by (simp add: STREAMID_MAX_def word_le_nat_alt)
  then have "unat (v + 2) = unat v + 2"
    by (simp add: unat_word_ariths)
  with v show ?thesis
    by (auto simp: StreamID_clamp_def clamp_def STREAMID_MAX_def word_less_nat_alt)
qed

lemma create_stream_local_id:
  assumes "create_stream M sid req m h = (r, m', h')"
  shows "case r of Inl _ \<Rightarrow> last_local_id m' = last_local_id m
    | Inr i \<Rightarrow> i = new_stream_id sid m \<and>
        last_local_id m' = (if sid = None then new_stream_id sid m else last_local_id m)"
  using create_stream_effect(1,7) [OF _ assms] create_stream_full [OF _ assms]
  by (cases "length (streams m) = stream_limit m") auto

lemma run_history_ids:
  assumes "last_local_id m \<le> STREAMID_MAX" "k < length (run_history M ops m h)"
  shows "unat (run_history M ops m h ! k) = min (unat (last_local_id m) + 2 * Suc k) (unat STREAMID_MAX)"
  using assms
proof (induction M ops m h arbitrary: k rule: run_history.induct)
  case (2 M req ops m h)
  obtain r m' h' where c: "create_stream M None req m h = (r, m', h')"
    by (cases "create_stream M None req m h") auto
  note id = create_stream_local_id [OF c]
  show ?case
  proof (cases r)
    case (Inl e)
    with 2 c id show ?thesis by simp
  next
    case (Inr i)
    with id have i: "i = StreamID_clamp (last_local_id m + 2)" "last_local_id m' = i"
      by (simp_all add: new_stream_id_def)
    note n = unat_next_id [OF 2(3), folded i(1)]
    have "i \<le> STREAMID_MAX" by (simp add: i)
    show ?thesis
    proof (cases k)
      case 0
      with Inr c n show ?thesis by simp
    next
      case (Suc j)
      have "unat (run_history M ops m' h' ! j) = min (unat i + 2 * Suc j) (unat STREAMID_MAX)"
        using 2 Inr c Suc i(2) \<open>i \<le> STREAMID_MAX\<close> by simp
      with Inr c Suc n show ?thesis by simp
    qed
  qed
next
  case (3 M sid req ops m h)
  obtain r m' h' where c: "create_stream M (Some sid) req m h = (r, m', h')"
    by (cases "create_stream M (Some sid) req m h") auto
  have "last_local_id m' = last_local_id m"
    using create_stream_local_id [OF c] by (cases r) simp_all
  with 3 c show ?case by simp
next
  case (4 M sid ops m h)
  obtain m' h' where c: "remove_stream M sid m h = (m', h')" by fastforce
  then have "last_local_id m' = last_local_id m" using remove_stream_simps(5) [of M sid m h] by simp
  with 4 c show ?case by simp
qed simp

section \<open>A data frame from the remote\<close>

text \<open>
  The closure of \<open>send_to_stream\<close> is polled until it is ready; between two
  polls the streams may have changed the heap in any way.
\<close>

fun poll_until ::
  "(frame, 'c) mpsc \<Rightarrow> (waker \<times> 'c heap) list \<Rightarrow> send_fut \<Rightarrow> stream_manager
     \<Rightarrow> ((mux_error, unit) result poll \<times> send_fut \<times> stream_manager \<times> 'c heap) option" where
  "poll_until M [] k m = None"
| "poll_until M ((w, h) # ps) k m =
     (case send_to_stream_poll M w k m h of
        (Pending, k', m', h') \<Rightarrow> if ps = [] then Some (Pending, k', m', h') else poll_until M ps k' m'
      | r \<Rightarrow> Some r)"

context frame_chan
begin

definition delivered :: "send_fut \<Rightarrow> stream_handle \<Rightarrow> 'c heap \<Rightarrow>
    (mux_error, unit) result poll \<times> send_fut \<times> stream_handle \<times> 'c heap \<Rightarrow> bool" where
  "delivered k hdl h res \<longleftrightarrow> (case res of (r, k', hdl', h') \<Rightarrow>
     hdl' = hdl\<lparr>hd_window := hd_window hdl - sf_shrink k\<rparr> \<and> codes h' = codes h \<and> sf_shrink k' = 0 \<and>
     (\<forall>i. i \<noteq> to_stream hdl \<longrightarrow> chans h' i = chans h i) \<and>
     sf_id k' = sf_id k \<and> sf_typ k' = sf_typ k \<and> sf_is_fin k' = sf_is_fin k \<and>
     (r = Pending \<and> sf_frame k' = sf_frame k \<and> queue h' (to_stream hdl) = queue h (to_stream hdl) \<or>
      r = Ready (Ok ()) \<and> queue h' (to_stream hdl) = queue h (to_stream hdl) @ [the (sf_frame k)] \<or>
      r = Ready (if sf_is_fin k then Ok () else Err StreamClosed) \<and> queue h' (to_stream hdl) = queue h (to_stream hdl)))"

lemma handle_data_spec:
  assumes "sf_typ k = HData" "\<not> data_write_closed hdl" "sf_frame k = Some f" "frame_body f = Data bs"
  shows "if sf_shrink k \<le> hd_window hdl then delivered k hdl h (fut_handle_frame M w k hdl h)
    else fut_handle_frame M w k hdl h = (Ready (Err FlowControl), k, hdl, h)"
proof (cases "sf_shrink k \<le> hd_window hdl")
  case True
  obtain p c where pr: "tx_poll_ready M w (chans h (to_stream hdl)) = (p, c)" by fastforce
  obtain q c2 where ps: "tx_start_send M f c = (q, c2)" by fastforce
  have c: "contents c = queue h (to_stream hdl)" and np: "p \<noteq> Panicked"
    using ready_keeps [OF pr] by auto
  have c2: "contents c2 = (case q of Inl _ \<Rightarrow> contents c | Inr _ \<Rightarrow> contents c @ [f])"
    using contents_send [of f c] ps by simp
  from np consider "p = Pending" | e where "p = Ready (Err e)" | "p = Ready (Ok ())"
    by (cases p) (auto, metis (full_types) sum.exhaust unit.exhaust)
  then show ?thesis
  proof cases
    case 3
    with True assms pr ps c c2 show ?thesis
      by (cases q) (simp_all add: fut_handle_frame_def Let_def on_chan_def delivered_def)
  qed (use True assms pr c in \<open>simp_all add: fut_handle_frame_def Let_def on_chan_def delivered_def\<close>)
qed (use assms in \<open>simp add: fut_handle_frame_def Let_def\<close>)

lemma send_poll_data:
  assumes "sf_typ k = HData" "sf_frame k = Some f" "frame_body f = Data bs"
    "get_stream (sf_id k) m = Ok hdl" "\<not> data_write_closed hdl" "sf_shrink k \<le> hd_window hdl"
    "send_to_stream_poll M w k m h = (r, k', m', h')"
  shows "r \<noteq> Panicked \<and> (\<exists>hdl'. m' = put_stream (sf_id k) hdl' m \<and> to_stream hdl' = to_stream hdl \<and>
    hd_window hdl' = hd_window hdl - sf_shrink k \<and>
    (r = Pending \<longrightarrow> sf_frame k' = Some f \<and> \<not> data_write_closed hdl' \<and> sf_shrink k' = 0 \<and> sf_typ k' = HData \<and>
       sf_id k' = sf_id k \<and> sf_is_fin k' = sf_is_fin k) \<and>
    ((\<forall>e. r \<noteq> Ready (Err e)) \<longrightarrow> \<not> data_write_closed hdl')) \<and>
    (\<forall>i. i \<noteq> to_stream hdl \<longrightarrow> chans h' i = chans h i) \<and> r \<noteq> Ready (Err FlowControl) \<and>
    (r = Ready (Ok ()) \<longrightarrow> sf_is_fin k \<and> queue h' (to_stream hdl) = queue h (to_stream hdl) \<or>
       queue h' (to_stream hdl) = queue h (to_stream hdl) @ [f]) \<and>
    (r \<noteq> Ready (Ok ()) \<longrightarrow> queue h' (to_stream hdl) = queue h (to_stream hdl))"
proof -
  obtain r1 k1 hdl1 h1 where fh: "fut_handle_frame M w k hdl h = (r1, k1, hdl1, h1)"
    by (cases "fut_handle_frame M w k hdl h") auto
  have d: "delivered k hdl h (r1, k1, hdl1, h1)"
    using handle_data_spec [OF assms(1,5,2,3), of h w] assms(6) fh by simp
  have cl: "chans (close_with i e h1) = chans h1" for i e by simp
  from d show ?thesis
    unfolding delivered_def prod.case
    by (elim disjE conjE)
      (use assms in \<open>auto simp: send_to_stream_poll_def fh split: if_splits\<close>)
qed

lemma poll_until_window:
  assumes "poll_until M ps k m = Some (r, k', m', h')" "sf_typ k = HData" "sf_frame k = Some f"
    "frame_body f = Data bs" "get_stream (sf_id k) m = Ok hdl" "\<not> data_write_closed hdl"
    "sf_shrink k \<le> hd_window hdl"
  shows "r \<noteq> Panicked \<and> (\<exists>hdl'. get_stream (sf_id k) m' = Ok hdl' \<and> hd_window hdl' = hd_window hdl - sf_shrink k)"
  using assms
proof (induction ps arbitrary: k m hdl)
  case (Cons p ps)
  obtain w h where p: "p = (w, h)" by fastforce
  obtain r1 k1 m1 h1 where sp: "send_to_stream_poll M w k m h = (r1, k1, m1, h1)"
    by (cases "send_to_stream_poll M w k m h") auto
  from send_poll_data [OF Cons.prems(2-7) sp] obtain hdl1 where
    np: "r1 \<noteq> Panicked" and m1: "m1 = put_stream (sf_id k) hdl1 m" and
    win: "hd_window hdl1 = hd_window hdl - sf_shrink k" and
    pend: "r1 = Pending \<Longrightarrow> sf_frame k1 = Some f \<and> \<not> data_write_closed hdl1 \<and> sf_shrink k1 = 0 \<and>
      sf_typ k1 = HData \<and> sf_id k1 = sf_id k"
    by blast
  show ?case
  proof (cases "r1 = Pending \<and> ps \<noteq> []")
    case True
    then have k1: "sf_frame k1 = Some f" "\<not> data_write_closed hdl1" "sf_shrink k1 = 0" "sf_typ k1 = HData"
      "sf_id k1 = sf_id k" using pend by simp_all
    have g: "get_stream (sf_id k1) m1 = Ok hdl1" unfolding k1 m1 by simp
    have "poll_until M ps k1 m1 = Some (r, k', m', h')"
      using Cons.prems(1) True p sp by simp
    from Cons.IH [OF this k1(4,1) Cons.prems(4) g k1(2)]
    have "r \<noteq> Panicked \<and> (\<exists>hdl'. get_stream (sf_id k1) m' = Ok hdl' \<and> hd_window hdl' = hd_window hdl1 - sf_shrink k1)"
      by (simp add: k1)
    with pend True win show ?thesis by simp
  next
    case False
    with Cons.prems(1) p sp np have "r = r1" "m' = m1"
      by (cases r1; simp split: if_splits)+
    with np m1 win show ?thesis by simp
  qed
qed simp

end

lemma send_start_data:
  assumes "frame_body f = Data bs" "hdr_typ (frame_header f) = HData"
  shows "send_to_stream_start f = Ok \<lparr>sf_id = hdr_stream_id (frame_header f), sf_typ = HData,
    sf_shrink = length bs, sf_is_fin = (is_fin f \<and> bs = []), sf_frame = Some f\<rparr>"
  using assms by (simp add: send_to_stream_start_def Let_def)

section \<open>Going away\<close>

lemma drop_handle_simps [simp]:
  "codes (drop_handle M hdl h) = codes h" "codes (drop_rx M c h) = codes h"
  by (simp_all add: drop_handle_def drop_rx_def)

lemma go_away_codes:
  "codes (foldl (\<lambda>h (_, hdl). drop_handle M hdl (close_with (sink_closer hdl) e h)) h xs) i =
    (if codes h i = 0 \<and> i \<in> sink_closer ` snd ` set xs then error_to_code e else codes h i)"
proof (induction xs arbitrary: h)
  case (Cons x xs)
  obtain sid hdl where x: "x = (sid, hdl)" by fastforce
  show ?case
    unfolding foldl_Cons x prod.case Cons.IH by auto
qed simp

section \<open>Properties of the manager\<close>


definition demo_manager :: "stream_manager \<times> frame bounded_chan heap" where
  "demo_manager = manager_new bounded_mpsc 2 True
     \<lparr>chans = (\<lambda>_. mk_chan bounded_mpsc 0), codes = (\<lambda>_. 0), heap_next = 0, woken = []\<rparr>"


text \<open>
  C32. The identifiers of local streams, over any history in which streams are
  opened by both sides and removed: the \<open>k\<close>-th is \<open>2 (k + 1)\<close> above the
  one the manager starts with, until the largest identifier is reached; from
  then on every stream is given that same identifier.
\<close>

theorem local_stream_ids:
  assumes "k < length (run_history M ops m h)"
    "manager_new M limit client h0 = (m, h)"
  shows "unat (run_history M ops m h ! k) =
    min ((if client then 1 else 0) + 2 * (k + 1)) (unat STREAMID_MAX)"
proof -
  have "last_local_id m = (if client then 1 else 0)" "last_local_id m \<le> STREAMID_MAX"
    using assms(2) by (auto simp: manager_new_def new_chan_def Let_def StreamID_clamp_def clamp_def STREAMID_MAX_def)
  with run_history_ids [OF _ assms(1)] show ?thesis by auto
qed

definition demo_req :: open_req where
  "demo_req = \<lparr>req_channel = (1, 2), req_closer = 3, req_window = 16\<rparr>"

theorem local_stream_ids_witness:
  "map unat (run_history bounded_mpsc [OpenLocal demo_req, OpenRemote 4 demo_req, Remove 3, OpenLocal demo_req]
     (fst demo_manager) (snd demo_manager)) = [3, 5]"
proof -
  define ops where "ops = [OpenLocal demo_req, OpenRemote 4 demo_req, Remove 3, OpenLocal demo_req]"
  define r where "r = run_history bounded_mpsc ops (fst demo_manager) (snd demo_manager)"
  have two: "length r = 2"
    by (simp add: r_def ops_def demo_manager_def manager_new_def new_chan_def Let_def create_stream_def
        demo_req_def insert_stream_def put_stream_def push_task_def remove_stream_def StreamID_clamp_def
        clamp_def STREAMID_MAX_def)
  have m: "manager_new bounded_mpsc 2 True \<lparr>chans = (\<lambda>_. mk_chan bounded_mpsc 0), codes = (\<lambda>_. 0),
      heap_next = 0, woken = []\<rparr> = (fst demo_manager, snd demo_manager)"
    by (simp add: demo_manager_def)
  have "unat (r ! 0) = 3" "unat (r ! 1) = 5"
    using local_stream_ids [OF _ m, of 0 ops, folded r_def] local_stream_ids [OF _ m, of 1 ops, folded r_def] two
    by (simp_all add: STREAMID_MAX_def)
  with two show ?thesis
    unfolding r_def [symmetric] ops_def [symmetric] by (cases r; cases "tl r") auto
qed

text \<open>
  C14. A data frame that fits the window of its stream shrinks that window by its
  length exactly once, however often the delivery is polled before it succeeds and
  whatever the streams do in between.
\<close>

theorem window_shrinks_once:
  assumes "frame_chan M contents" "frame_body f = Data bs" "hdr_typ (frame_header f) = HData"
    "get_stream (hdr_stream_id (frame_header f)) m = Ok hdl" "\<not> data_write_closed hdl"
    "length bs \<le> hd_window hdl" "send_to_stream_start f = Ok k" "poll_until M ps k m = Some (r, k', m', h')"
  shows "r \<noteq> Panicked \<and> (\<exists>hdl'. get_stream (hdr_stream_id (frame_header f)) m' = Ok hdl' \<and>
    hd_window hdl' = hd_window hdl - length bs)"
proof -
  from assms(7) send_start_data [OF assms(2,3)] have k: "k = \<lparr>sf_id = hdr_stream_id (frame_header f),
      sf_typ = HData, sf_shrink = length bs, sf_is_fin = (is_fin f \<and> bs = []), sf_frame = Some f\<rparr>"
    by simp
  with assms frame_chan.poll_until_window [OF assms(1,8), of f bs hdl] show ?thesis
    by simp
qed

definition demo_handle :: stream_handle where
  "demo_handle = \<lparr>to_stream = 1, sink_closer = 2, needs_fin = True, data_write_closed = False, hd_window = 5\<rparr>"

definition demo_frame :: "bytes \<Rightarrow> frame" where
  "demo_frame bs = frame_stream_id 4 (frame_from_body (Data bs))"

lemma demo_frame_simps [simp]:
  "length bs \<le> 9 \<Longrightarrow> frame_body (demo_frame bs) = Data bs" "hdr_typ (frame_header (demo_frame bs)) = HData"
  "hdr_stream_id (frame_header (demo_frame bs)) = 4"
  by (simp_all add: demo_frame_def frame_stream_id_def frame_from_body_def Let_def LENGTH_MAX_def)

theorem window_shrinks_once_witness:
  "\<exists>r k' m' h' hdl'. poll_until bounded_mpsc [(0, snd demo_manager), (0, snd demo_manager)]
      \<lparr>sf_id = 4, sf_typ = HData, sf_shrink = 3, sf_is_fin = False, sf_frame = Some (demo_frame [1, 2, 3])\<rparr>
      (put_stream 4 demo_handle (fst demo_manager)) = Some (r, k', m', h') \<and>
    get_stream 4 m' = Ok hdl' \<and> hd_window hdl' = 2"
proof -
  let ?k = "\<lparr>sf_id = 4, sf_typ = HData, sf_shrink = 3, sf_is_fin = False, sf_frame = Some (demo_frame [1, 2, 3])\<rparr>"
    and ?m = "put_stream 4 demo_handle (fst demo_manager)"
  have k: "send_to_stream_start (demo_frame [1, 2, 3]) = Ok ?k"
    using send_start_data [of "demo_frame [1, 2, 3]"] by simp
  obtain r k' m' h' where p: "poll_until bounded_mpsc [(0, snd demo_manager), (0, snd demo_manager)] ?k ?m = Some (r, k', m', h')"
    by (cases "poll_until bounded_mpsc [(0, snd demo_manager), (0, snd demo_manager)] ?k ?m")
      (auto split: prod.splits poll.splits)
  from window_shrinks_once [OF bounded_frames.frame_chan_axioms, of "demo_frame [1, 2, 3]" "[1, 2, 3]" ?m demo_handle, OF _ _ _ _ _ k p]
  show ?thesis using p by (auto simp: demo_handle_def)
qed

text \<open>
  C25. A data frame larger than the window of its stream is not delivered: the
  manager answers with a flow-control error, for which the session resets the
  stream, and closes the stream for both directions without a FIN.
\<close>

theorem flow_control_enforced:
  assumes "frame_chan M contents" "frame_body f = Data bs" "hdr_typ (frame_header f) = HData"
    "get_stream (hdr_stream_id (frame_header f)) m = Ok hdl" "\<not> data_write_closed hdl"
    "hd_window hdl < length bs" "send_to_stream_start f = Ok k"
    "send_to_stream_poll M w k m h = (r, k', m', h')"
  shows "r = Ready (Err FlowControl) \<and> chans h' = chans h \<and> is_closed (sink_closer hdl) h' \<and>
    get_stream (hdr_stream_id (frame_header f)) m' = Ok (hdl\<lparr>data_write_closed := True, needs_fin := False\<rparr>)"
proof -
  from assms(7) send_start_data [OF assms(2,3)] have k: "k = \<lparr>sf_id = hdr_stream_id (frame_header f),
      sf_typ = HData, sf_shrink = length bs, sf_is_fin = (is_fin f \<and> bs = []), sf_frame = Some f\<rparr>"
    by simp
  have bs: "bs \<noteq> []" using assms(6) by auto
  have "fut_handle_frame M w k hdl h = (Ready (Err FlowControl), k, hdl, h)"
    using frame_chan.handle_data_spec [OF assms(1), of k hdl f bs h w] assms(2,5,6) k by simp
  with assms(4,8) k bs show ?thesis
    by (auto simp: send_to_stream_poll_def split: if_splits)
qed

theorem flow_control_enforced_witness:
  "fst (send_to_stream_poll bounded_mpsc 0
      \<lparr>sf_id = 4, sf_typ = HData, sf_shrink = 6, sf_is_fin = False, sf_frame = Some (demo_frame [1, 2, 3, 4, 5, 6])\<rparr>
      (put_stream 4 demo_handle (fst demo_manager)) (snd demo_manager)) = Ready (Err FlowControl)"
proof -
  let ?k = "\<lparr>sf_id = 4, sf_typ = HData, sf_shrink = 6, sf_is_fin = False, sf_frame = Some (demo_frame [1, 2, 3, 4, 5, 6])\<rparr>"
    and ?m = "put_stream 4 demo_handle (fst demo_manager)"
  have k: "send_to_stream_start (demo_frame [1, 2, 3, 4, 5, 6]) = Ok ?k"
    using send_start_data [of "demo_frame [1, 2, 3, 4, 5, 6]"] by simp
  obtain r k' m' h' where p: "send_to_stream_poll bounded_mpsc 0 ?k ?m (snd demo_manager) = (r, k', m', h')"
    by (cases "send_to_stream_poll bounded_mpsc 0 ?k ?m (snd demo_manager)") auto
  from flow_control_enforced [OF bounded_frames.frame_chan_axioms, of "demo_frame [1, 2, 3, 4, 5, 6]"
      "[1, 2, 3, 4, 5, 6]" ?m demo_handle, OF _ _ _ _ _ k p]
  show ?thesis using p by (simp add: demo_handle_def)
qed

text \<open>
  Going away with an error closes the sink of every stream with it, and the
  manager yields no further frame; but going away with \<open>Error::None\<close>, the
  error of an orderly GOAWAY, closes none of them.
\<close>

theorem go_away_closes:
  "case manager_go_away M e m h of (m', h') \<Rightarrow>
    (\<forall>i. codes h' i = (if codes h i = 0 \<and> i \<in> sink_closer ` snd ` set (streams m) \<and> e \<noteq> NoError
      then error_to_code e else codes h i)) \<and>
    streams m' = [] \<and> manager_poll_next M w order m' h2 = (Ready None, m', h2)"
  using go_away_codes [of M e h "streams m"]
  by (auto simp: manager_go_away_def manager_poll_next_def)


end
