(* ===== verification/Mux_Session.thy ===== *)
theory Mux_Session
  imports Stream_Manager Codec
begin

text \<open>
  \<open>muxado/src/session.rs\<close>: the session builder, the read task, the write task
  and the halves given to the user. An asynchronous function is the state machine
  it compiles to: a program counter names the \<open>.await\<close> at which it rests, and
  a step takes it from one to the next. The lock of the shared manager is held
  within a step only, so a step is atomic; a poll that finds it taken has no
  effect and is not a step.
\<close>

section \<open>Sending on a channel\<close>

text \<open>\<open>SinkExt::send\<close>: make the sink ready, hand over the item, flush.\<close>

datatype 'a send_state = SendItem 'a | SendFlush

definition send_poll ::
  "('a, 'c) mpsc \<Rightarrow> waker \<Rightarrow> 'a send_state \<Rightarrow> 'c
     \<Rightarrow> (send_error, unit) result poll \<times> 'a send_state \<times> 'c" where
  "send_poll M w st c =
     (let flush = (\<lambda>c. case tx_poll_flush M w c of (r, c') \<Rightarrow> (r, SendFlush, c')) in
      case st of
        SendFlush \<Rightarrow> flush c
      | SendItem x \<Rightarrow>
        (case tx_poll_ready M w c of
           (Pending, c1) \<Rightarrow> (Pending, st, c1)
         | (Panicked, c1) \<Rightarrow> (Panicked, st, c1)
         | (Ready (Inl e), c1) \<Rightarrow> (Ready (Err e), st, c1)
         | (Ready (Inr _), c1) \<Rightarrow>
           (case tx_start_send M x c1 of
              (Inl e, c2) \<Rightarrow> (Ready (Err e), st, c2)
            | (Inr _, c2) \<Rightarrow> flush c2)))"

section \<open>The builder\<close>

definition DEFAULT_WINDOW :: usize where "DEFAULT_WINDOW = 0x40000"
definition DEFAULT_ACCEPT :: usize where "DEFAULT_ACCEPT = 64"
definition DEFAULT_STREAMS :: usize where "DEFAULT_STREAMS = 512"

record session_builder =
  sb_window :: usize
  sb_accept_queue_size :: usize
  sb_stream_limit :: usize
  sb_client :: bool

definition builder_new :: session_builder where
  "builder_new = \<lparr>sb_window = DEFAULT_WINDOW, sb_accept_queue_size = DEFAULT_ACCEPT,
     sb_stream_limit = DEFAULT_STREAMS, sb_client = True\<rparr>"

definition builder_window_size :: "usize \<Rightarrow> session_builder \<Rightarrow> session_builder" where
  "builder_window_size n b = b\<lparr>sb_window := n\<rparr>"

definition builder_accept_queue_size :: "usize \<Rightarrow> session_builder \<Rightarrow> session_builder" where
  "builder_accept_queue_size n b = b\<lparr>sb_accept_queue_size := n\<rparr>"

definition builder_stream_limit :: "usize \<Rightarrow> session_builder \<Rightarrow> session_builder" where
  "builder_stream_limit n b = b\<lparr>sb_stream_limit := n\<rparr>"

definition builder_client :: "session_builder \<Rightarrow> session_builder" where
  "builder_client b = b\<lparr>sb_client := True\<rparr>"

definition builder_server :: "session_builder \<Rightarrow> session_builder" where
  "builder_server b = b\<lparr>sb_client := False\<rparr>"

section \<open>The state of a session\<close>

text \<open>
  The read task rests at one of these points. \<open>RDeliver\<close> keeps the closure of
  \<open>send_to_stream\<close> with the values \<open>needs_close\<close> and \<open>stream_id\<close>.
\<close>

datatype reader_pc =
    RNext
  | RAccept "mux_stream send_state" frame
  | RDeliver send_fut bool u32
  | RReset "frame send_state"
  | RProtocol "frame send_state"
  | RDone mux_error
  | RPanicked

datatype writer_pc =
    WSelect
  | WSend "frame send_state" bool
  | WDone "(mux_error, unit) result"
  | WPanicked

text \<open>
  A sink of frames with I/O errors, which the write task is given:
  \<open>Framed\<close> over the connection.
\<close>

record 'w frame_sink =
  sk_poll_ready :: "waker \<Rightarrow> 'w \<Rightarrow> (io_error, unit) result poll \<times> 'w"
  sk_start_send :: "frame \<Rightarrow> 'w \<Rightarrow> (io_error, unit) result \<times> 'w"
  sk_poll_flush :: "waker \<Rightarrow> 'w \<Rightarrow> (io_error, unit) result poll \<times> 'w"

text \<open>
  The state: the shared heap, the manager with the flag of its shared halves, the
  channel of accepted streams, the channel of open requests (each named by the
  number of its one-shot response), the responses given, the two tasks, and the
  flag \<open>closed\<close> of the open half.
\<close>

record ('c, 'a, 'q, 'w) session =
  se_heap :: "'c heap"
  se_mgr :: stream_manager
  se_terminated :: bool
  se_window :: usize
  se_accept :: 'a
  se_open :: 'q
  se_open_done :: bool
  se_resp :: "nat \<Rightarrow> (mux_error, mux_stream) result option"
  rd_pc :: reader_pc
  rd_last_processed :: u32
  wr_pc :: writer_pc
  wr_io :: 'w
  op_closed :: bool

definition session_start ::
  "(frame, 'c) mpsc \<Rightarrow> (mux_stream, 'a) mpsc \<Rightarrow> (nat, 'q) mpsc \<Rightarrow> 'w \<Rightarrow> 'c heap \<Rightarrow> session_builder
     \<Rightarrow> ('c, 'a, 'q, 'w) session" where
  "session_start M A Q io h b =
     (let accept = mk_chan A (sb_accept_queue_size b);
          opens = mk_chan Q 512;
          (m, h1) = manager_new M (sb_stream_limit b) (sb_client b) h
      in \<lparr>se_heap = h1, se_mgr = m, se_terminated = False, se_window = sb_window b, se_accept = accept,
          se_open = opens, se_open_done = False, se_resp = (\<lambda>_. None), rd_pc = RNext,
          rd_last_processed = StreamID_clamp 0, wr_pc = WSelect, wr_io = io, op_closed = False\<rparr>)"

definition shared_go_away ::
  "(frame, 'c) mpsc \<Rightarrow> mux_error \<Rightarrow> ('c, 'a, 'q, 'w) session \<Rightarrow> ('c, 'a, 'q, 'w) session" where
  "shared_go_away M e s =
     (case manager_go_away M e (se_mgr s) (se_heap s) of
        (m, h) \<Rightarrow> s\<lparr>se_terminated := True, se_mgr := m, se_heap := h\<rparr>)"

section \<open>The read task\<close>

text \<open>
  The end of \<open>Reader::run\<close>: whatever \<open>handle_frame\<close> failed with is
  discarded, the senders of all streams are closed, and the task returns.
\<close>

definition reader_finish ::
  "(frame, 'c) mpsc \<Rightarrow> ('c, 'a, 'q, 'w) session \<Rightarrow> ('c, 'a, 'q, 'w) session" where
  "reader_finish M s =
     s\<lparr>se_heap := close_senders M (se_mgr s) (se_heap s), rd_pc := RDone SessionClosed\<rparr>"

definition invalid_frame_msg :: bytes where
  "invalid_frame_msg = map (\<lambda>c. of_char c) ''invalid frame''"

text \<open>The second half of \<open>handle_frame\<close>, after a SYN was dealt with.\<close>

definition reader_dispatch ::
  "(frame, 'c) mpsc \<Rightarrow> frame \<Rightarrow> ('c, 'a, 'q, 'w) session \<Rightarrow> ('c, 'a, 'q, 'w) session" where
  "reader_dispatch M f s =
     (let needs_close = is_fin f;
          stream_id = hdr_stream_id (frame_header f);
          to_stream_frame =
            (case send_to_stream_start f of
               Inl e \<Rightarrow> s\<lparr>rd_pc := RReset (SendItem (frame_rst stream_id e))\<rparr>
             | Inr k \<Rightarrow> s\<lparr>rd_pc := RDeliver k needs_close stream_id\<rparr>) in
      case hdr_typ (frame_header f) of
        HData \<Rightarrow> to_stream_frame
      | HRst \<Rightarrow> to_stream_frame
      | HWndInc \<Rightarrow> to_stream_frame
      | HGoAway \<Rightarrow>
        (case frame_body f of
           GoAway _ e _ \<Rightarrow> reader_finish M (shared_go_away M e s)
         | _ \<Rightarrow> s\<lparr>rd_pc := RPanicked\<rparr>)
      | HInvalid _ \<Rightarrow>
        s\<lparr>rd_pc := RProtocol (SendItem (frame_goaway (rd_last_processed s) Protocol invalid_frame_msg))\<rparr>)"

definition reader_frame ::
  "(frame, 'c) mpsc \<Rightarrow> frame \<Rightarrow> ('c, 'a, 'q, 'w) session \<Rightarrow> ('c, 'a, 'q, 'w) session" where
  "reader_frame M f s =
     (if is_syn f then
        (let ((req, stream), h1) = open_req_create M (se_window s) False (se_heap s) in
         case create_stream M (Some (hdr_stream_id (frame_header f))) req (se_mgr s) h1 of
           (Inl _, m, h2) \<Rightarrow> reader_finish M (s\<lparr>se_mgr := m, se_heap := h2\<rparr>)
         | (Inr _, m, h2) \<Rightarrow> s\<lparr>se_mgr := m, se_heap := h2, rd_pc := RAccept (SendItem stream) f\<rparr>)
      else reader_dispatch M f s)"

text \<open>After a frame was delivered: a FIN closes the stream for further data.\<close>

definition frame_delivered :: "bool \<Rightarrow> u32 \<Rightarrow> stream_manager \<Rightarrow> stream_manager" where
  "frame_delivered needs_close sid m =
     (if needs_close then
        (case get_stream sid m of
           Inr hdl \<Rightarrow> put_stream sid (hdl\<lparr>data_write_closed := True\<rparr>) m
         | Inl _ \<Rightarrow> m)
      else m)"

text \<open>
  A step of the read task. \<open>incoming\<close> is what \<open>try_next\<close> gives when the task
  rests there: a frame, the end, or an error. A poll that is pending changes the
  channel it polled and leaves the task where it is.
\<close>

definition reader_step ::
  "(frame, 'c) mpsc \<Rightarrow> (mux_stream, 'a) mpsc \<Rightarrow> waker \<Rightarrow> (io_error, frame option) result
     \<Rightarrow> ('c, 'a, 'q, 'w) session \<Rightarrow> ('c, 'a, 'q, 'w) session" where
  "reader_step M A w incoming s =
     (case rd_pc s of
        RNext \<Rightarrow>
          (case incoming of
             Inr (Some f) \<Rightarrow> reader_frame M f s
           | _ \<Rightarrow> reader_finish M s)
      | RAccept st f \<Rightarrow>
        (case send_poll A w st (se_accept s) of
           (Pending, st', c) \<Rightarrow> s\<lparr>se_accept := c, rd_pc := RAccept st' f\<rparr>
         | (Panicked, st', c) \<Rightarrow> s\<lparr>se_accept := c, rd_pc := RPanicked\<rparr>
         | (Ready (Inl _), st', c) \<Rightarrow> reader_finish M (s\<lparr>se_accept := c\<rparr>)
         | (Ready (Inr _), st', c) \<Rightarrow> reader_dispatch M f (s\<lparr>se_accept := c\<rparr>))
      | RDeliver k needs_close sid \<Rightarrow>
        (case send_to_stream_poll M w k (se_mgr s) (se_heap s) of
           (Pending, k', m, h) \<Rightarrow> s\<lparr>se_mgr := m, se_heap := h, rd_pc := RDeliver k' needs_close sid\<rparr>
         | (Panicked, k', m, h) \<Rightarrow> s\<lparr>se_mgr := m, se_heap := h, rd_pc := RPanicked\<rparr>
         | (Ready (Inl e), k', m, h) \<Rightarrow>
           s\<lparr>se_mgr := m, se_heap := h, rd_pc := RReset (SendItem (frame_rst sid e))\<rparr>
         | (Ready (Inr _), k', m, h) \<Rightarrow>
           s\<lparr>se_mgr := frame_delivered needs_close sid m, se_heap := h, rd_last_processed := sid, rd_pc := RNext\<rparr>)
      | RReset st \<Rightarrow>
        (case send_poll M w st (chans (se_heap s) (sys_tx (se_mgr s))) of
           (r, st', c) \<Rightarrow>
             (let s1 = s\<lparr>se_heap := set_chan (sys_tx (se_mgr s)) c (se_heap s)\<rparr> in
              case r of
                Pending \<Rightarrow> s1\<lparr>rd_pc := RReset st'\<rparr>
              | Panicked \<Rightarrow> s1\<lparr>rd_pc := RPanicked\<rparr>
              | Ready (Inl _) \<Rightarrow> reader_finish M s1
              | Ready (Inr _) \<Rightarrow> s1\<lparr>rd_pc := RNext\<rparr>))
      | RProtocol st \<Rightarrow>
        (case send_poll M w st (chans (se_heap s) (sys_tx (se_mgr s))) of
           (r, st', c) \<Rightarrow>
             (let s1 = s\<lparr>se_heap := set_chan (sys_tx (se_mgr s)) c (se_heap s)\<rparr> in
              case r of
                Pending \<Rightarrow> s1\<lparr>rd_pc := RProtocol st'\<rparr>
              | Panicked \<Rightarrow> s1\<lparr>rd_pc := RPanicked\<rparr>
              | Ready (Inl _) \<Rightarrow> reader_finish M s1
              | Ready (Inr _) \<Rightarrow> s1\<lparr>rd_pc := RNext\<rparr>))
      | RDone _ \<Rightarrow> s
      | RPanicked \<Rightarrow> s)"

section \<open>The write task\<close>

definition sink_send_poll ::
  "'w frame_sink \<Rightarrow> waker \<Rightarrow> frame send_state \<Rightarrow> 'w
     \<Rightarrow> (io_error, unit) result poll \<times> frame send_state \<times> 'w" where
  "sink_send_poll K w st c =
     (let flush = (\<lambda>c. case sk_poll_flush K w c of (r, c') \<Rightarrow> (r, SendFlush, c')) in
      case st of
        SendFlush \<Rightarrow> flush c
      | SendItem x \<Rightarrow>
        (case sk_poll_ready K w c of
           (Pending, c1) \<Rightarrow> (Pending, st, c1)
         | (Panicked, c1) \<Rightarrow> (Panicked, st, c1)
         | (Ready (Inl e), c1) \<Rightarrow> (Ready (Err e), st, c1)
         | (Ready (Inr _), c1) \<Rightarrow>
           (case sk_start_send K x c1 of
              (Inl e, c2) \<Rightarrow> (Ready (Err e), st, c2)
            | (Inr _, c2) \<Rightarrow> flush c2)))"

text \<open>
  The branches of \<open>select!\<close>. A branch whose stream has terminated is skipped;
  when both have, the task completes. Which branch is polled is an argument.
\<close>

datatype branch = FromManager "nat list" | FromOpenReqs

definition writer_manager_branch ::
  "(frame, 'c) mpsc \<Rightarrow> waker \<Rightarrow> nat list \<Rightarrow> ('c, 'a, 'q, 'w) session \<Rightarrow> ('c, 'a, 'q, 'w) session" where
  "writer_manager_branch M w order s =
     (case manager_poll_next M w order (se_mgr s) (se_heap s) of
        (Pending, m, h) \<Rightarrow> s\<lparr>se_mgr := m, se_heap := h\<rparr>
      | (Panicked, m, h) \<Rightarrow> s\<lparr>se_mgr := m, se_heap := h, wr_pc := WPanicked\<rparr>
      | (Ready None, m, h) \<Rightarrow> s\<lparr>se_mgr := m, se_heap := h\<rparr>
      | (Ready (Some f), m, h) \<Rightarrow>
        s\<lparr>se_mgr := m, se_heap := h, wr_pc := WSend (SendItem f) (hdr_typ (frame_header f) = HGoAway)\<rparr>)"

definition writer_open_branch ::
  "(frame, 'c) mpsc \<Rightarrow> (nat, 'q) mpsc \<Rightarrow> waker \<Rightarrow> ('c, 'a, 'q, 'w) session \<Rightarrow> ('c, 'a, 'q, 'w) session" where
  "writer_open_branch M Q w s =
     (case rx_poll_next Q w (se_open s) of
        (Pending, q) \<Rightarrow> s\<lparr>se_open := q\<rparr>
      | (Panicked, q) \<Rightarrow> s\<lparr>se_open := q, wr_pc := WPanicked\<rparr>
      | (Ready None, q) \<Rightarrow> s\<lparr>se_open := q, se_open_done := True\<rparr>
      | (Ready (Some resp), q) \<Rightarrow>
        (let ((req, stream), h1) = open_req_create M (se_window s) True (se_heap s);
             (res, m, h2) = create_stream M None req (se_mgr s) h1;
             answer = (case res of Inl e \<Rightarrow> Err e | Inr _ \<Rightarrow> Ok stream)
         in s\<lparr>se_open := q, se_mgr := m, se_heap := h2, se_resp := (se_resp s)(resp := Some answer)\<rparr>))"

definition writer_step ::
  "(frame, 'c) mpsc \<Rightarrow> (nat, 'q) mpsc \<Rightarrow> 'w frame_sink \<Rightarrow> waker \<Rightarrow> branch
     \<Rightarrow> ('c, 'a, 'q, 'w) session \<Rightarrow> ('c, 'a, 'q, 'w) session" where
  "writer_step M Q K w br s =
     (case wr_pc s of
        WSelect \<Rightarrow>
          if se_terminated s \<and> se_open_done s then s\<lparr>wr_pc := WDone (Ok ())\<rparr>
          else
            (case br of
               FromManager order \<Rightarrow> if se_terminated s then s else writer_manager_branch M w order s
             | FromOpenReqs \<Rightarrow> if se_open_done s then s else writer_open_branch M Q w s)
      | WSend st is_goaway \<Rightarrow>
        (case sink_send_poll K w st (wr_io s) of
           (Pending, st', io) \<Rightarrow> s\<lparr>wr_io := io, wr_pc := WSend st' is_goaway\<rparr>
         | (Panicked, st', io) \<Rightarrow> s\<lparr>wr_io := io, wr_pc := WPanicked\<rparr>
         | (Ready (Inl _), st', io) \<Rightarrow> s\<lparr>wr_io := io, wr_pc := WDone (Err SessionClosed)\<rparr>
         | (Ready (Inr _), st', io) \<Rightarrow>
           s\<lparr>wr_io := io, wr_pc := (if is_goaway then WDone (Ok ()) else WSelect)\<rparr>)
      | WDone _ \<Rightarrow> s
      | WPanicked \<Rightarrow> s)"

section \<open>The halves given to the user\<close>

definition mux_accept ::
  "(mux_stream, 'a) mpsc \<Rightarrow> waker \<Rightarrow> ('c, 'a, 'q, 'w) session
     \<Rightarrow> mux_stream option poll \<times> ('c, 'a, 'q, 'w) session" where
  "mux_accept A w s = (case rx_poll_next A w (se_accept s) of (r, c) \<Rightarrow> (r, s\<lparr>se_accept := c\<rparr>))"

text \<open>
  \<open>MuxadoOpen::open\<close>: \<open>OSend\<close> sends the request, \<open>OWait\<close> awaits the
  response. A response that can no longer come (the write task ended) is a
  cancelled one-shot.
\<close>

datatype open_pc = OSend "nat send_state" | OWait

definition mux_open_start ::
  "nat \<Rightarrow> ('c, 'a, 'q, 'w) session \<Rightarrow> (mux_error, open_pc) result" where
  "mux_open_start resp s = (if op_closed s then Err SessionClosed else Ok (OSend (SendItem resp)))"

definition writer_done :: "('c, 'a, 'q, 'w) session \<Rightarrow> bool" where
  "writer_done s = (case wr_pc s of WDone _ \<Rightarrow> True | WPanicked \<Rightarrow> True | _ \<Rightarrow> False)"

definition mux_open_poll ::
  "(nat, 'q) mpsc \<Rightarrow> waker \<Rightarrow> nat \<Rightarrow> nat \<Rightarrow> open_pc \<Rightarrow> ('c, 'a, 'q, 'w) session
     \<Rightarrow> (mux_error, mux_stream) result poll \<times> open_pc \<times> ('c, 'a, 'q, 'w) session" where
  "mux_open_poll Q w dropref resp pc s =
     (case pc of
        OSend st \<Rightarrow>
          (case send_poll Q w st (se_open s) of
             (Pending, st', q) \<Rightarrow> (Pending, OSend st', s\<lparr>se_open := q\<rparr>)
           | (Panicked, st', q) \<Rightarrow> (Panicked, OSend st', s\<lparr>se_open := q\<rparr>)
           | (Ready (Inl _), st', q) \<Rightarrow> (Ready (Err SessionClosed), OSend st', s\<lparr>se_open := q\<rparr>)
           | (Ready (Inr _), st', q) \<Rightarrow> (Pending, OWait, s\<lparr>se_open := q\<rparr>))
      | OWait \<Rightarrow>
        (case se_resp s resp of
           Some (Inr stream) \<Rightarrow> (Ready (Ok (stream\<lparr>st_dropref := Some dropref\<rparr>)), OWait, s)
         | Some (Inl e) \<Rightarrow> (Ready (Err e), OWait, s)
         | None \<Rightarrow> (if writer_done s then Ready (Err SessionClosed) else Pending, OWait, s)))"

definition mux_close_start :: "mux_error \<Rightarrow> bytes \<Rightarrow> frame send_state" where
  "mux_close_start e msg = SendItem (frame_goaway (StreamID_clamp 0) e msg)"

definition mux_close_poll ::
  "(frame, 'c) mpsc \<Rightarrow> waker \<Rightarrow> frame send_state \<Rightarrow> ('c, 'a, 'q, 'w) session
     \<Rightarrow> (mux_error, unit) result poll \<times> frame send_state \<times> ('c, 'a, 'q, 'w) session" where
  "mux_close_poll M w st s =
     (case send_poll M w st (chans (se_heap s) (sys_tx (se_mgr s))) of
        (r, st', c) \<Rightarrow>
          (let s1 = s\<lparr>se_heap := set_chan (sys_tx (se_mgr s)) c (se_heap s)\<rparr> in
           case r of
             Pending \<Rightarrow> (Pending, st', s1)
           | Panicked \<Rightarrow> (Panicked, st', s1)
           | Ready (Inr _) \<Rightarrow> (Ready (Ok ()), st', s1\<lparr>op_closed := True\<rparr>)
           | Ready (Inl _) \<Rightarrow> (Ready (Err SessionClosed), st', s1\<lparr>op_closed := True\<rparr>)))"

section \<open>The sink over the codec\<close>

text \<open>
  What \<open>Framed\<close> does with a frame it is given: it encodes it behind the bytes
  that wait to be written; a flush hands them to the connection.
\<close>

record framed_io =
  fr_buf :: bytes
  fr_wire :: bytes

definition framed_sink :: "buf_ops \<Rightarrow> framed_io frame_sink" where
  "framed_sink B = \<lparr>
     sk_poll_ready = (\<lambda>_ c. (Ready (Ok ()), c)),
     sk_start_send = (\<lambda>f c. case codec_encode B f (fr_buf c) of (r, b) \<Rightarrow> (r, c\<lparr>fr_buf := b\<rparr>)),
     sk_poll_flush = (\<lambda>_ c. (Ready (Ok ()), c\<lparr>fr_wire := fr_wire c @ fr_buf c, fr_buf := []\<rparr>))\<rparr>"

end
