(* ===== verification/Session_Props.thy ===== *)
theory Session_Props
  imports Mux_Session Manager_Props Codec_Props
begin

text \<open>
  The session as a state machine of its two tasks and its users, the conditions
  under which neither task panics, and what the session does with frames that break
  the protocol.
\<close>

section \<open>The steps of a session\<close>

text \<open>
  A frame the read task can deal with: a GOAWAY that has the body of a GOAWAY, and
  a SYN for a stream that is not open.
\<close>

definition goaway_ok :: "frame \<Rightarrow> bool" where
  "goaway_ok f \<longleftrightarrow> (hdr_typ (frame_header f) = HGoAway \<longrightarrow> (\<exists>l e msg. frame_body f = GoAway l e msg))"

definition syn_ok :: "frame \<Rightarrow> stream_manager \<Rightarrow> bool" where
  "syn_ok f m \<longleftrightarrow> (is_syn f \<longrightarrow> hdr_stream_id (frame_header f) \<notin> fst ` set (streams m))"

inductive sess_step ::
  "(frame, 'c) mpsc \<Rightarrow> (mux_stream, 'a) mpsc \<Rightarrow> (nat, 'q) mpsc \<Rightarrow> 'w frame_sink
     \<Rightarrow> ('c, 'a, 'q, 'w) session \<Rightarrow> ('c, 'a, 'q, 'w) session \<Rightarrow> bool" for M A Q K where
  users_act: "sess_step M A Q K s (s\<lparr>se_heap := h\<rparr>)"
| read_frame: "rd_pc s = RNext \<Longrightarrow> goaway_ok f \<Longrightarrow> syn_ok f (se_mgr s)
    \<Longrightarrow> sess_step M A Q K s (reader_step M A w (Ok (Some f)) s)"
| read_end: "(\<forall>f. incoming \<noteq> Ok (Some f)) \<Longrightarrow> sess_step M A Q K s (reader_step M A w incoming s)"
| read_on: "rd_pc s \<noteq> RNext \<Longrightarrow> sess_step M A Q K s (reader_step M A w incoming s)"
| write_frame: "sess_step M A Q K s (writer_step M Q K w (FromManager order) s)"
| write_open: "new_stream_id None (se_mgr s) \<notin> fst ` set (streams (se_mgr s))
    \<Longrightarrow> sess_step M A Q K s (writer_step M Q K w FromOpenReqs s)"
| user_accept: "sess_step M A Q K s (snd (mux_accept A w s))"
| user_open: "mux_open_poll Q w d resp pc s = (r, pc', s') \<Longrightarrow> sess_step M A Q K s s'"
| user_close: "mux_close_poll M w st s = (r, st', s') \<Longrightarrow> sess_step M A Q K s s'"

inductive_cases sess_stepE: "sess_step M A Q K s t"

definition sess_init ::
  "(frame, 'c) mpsc \<Rightarrow> (mux_stream, 'a) mpsc \<Rightarrow> (nat, 'q) mpsc \<Rightarrow> ('c, 'a, 'q, 'w) session \<Rightarrow> bool" where
  "sess_init M A Q s \<longleftrightarrow> (\<exists>io h b. s = session_start M A Q io h b)"

definition reader_ok :: "reader_pc \<Rightarrow> bool" where
  "reader_ok pc = (case pc of RAccept _ f \<Rightarrow> goaway_ok f | RDeliver k _ _ \<Rightarrow> sf_frame k \<noteq> None
     | RPanicked \<Rightarrow> False | _ \<Rightarrow> True)"

definition sess_inv :: "('c, 'a, 'q, 'w) session \<Rightarrow> bool" where
  "sess_inv s \<longleftrightarrow> mgr_inv (se_mgr s) \<and> reader_ok (rd_pc s) \<and> wr_pc s \<noteq> WPanicked"

section \<open>The read task keeps the invariant\<close>

lemma reader_finish_inv: "sess_inv s \<Longrightarrow> sess_inv (reader_finish M s)"
  by (simp add: sess_inv_def reader_finish_def reader_ok_def)

lemma send_start_frame: "send_to_stream_start f = Ok k \<Longrightarrow> sf_frame k \<noteq> None"
  by (auto simp: send_to_stream_start_def Let_def split: body.splits)

lemma shared_go_away_inv: "sess_inv s \<Longrightarrow> sess_inv (shared_go_away M e s)"
  by (auto simp: sess_inv_def shared_go_away_def reader_ok_def intro: go_away_keeps split: prod.splits)

lemma reader_dispatch_inv:
  assumes "sess_inv s" "goaway_ok f"
  shows "sess_inv (reader_dispatch M f s)"
proof -
  have set: "sess_inv (s\<lparr>rd_pc := pc\<rparr>)" if "reader_ok pc" for pc
    using assms(1) that by (simp add: sess_inv_def)
  show ?thesis
  proof (cases "hdr_typ (frame_header f) = HGoAway")
    case True
    then obtain l e msg where "frame_body f = GoAway l e msg"
      using assms(2) by (auto simp: goaway_ok_def)
    with True assms(1) show ?thesis
      by (simp add: reader_dispatch_def Let_def reader_finish_inv shared_go_away_inv)
  next
    case False
    then show ?thesis
      by (auto simp: reader_dispatch_def Let_def reader_ok_def send_start_frame
          intro!: set dest: send_start_frame split: header_type.splits sum.splits)
  qed
qed

lemma reader_frame_inv:
  assumes "sess_inv s" "goaway_ok f" "syn_ok f (se_mgr s)"
  shows "sess_inv (reader_frame M f s)"
proof (cases "is_syn f")
  case True
  let ?sid = "hdr_stream_id (frame_header f)"
  obtain req stream h1 where o: "open_req_create M (se_window s) False (se_heap s) = ((req, stream), h1)"
    by (metis surj_pair)
  obtain r m h2 where c: "create_stream M (Some ?sid) req (se_mgr s) h1 = (r, m, h2)"
    by (metis surj_pair)
  have m: "mgr_inv m"
    using create_stream_inv [OF _ c] assms True
    by (simp add: sess_inv_def syn_ok_def new_stream_id_def)
  then have "sess_inv (s\<lparr>se_mgr := m, se_heap := h2\<rparr>)"
    using assms(1) by (simp add: sess_inv_def)
  with m True assms(1,2) show ?thesis
    by (cases r) (simp_all add: reader_frame_def o c reader_finish_inv, simp add: sess_inv_def reader_ok_def)
qed (use assms in \<open>simp add: reader_frame_def reader_dispatch_inv\<close>)

context frame_chan
begin

lemma fut_no_panic:
  assumes "fut_handle_frame M w k hdl h = (r, k', hdl', h')" "sf_frame k \<noteq> None"
  shows "r \<noteq> Panicked \<and> (r = Pending \<longrightarrow> sf_frame k' \<noteq> None)"
  using assms no_panic(1) [of w "chans h (to_stream hdl)"]
  by (auto simp: fut_handle_frame_def Let_def on_chan_def split_beta
      split: if_splits option.splits body.splits poll.splits sum.splits)

lemma send_poll_no_panic:
  assumes "send_to_stream_poll M w k m h = (r, k', m', h')" "sf_frame k \<noteq> None"
  shows "r \<noteq> Panicked \<and> (r = Pending \<longrightarrow> sf_frame k' \<noteq> None)"
proof (cases "get_stream (sf_id k) m")
  case (Inr hdl)
  obtain r1 k1 hdl1 h1 where fh: "fut_handle_frame M w k hdl h = (r1, k1, hdl1, h1)"
    by (metis surj_pair)
  with fut_no_panic [OF fh assms(2)] assms(1) Inr show ?thesis
    by (auto simp: send_to_stream_poll_def split: poll.splits sum.splits if_splits)
qed (use assms in \<open>auto simp: send_to_stream_poll_def\<close>)

end

lemma chan_send_no_panic:
  assumes "fifo_chan A cont" "send_poll A w st c = (r, st', c')"
  shows "r \<noteq> Panicked"
  using assms(2) fifo_chan.no_panic(1,2) [OF assms(1)]
  by (auto simp: send_poll_def Let_def split: send_state.splits poll.splits sum.splits prod.splits) (metis fst_conv)+

text \<open>A sink that does not panic, as the write task is given one.\<close>

definition sink_total :: "'w frame_sink \<Rightarrow> bool" where
  "sink_total K \<longleftrightarrow> (\<forall>w c. fst (sk_poll_ready K w c) \<noteq> Panicked \<and> fst (sk_poll_flush K w c) \<noteq> Panicked)"

lemma sink_send_no_panic:
  assumes "sink_total K" "sink_send_poll K w st c = (r, st', c')"
  shows "r \<noteq> Panicked"
  using assms
  by (auto simp: sink_send_poll_def sink_total_def Let_def
      split: send_state.splits poll.splits sum.splits prod.splits) (metis fst_conv)+

locale session_env = frame_chan M contents for M :: "(frame, 'c) mpsc" and contents +
  fixes A :: "(mux_stream, 'a) mpsc" and acont :: "'a \<Rightarrow> mux_stream list"
    and Q :: "(nat, 'q) mpsc" and qcont :: "'q \<Rightarrow> nat list" and K :: "'w frame_sink"
  assumes accept_chan: "fifo_chan A acont" and open_chan: "fifo_chan Q qcont" and sink: "sink_total K"
begin

lemma reader_deliver_inv:
  assumes "sess_inv s" "rd_pc s = RDeliver k needs_close sid"
  shows "sess_inv (reader_step M A w incoming s)"
proof -
  obtain r k' m h where p: "send_to_stream_poll M w k (se_mgr s) (se_heap s) = (r, k', m, h)"
    by (metis surj_pair)
  have inv: "mgr_inv m" "wr_pc s \<noteq> WPanicked"
    using send_to_stream_inv [OF _ p] assms(1) by (simp_all add: sess_inv_def)
  have np: "r \<noteq> Panicked \<and> (r = Pending \<longrightarrow> sf_frame k' \<noteq> None)"
    using send_poll_no_panic [OF p] assms by (simp add: sess_inv_def reader_ok_def)
  show ?thesis
  proof (cases r rule: poll_result_cases)
    case (ok u)
    then show ?thesis
      using inv put_stream_inv [OF inv(1)]
      by (auto simp: reader_step_def assms(2) p Let_def sess_inv_def reader_ok_def frame_delivered_def split: sum.splits)
  qed (use inv np in \<open>simp_all add: reader_step_def assms(2) p sess_inv_def reader_ok_def\<close>)
qed

lemma reader_accept_inv:
  assumes "sess_inv s" "rd_pc s = RAccept st f"
  shows "sess_inv (reader_step M A w incoming s)"
proof -
  obtain r st' c where p: "send_poll A w st (se_accept s) = (r, st', c)" by (metis surj_pair)
  have f: "goaway_ok f" and sc: "sess_inv (s\<lparr>se_accept := c\<rparr>)"
    using assms by (simp_all add: sess_inv_def reader_ok_def)
  have upd: "sess_inv (s\<lparr>se_accept := c, rd_pc := RAccept st' f\<rparr>)"
    using assms(1) f by (simp add: sess_inv_def reader_ok_def)
  show ?thesis
    using chan_send_no_panic [OF accept_chan p] reader_finish_inv [OF sc] reader_dispatch_inv [OF sc f] upd
    by (auto simp: reader_step_def assms(2) p split: poll.splits sum.splits)
qed

lemma reader_sys_inv:
  assumes "sess_inv s" "rd_pc s = RReset st \<or> rd_pc s = RProtocol st"
  shows "sess_inv (reader_step M A w incoming s)"
proof -
  obtain r st' c where p: "send_poll M w st (chans (se_heap s) (sys_tx (se_mgr s))) = (r, st', c)"
    by (metis surj_pair)
  let ?s = "s\<lparr>se_heap := set_chan (sys_tx (se_mgr s)) c (se_heap s)\<rparr>"
  have "sess_inv ?s" using assms(1) by (simp add: sess_inv_def)
  note fin = reader_finish_inv [OF this]
  have pc: "sess_inv (?s\<lparr>rd_pc := x\<rparr>)" if "reader_ok x" for x
    using assms(1) that by (simp add: sess_inv_def)
  have "r \<noteq> Panicked" by (rule chan_send_no_panic [OF fifo_chan_axioms p])
  with assms(2) fin show ?thesis
    by (auto simp: reader_step_def p Let_def reader_ok_def intro!: pc split: poll.splits sum.splits)
qed

lemma reader_step_inv:
  assumes "sess_inv s"
    "rd_pc s = RNext \<Longrightarrow> incoming = Ok (Some f) \<Longrightarrow> goaway_ok f \<and> syn_ok f (se_mgr s)"
    "\<And>g. incoming = Ok (Some g) \<Longrightarrow> rd_pc s = RNext \<Longrightarrow> g = f"
  shows "sess_inv (reader_step M A w incoming s)"
proof (cases "rd_pc s")
  case RNext
  show ?thesis
  proof (cases "\<exists>g. incoming = Ok (Some g)")
    case True
    with assms(3) RNext have i: "incoming = Ok (Some f)" by blast
    then have "reader_step M A w incoming s = reader_frame M f s"
      using RNext by (simp add: reader_step_def)
    with reader_frame_inv [OF assms(1)] assms(2) [OF RNext i] show ?thesis by simp
  next
    case False
    with assms(1) RNext reader_finish_inv show ?thesis
      by (auto simp: reader_step_def split: sum.splits option.splits)
  qed
next
  case (RAccept st g)
  then show ?thesis by (rule reader_accept_inv [OF assms(1)])
next
  case (RDeliver k c sid)
  then show ?thesis by (rule reader_deliver_inv [OF assms(1)])
next
  case (RReset st)
  then show ?thesis by (intro reader_sys_inv [OF assms(1)] disjI1)
next
  case (RProtocol st)
  then show ?thesis by (intro reader_sys_inv [OF assms(1)] disjI2)
qed (use assms(1) in \<open>simp_all add: reader_step_def\<close>)

section \<open>The write task keeps the invariant\<close>

lemma writer_step_inv:
  assumes "sess_inv s" "br = FromOpenReqs \<Longrightarrow> new_stream_id None (se_mgr s) \<notin> fst ` set (streams (se_mgr s))"
  shows "sess_inv (writer_step M Q K w br s)"
proof (cases "wr_pc s")
  case WSelect
  show ?thesis
  proof (cases br)
    case (FromManager order)
    obtain r m h where p: "manager_poll_next M w order (se_mgr s) (se_heap s) = (r, m, h)" by (metis surj_pair)
    with poll_next_inv [OF _ p] assms(1) WSelect FromManager show ?thesis
      by (auto simp: writer_step_def writer_manager_branch_def sess_inv_def split: poll.splits option.splits)
  next
    case FromOpenReqs
    obtain r q where p: "rx_poll_next Q w (se_open s) = (r, q)" by (metis surj_pair)
    obtain req stream h1 where o: "open_req_create M (se_window s) True (se_heap s) = ((req, stream), h1)"
      by (metis surj_pair)
    obtain res m h2 where c: "create_stream M None req (se_mgr s) h1 = (res, m, h2)" by (metis surj_pair)
    have "mgr_inv m" using create_stream_inv [OF _ c] assms FromOpenReqs by (simp add: sess_inv_def)
    moreover have "r \<noteq> Panicked"
      using fifo_chan.no_panic(4) [OF open_chan, of w "se_open s"] p by simp
    ultimately show ?thesis
      using assms(1) WSelect FromOpenReqs
      by (auto simp: writer_step_def writer_open_branch_def p o c Let_def sess_inv_def split: poll.splits option.splits)
  qed
next
  case (WSend st g)
  obtain r st' io where p: "sink_send_poll K w st (wr_io s) = (r, st', io)" by (metis surj_pair)
  with sink_send_no_panic [OF sink p] assms(1) WSend show ?thesis
    by (auto simp: writer_step_def sess_inv_def split: poll.splits sum.splits)
qed (use assms(1) in \<open>simp_all add: writer_step_def sess_inv_def\<close>)

lemma sess_step_inv:
  assumes "sess_step M A Q K s t" "sess_inv s"
  shows "sess_inv t"
  using assms
proof (induction rule: sess_step.induct)
  case (read_frame s f w)
  then show ?case by (intro reader_step_inv [of _ _ f]) auto
next
  case (user_open w d resp pc s r pc' s')
  then show ?case
    by (auto simp: mux_open_poll_def sess_inv_def split: open_pc.splits poll.splits sum.splits prod.splits
        option.splits if_splits)
next
  case (user_close w st s r st' s')
  then show ?case
    by (auto simp: mux_close_poll_def sess_inv_def Let_def split: poll.splits sum.splits prod.splits)
next
  case (read_end incoming s w)
  then show ?case by (intro reader_step_inv) auto
next
  case (read_on s w incoming)
  then show ?case by (intro reader_step_inv) auto
next
  case (write_frame s w order)
  then show ?case by (intro writer_step_inv) auto
next
  case (write_open s w)
  then show ?case by (intro writer_step_inv) auto
qed (auto simp: sess_inv_def mux_accept_def split: prod.splits)

lemma sess_init_inv: "sess_init M A Q s \<Longrightarrow> sess_inv s"
proof -
  assume "sess_init M A Q s"
  then obtain io h b where s: "s = session_start M A Q io h b" by (auto simp: sess_init_def)
  obtain m h1 where m: "manager_new M (sb_stream_limit b) (sb_client b) h = (m, h1)" by fastforce
  then have "mgr_init M (m, h1)" by (auto simp: mgr_init_def) (metis m)
  then have "mgr_inv m" using manager_new_inv by fastforce
  then show "sess_inv s" by (simp add: s session_start_def m sess_inv_def reader_ok_def)
qed

sublocale session: machine_inv "sess_init M A Q" "sess_step M A Q K" sess_inv
  by unfold_locales (auto intro: sess_init_inv sess_step_inv)

lemmas session_reach = session.inv_reach

end

lemma framed_sink_total: "sink_total (framed_sink B)"
  by (simp add: sink_total_def framed_sink_def split: prod.splits)

interpretation bounded_session: session_env bounded_mpsc bc_queue bounded_mpsc bc_queue bounded_mpsc bc_queue
    "framed_sink std_buf"
  by unfold_locales (rule framed_sink_total)

section \<open>Properties of a session\<close>


definition demo_session ::
  "(frame bounded_chan, mux_stream bounded_chan, nat bounded_chan, framed_io) session" where
  "demo_session = session_start bounded_mpsc bounded_mpsc bounded_mpsc \<lparr>fr_buf = [], fr_wire = []\<rparr>
     \<lparr>chans = (\<lambda>_. mk_chan bounded_mpsc 0), codes = (\<lambda>_. 0), heap_next = 0, woken = []\<rparr>
     (builder_stream_limit 1 builder_new)"


text \<open>
  A GOAWAY whose header the codec rejects (a stream identifier that is not
  zero, or a length below eight) is decoded to an \<open>Invalid\<close> body under a
  GOAWAY header, and makes the read task panic at its \<open>unreachable!()\<close>.
\<close>

theorem malformed_goaway_panics:
  assumes "be_buf B" "decode_frame B hdr bs = Some f" "hdr_typ hdr = HGoAway"
    "validate_header hdr = Err e" "\<not> flags_contains (hdr_flags hdr) SYN" "rd_pc s = RNext"
  shows "rd_pc (reader_step M A w (Ok (Some f)) s) = RPanicked"
proof -
  have f: "f = \<lparr>frame_header = hdr, frame_body = Invalid e bs\<rparr>"
    using assms(2,4) by (simp add: decode_frame_def)
  then have "\<not> is_syn f" using assms(5) by (simp add: is_syn_def)
  with f assms(3,6) show ?thesis
    by (simp add: reader_step_def reader_frame_def reader_dispatch_def Let_def)
qed

definition bad_goaway :: header where
  "bad_goaway = \<lparr>hdr_length = 0, hdr_typ = HGoAway, hdr_flags = 0, hdr_stream_id = 0\<rparr>"

theorem malformed_goaway_panics_witness:
  "rd_pc (reader_step bounded_mpsc bounded_mpsc 0
     (Ok (Some \<lparr>frame_header = bad_goaway, frame_body = Invalid (InvMinLength 8 0) []\<rparr>)) demo_session) = RPanicked"
proof -
  have "validate_header bad_goaway = Err (InvMinLength 8 0)"
    by (simp add: bad_goaway_def validate_defs)
  then show ?thesis
    by (intro malformed_goaway_panics [OF std_buf.be_buf_axioms, of bad_goaway "[]"])
      (simp_all add: decode_frame_def bad_goaway_def flag_defs demo_session_def session_start_def
        manager_new_def new_chan_def Let_def)
qed

text \<open>
  When the stream limit is reached, a remote that opens one more stream ends
  the read task for good, with no reset and no GOAWAY handed to the write task: the
  session reads no further frame on any stream.
\<close>

theorem syn_over_limit_ends_reading:
  assumes "rd_pc s = RNext" "is_syn f" "length (streams (se_mgr s)) = stream_limit (se_mgr s)"
  shows "rd_pc (reader_step M A w (Ok (Some f)) s) = RDone SessionClosed \<and>
    se_mgr (reader_step M A w (Ok (Some f)) s) = se_mgr s \<and>
    reader_step M A w2 incoming (reader_step M A w (Ok (Some f)) s) = reader_step M A w (Ok (Some f)) s"
proof -
  obtain req stream h1 where o: "open_req_create M (se_window s) False (se_heap s) = ((req, stream), h1)"
    by (metis surj_pair)
  obtain r m h2 where c: "create_stream M (Some (hdr_stream_id (frame_header f))) req (se_mgr s) h1 = (r, m, h2)"
    by (metis surj_pair)
  have "r = Err StreamsExhausted" "m = se_mgr s"
    using create_stream_full [OF assms(3) c] .
  then have "reader_step M A w (Ok (Some f)) s = reader_finish M (s\<lparr>se_heap := h2\<rparr>)"
    using assms by (simp add: reader_step_def reader_frame_def o c)
  then show ?thesis
    by (simp add: reader_finish_def reader_step_def)
qed

theorem syn_over_limit_ends_reading_witness:
  "rd_pc (reader_step bounded_mpsc bounded_mpsc 0 (Ok (Some (frame_syn (demo_frame [1]))))
     (demo_session\<lparr>se_mgr := put_stream 2 demo_handle (se_mgr demo_session)\<rparr>)) = RDone SessionClosed"
proof -
  have "length (streams (put_stream 2 demo_handle (se_mgr demo_session))) =
      stream_limit (put_stream 2 demo_handle (se_mgr demo_session))" "rd_pc demo_session = RNext"
    by (simp_all add: demo_session_def session_start_def manager_new_def new_chan_def Let_def
        builder_stream_limit_def builder_new_def put_stream_def)
  then show ?thesis
    using syn_over_limit_ends_reading [of "demo_session\<lparr>se_mgr := put_stream 2 demo_handle (se_mgr demo_session)\<rparr>"
        "frame_syn (demo_frame [1])"] by simp
qed

text \<open>
  Closing a session with a message shorter than eight bytes, the empty message
  included, puts no GOAWAY on the wire: the write task takes the frame, the encoder
  refuses it, and the task ends with an error.
\<close>

theorem short_close_sends_nothing:
  assumes "frame_chan M contents" "be_buf B" "wr_pc s = WSelect" "\<not> se_terminated s"
    "\<not> gone_away (se_mgr s)" "contents (chans (se_heap s) (sys_rx (se_mgr s))) = frame_goaway 0 e msg # rest"
    "length msg < 8"
    "t = writer_step M Q (framed_sink B) w FromOpenReqs
           (writer_step M Q (framed_sink B) w (FromManager order) s)"
  shows "wr_pc t = WDone (Err SessionClosed) \<and> wr_io t = wr_io s"
proof -
  let ?h = "se_heap s" and ?m = "se_mgr s"
  have b: "frame_body (frame_goaway 0 e msg) = GoAway 0 e msg" "hdr_typ (frame_header (frame_goaway 0 e msg)) = HGoAway"
    using goaway_header [of msg 0 e] assms(7) by simp_all
  obtain c where c: "rx_poll_next M w (chans ?h (sys_rx ?m)) = (Ready (Some (frame_goaway 0 e msg)), c)"
    using fifo_chan.contents_next_cases [OF frame_chan.axioms [OF assms(1)], of "chans ?h (sys_rx ?m)" w] assms(6)
    by (cases "rx_poll_next M w (chans ?h (sys_rx ?m))") (auto split: poll.splits option.splits)
  define f where "f = (frame_goaway 0 e msg)\<lparr>frame_body := GoAway (last_remote_id ?m) e msg\<rparr>"
  obtain r m' h' where p0: "manager_poll_next M w order ?m ?h = (r, m', h')" by (metis surj_pair)
  have "fst (manager_poll_next M w order ?m ?h) = Ready (Some f)"
    using assms(5) by (simp add: manager_poll_next_def on_chan_def c b f_def Let_def split_beta)
  with p0 have p: "manager_poll_next M w order ?m ?h = (Ready (Some f), m', h')" by simp
  define s1 where "s1 = s\<lparr>se_mgr := m', se_heap := h', wr_pc := WSend (SendItem f) True\<rparr>"
  have s1: "writer_step M Q (framed_sink B) w (FromManager order) s = s1"
    using assms(3,4) b by (simp add: writer_step_def writer_manager_branch_def p s1_def f_def)
  have "codec_encode B f buf = (Err (invalid_header_to_io (InvMinLength 8 (as_u32 (length msg)))), buf)" for buf
    using goaway_validate [of msg 0 e] assms(7) by (simp add: codec_encode_def f_def)
  then have "sink_send_poll (framed_sink B) w (SendItem f) (wr_io s) =
      (Ready (Err (invalid_header_to_io (InvMinLength 8 (as_u32 (length msg))))), SendItem f, wr_io s)"
    by (simp add: sink_send_poll_def framed_sink_def)
  then show ?thesis
    unfolding assms(8) s1 by (simp add: writer_step_def s1_def)
qed

theorem short_close_sends_nothing_witness:
  "wr_pc (writer_step bounded_mpsc bounded_mpsc (framed_sink std_buf) 0 FromOpenReqs
     (writer_step bounded_mpsc bounded_mpsc (framed_sink std_buf) 0 (FromManager [])
       (demo_session\<lparr>se_heap := set_chan 0
          (snd (tx_start_send bounded_mpsc (frame_goaway 0 NoError []) (chans (se_heap demo_session) 0))) (se_heap demo_session)\<rparr>)))
   = WDone (Err SessionClosed)"
proof -
  let ?s = "demo_session\<lparr>se_heap := set_chan 0
          (snd (tx_start_send bounded_mpsc (frame_goaway 0 NoError []) (chans (se_heap demo_session) 0))) (se_heap demo_session)\<rparr>"
  have "wr_pc ?s = WSelect" "\<not> se_terminated ?s" "\<not> gone_away (se_mgr ?s)"
    "bc_queue (chans (se_heap ?s) (sys_rx (se_mgr ?s))) = [frame_goaway 0 NoError []]"
    by (simp_all add: demo_session_def session_start_def manager_new_def new_chan_def Let_def bounded_mpsc_def)
  from short_close_sends_nothing [OF bounded_frames.frame_chan_axioms std_buf.be_buf_axioms this _ refl] show ?thesis
    by simp
qed

end
