(* ===== verification/Flow_Control.thy ===== *)
theory Flow_Control
  imports Stream_Props Mux_Session Manager_Props
begin

text \<open>
  Flow control from end to end, over the model's own operations: a stream that
  writes on one side of the connection; on the other side the manager that receives
  its frames, the stream they are delivered to, and the window increments that
  travel back; and the shutdown of the writer, with the FIN it sends. A sender that
  follows its window is never reset for a flow-control violation.
\<close>

section \<open>The link\<close>

text \<open>
  The sending stream with its heap, the frames on their way, the delivery the
  receiving session is working on with the flag its read task keeps beside it, its
  manager, stream and heap, the frames on
  their way back, and the error a delivery ended with. Three histories observe the link:
  the bytes the writer was told are written, the bytes the reader was given, and
  whether the writer was told that the stream is shut down.
\<close>

record 'c link =
  lk_s :: mux_stream
  lk_sh :: "'c heap"
  lk_wire :: "frame list"
  lk_fut :: "send_fut option"
  lk_close :: bool
  lk_m :: stream_manager
  lk_r :: mux_stream
  lk_rh :: "'c heap"
  lk_back :: "frame list"
  lk_err :: "mux_error option"
  lk_sent :: bytes
  lk_got :: bytes
  lk_shut :: bool

fun written :: "(io_error, usize) result poll \<Rightarrow> bytes \<Rightarrow> bytes" where
  "written (Ready (Inr n)) buf = take n buf"
| "written _ buf = []"

abbreviation sink_of :: "mux_stream \<Rightarrow> nat" where
  "sink_of s \<equiv> snd_sink (st_fout s)"

inductive link_step :: "(frame, 'c) mpsc \<Rightarrow> u32 \<Rightarrow> 'c link \<Rightarrow> 'c link \<Rightarrow> bool" for M sid where
  sender_writes: "poll_write M w buf (lk_s l) (lk_sh l) = Some (r, s', h')
    \<Longrightarrow> link_step M sid l (l\<lparr>lk_s := s', lk_sh := h', lk_sent := lk_sent l @ written r buf\<rparr>)"
| sender_shuts: "poll_shutdown M w (lk_s l) (lk_sh l) = (r, s', h')
    \<Longrightarrow> link_step M sid l (l\<lparr>lk_s := s', lk_sh := h', lk_shut := lk_shut l \<or> r = Ready (Ok ())\<rparr>)"
| transmit: "rx_poll_next M w (chans (lk_sh l) (sink_of (lk_s l))) = (Ready (Some f), c)
    \<Longrightarrow> link_step M sid l (l\<lparr>lk_sh := set_chan (sink_of (lk_s l)) c (lk_sh l),
          lk_wire := lk_wire l @ [frame_stream_id sid f]\<rparr>)"
| arrive: "lk_fut l = None \<Longrightarrow> lk_wire l = f # rest \<Longrightarrow> send_to_stream_start f = Ok k
    \<Longrightarrow> link_step M sid l (l\<lparr>lk_wire := rest, lk_fut := Some k, lk_close := is_fin f\<rparr>)"
| deliver: "lk_fut l = Some k \<Longrightarrow> lk_err l = None
    \<Longrightarrow> send_to_stream_poll M w k (lk_m l) (lk_rh l) = (r, k', m', h')
    \<Longrightarrow> link_step M sid l (l\<lparr>lk_m := (if r = Ready (Ok ()) then frame_delivered (lk_close l) sid m' else m'), lk_rh := h',
          lk_fut := (if r = Pending then Some k' else None),
          lk_err := (case r of Ready (Inl e) \<Rightarrow> Some e | _ \<Rightarrow> None)\<rparr>)"
| receiver_reads: "poll_read M w room (lk_r l) (lk_rh l) = Some (r, out, s', h')
    \<Longrightarrow> link_step M sid l (l\<lparr>lk_r := s', lk_rh := h', lk_got := lk_got l @ out\<rparr>)"
| forward: "lk_err l = None \<Longrightarrow> rx_poll_next M w (chans (lk_rh l) (sink_of (lk_r l))) = (Ready (Some f), c)
    \<Longrightarrow> handle_task_item M w sid (Some f) (sink_of (lk_r l)) (lk_m l) (set_chan (sink_of (lk_r l)) c (lk_rh l))
        = (Ready (Some f'), m', h')
    \<Longrightarrow> link_step M sid l (l\<lparr>lk_m := m', lk_rh := h', lk_back := lk_back l @ [f']\<rparr>)"
| credit: "lk_back l = f # rest \<Longrightarrow> tx_start_send M f (chans (lk_sh l) (st_fin (lk_s l))) = (Ok (), c)
    \<Longrightarrow> link_step M sid l (l\<lparr>lk_sh := set_chan (st_fin (lk_s l)) c (lk_sh l), lk_back := rest\<rparr>)"

section \<open>Counting bytes and increments\<close>

definition blen :: "frame list \<Rightarrow> nat" where
  "blen fs = length (data_of fs)"

definition incs :: "frame list \<Rightarrow> nat" where
  "incs fs = sum_list (map frame_inc fs)"

lemma blen_simps [simp]:
  "blen [] = 0" "blen (f # fs) = length (frame_data f) + blen fs" "blen (fs @ gs) = blen fs + blen gs"
  by (simp_all add: blen_def)

lemma incs_simps [simp]:
  "incs [] = 0" "incs (f # fs) = frame_inc f + incs fs" "incs (fs @ gs) = incs fs + incs gs"
  by (simp_all add: incs_def)

definition plain_data :: "frame \<Rightarrow> bool" where
  "plain_data f \<longleftrightarrow> (\<exists>bs. frame_body f = Data bs \<and> (is_fin f \<longrightarrow> bs = [])) \<and> hdr_typ (frame_header f) = HData"

definition plain_inc :: "frame \<Rightarrow> bool" where
  "plain_inc f \<longleftrightarrow> (\<exists>i. frame_body f = WndInc i \<and> i \<le> WNDINC_MAX) \<and> hdr_typ (frame_header f) = HWndInc"

lemma plain_stream_frame: "plain_data f \<Longrightarrow> stream_frame f" "plain_inc f \<Longrightarrow> stream_frame f"
  by (auto simp: plain_data_def plain_inc_def)

lemma plain_inc_data: "plain_inc f \<Longrightarrow> frame_data f = []"
  by (auto simp: plain_inc_def)

lemma plain_inc_small: "plain_inc f \<Longrightarrow> frame_inc f < 2 ^ 31"
  by (auto simp: plain_inc_def WNDINC_MAX_def word_le_nat_alt)

lemma frame_stream_id_keeps [simp]:
  "frame_body (frame_stream_id i f) = frame_body f" "hdr_typ (frame_header (frame_stream_id i f)) = hdr_typ (frame_header f)"
  "hdr_stream_id (frame_header (frame_stream_id i f)) = i" "is_fin (frame_stream_id i f) = is_fin f"
  by (simp_all add: frame_stream_id_def is_fin_def)

lemma plain_stream_id [simp]:
  "plain_data (frame_stream_id i f) = plain_data f" "plain_inc (frame_stream_id i f) = plain_inc f"
  by (simp_all add: plain_data_def plain_inc_def)

lemma plain_data_frame: "plain_data (data_frame syn bs)" "\<not> is_fin (data_frame syn bs)"
  by (auto simp: plain_data_def data_frame_def frame_syn_def frame_from_body_def Let_def is_fin_def
      header_default_def flag_defs)

lemma plain_fin_frame: "plain_data (frame_fin (frame_from_body (Data [])))"
  "is_fin (frame_fin (frame_from_body (Data [])))" "frame_data (frame_fin (frame_from_body (Data []))) = []"
  by (simp_all add: plain_data_def frame_fin_def frame_from_body_def Let_def is_fin_def header_default_def flag_defs)

lemma plain_wndinc_frame: "n \<le> unat WNDINC_MAX \<Longrightarrow> plain_inc (frame_from_body (WndInc (as_u32 n)))"
  by (simp add: plain_inc_def frame_from_body_def Let_def word_le_nat_alt unat_as_u32 WNDINC_MAX_def)

lemma frame_inc_wndinc: "n \<le> unat WNDINC_MAX \<Longrightarrow> frame_inc (frame_from_body (WndInc (as_u32 n))) = n"
  by (simp add: frame_from_body_def Let_def unat_as_u32 WNDINC_MAX_def)

lemma frame_data_data_frame:
  "n \<le> unat LENGTH_MAX \<Longrightarrow> length (frame_data (data_frame syn (take n bs))) = min n (length bs)"
  by (simp add: data_frame_def frame_syn_def frame_from_body_def Let_def min_def)

lemma frame_data_of_write: "n \<le> unat LENGTH_MAX \<Longrightarrow> frame_data (data_frame syn (take n bs)) = take n bs"
  by (simp add: data_frame_def frame_syn_def frame_from_body_def Let_def min_def)

lemma window_after_capacity:
  assumes "window_inv v" "window_small v" "\<forall>f \<in> set fs. plain_inc f"
    "window_capacity v + incs fs \<le> win_max v"
  shows "window_capacity (window_after fs v) = window_capacity v + incs fs \<and>
    window_inv (window_after fs v) \<and> win_max (window_after fs v) = win_max v"
  using assms
proof (induction fs arbitrary: v)
  case (Cons f fs)
  have "window_capacity (window_inc (frame_inc f) v) = window_capacity v + frame_inc f"
    using capacity_inc [OF Cons.prems(1,2) plain_inc_small, of f] Cons.prems(3,4) by simp
  with Cons.IH [of "window_inc (frame_inc f) v"] Cons.prems show ?case by simp
qed simp

section \<open>The invariant\<close>

text \<open>
  What the sender may still send, with what is on its way in either direction, is
  exactly what the receiving manager allows; and what the manager allows, with what
  the receiving stream holds and has not reported back, is at most the window both
  sides started with.
\<close>

definition fut_left :: "send_fut option \<Rightarrow> nat" where
  "fut_left k = (case k of None \<Rightarrow> 0 | Some k \<Rightarrow> sf_shrink k)"

definition fut_held :: "send_fut option \<Rightarrow> nat" where
  "fut_held k = (case k of None \<Rightarrow> 0 | Some k \<Rightarrow> length (frame_data (the (sf_frame k))) - sf_shrink k)"

definition fut_ok :: "u32 \<Rightarrow> send_fut option \<Rightarrow> bool" where
  "fut_ok sid k = (case k of None \<Rightarrow> True | Some k \<Rightarrow> sf_id k = sid \<and> sf_typ k = HData \<and>
     (\<exists>f. sf_frame k = Some f \<and> plain_data f \<and> sf_is_fin k = is_fin f \<and> sf_shrink k \<le> length (frame_data f)))"

fun fin_last :: "frame list \<Rightarrow> bool" where
  "fin_last [] \<longleftrightarrow> True"
| "fin_last (f # fs) \<longleftrightarrow> (is_fin f \<longrightarrow> fs = []) \<and> fin_last fs"

lemma fin_last_append [simp]:
  "fin_last (fs @ gs) \<longleftrightarrow> fin_last fs \<and> fin_last gs \<and> (gs = [] \<or> \<not> list_ex is_fin fs)"
  by (induction fs) auto

definition fut_frames :: "send_fut option \<Rightarrow> frame list" where
  "fut_frames k = (case k of None \<Rightarrow> [] | Some k \<Rightarrow> [the (sf_frame k)])"

lemma fut_frames_simps [simp]: "fut_frames None = []" "fut_frames (Some k) = [the (sf_frame k)]"
  by (simp_all add: fut_frames_def)

context frame_chan
begin

definition frames_ok :: "u32 \<Rightarrow> 'c link \<Rightarrow> bool" where
  "frames_ok sid l \<longleftrightarrow>
     (\<forall>f \<in> set (queue (lk_sh l) (sink_of (lk_s l))). plain_data f) \<and>
     (\<forall>f \<in> set (lk_wire l). plain_data f \<and> hdr_stream_id (frame_header f) = sid) \<and>
     (\<forall>f \<in> set (queue (lk_rh l) (st_fin (lk_r l))). plain_data f) \<and>
     (\<forall>f \<in> set (queue (lk_rh l) (sink_of (lk_r l))). plain_inc f) \<and>
     (\<forall>f \<in> set (lk_back l). plain_inc f) \<and>
     (\<forall>f \<in> set (queue (lk_sh l) (st_fin (lk_s l))). plain_inc f) \<and> fut_ok sid (lk_fut l)"

definition shape_ok :: "nat \<Rightarrow> 'c link \<Rightarrow> bool" where
  "shape_ok W l \<longleftrightarrow> sink_of (lk_s l) \<noteq> st_fin (lk_s l) \<and> sink_of (lk_r l) \<noteq> st_fin (lk_r l) \<and>
     window_inv (st_window (lk_s l)) \<and> win_max (st_window (lk_s l)) = W \<and> W < 2 ^ 32 \<and> lk_err l \<noteq> Some FlowControl"

definition in_flight :: "'c link \<Rightarrow> nat" where
  "in_flight l = incs (queue (lk_sh l) (st_fin (lk_s l))) + incs (lk_back l) +
     blen (queue (lk_sh l) (sink_of (lk_s l))) + blen (lk_wire l) + fut_left (lk_fut l)"

definition at_receiver :: "'c link \<Rightarrow> nat" where
  "at_receiver l = fut_held (lk_fut l) + blen (queue (lk_rh l) (st_fin (lk_r l))) + length (read_buf (lk_r l)) +
     incs (queue (lk_rh l) (sink_of (lk_r l)))"

definition credit_ok :: "u32 \<Rightarrow> nat \<Rightarrow> 'c link \<Rightarrow> bool" where
  "credit_ok sid W l \<longleftrightarrow> (\<exists>hdl. get_stream sid (lk_m l) = Ok hdl \<and> to_stream hdl = st_fin (lk_r l) \<and>
     window_capacity (st_window (lk_s l)) + in_flight l = hd_window hdl \<and> hd_window hdl + at_receiver l \<le> W)"

definition link_inv :: "u32 \<Rightarrow> nat \<Rightarrow> 'c link \<Rightarrow> bool" where
  "link_inv sid W l \<longleftrightarrow> shape_ok W l \<and> frames_ok sid l \<and> credit_ok sid W l"

text \<open>
  The FIN is the last frame of the stream: nothing follows it on its way, it is on its
  way only when the writer is closed, and when the receiving handle was closed by it,
  nothing is on its way any more.
\<close>

definition upstream :: "'c link \<Rightarrow> frame list" where
  "upstream l = fut_frames (lk_fut l) @ lk_wire l @ queue (lk_sh l) (sink_of (lk_s l))"

definition fin_ok :: "u32 \<Rightarrow> 'c link \<Rightarrow> bool" where
  "fin_ok sid l \<longleftrightarrow> fin_last (upstream l) \<and> (list_ex is_fin (upstream l) \<longrightarrow> write_closed (lk_s l) \<noteq> None) \<and>
     (\<forall>k. lk_fut l = Some k \<longrightarrow> lk_close l = is_fin (the (sf_frame k))) \<and>
     (\<forall>hdl. get_stream sid (lk_m l) = Ok hdl \<longrightarrow> lk_err l = None \<longrightarrow> data_write_closed hdl \<longrightarrow>
        upstream l = [] \<and> write_closed (lk_s l) \<noteq> None)"

lemmas fin_defs = fin_ok_def upstream_def

lemmas link_defs = link_inv_def shape_ok_def frames_ok_def credit_ok_def in_flight_def at_receiver_def

lemma credit_bounds:
  assumes "link_inv sid W l"
  shows "window_capacity (st_window (lk_s l)) + incs (queue (lk_sh l) (st_fin (lk_s l))) \<le> W"
    "length (read_buf (lk_r l)) + blen (queue (lk_rh l) (st_fin (lk_r l))) < 2 ^ 32"
  using assms by (auto simp: link_defs)

lemma next_frame_effect:
  assumes "rx_poll_next M w (chans h i) = (Ready (Some f), c)"
  shows "queue h i = f # contents c"
  using next_pops [OF assms] .

lemma write_effect:
  assumes "write_closed s = None" "snd_sink (st_fout s) \<noteq> st_fin s"
    "\<forall>f \<in> set (queue h (st_fin s)). stream_frame f" "poll_write M w buf s h = Some (r, s', h')"
  obtains used where "queue h (st_fin s) = used @ queue h' (st_fin s)" "st_fin s' = st_fin s" "st_fout s' = st_fout s"
    "case r of
       Ready (Inr n) \<Rightarrow> n = write_len (window_after used (st_window s)) buf \<and>
         st_window s' = snd (window_dec n (window_after used (st_window s))) \<and>
         queue h' (sink_of s) = queue h (sink_of s) @ [data_frame (needs_syn s) (take n buf)]
     | _ \<Rightarrow> queue h' (sink_of s) = queue h (sink_of s) \<and> st_window s' = window_after used (st_window s)"
  using write_post [OF assms(1-3), of w buf] assms(4)
  by (cases r rule: poll_result_cases) auto

lemma write_step:
  assumes inv: "link_inv sid W l" and p: "poll_write M w buf (lk_s l) (lk_sh l) = Some (r, s', h')"
  shows "link_inv sid W (l\<lparr>lk_s := s', lk_sh := h', lk_sent := sent\<rparr>)"
proof (cases "write_closed (lk_s l)")
  case (Some code)
  with p have "s' = lk_s l" "h' = lk_sh l" by (auto simp: poll_write_def)
  with inv show ?thesis by (simp add: link_defs)
next
  case None
  let ?s = "lk_s l" and ?h = "lk_sh l"
  have incfr: "\<forall>f \<in> set (queue ?h (st_fin ?s)). plain_inc f" and ne: "sink_of ?s \<noteq> st_fin ?s"
    using inv by (auto simp: link_defs)
  then have sf: "\<forall>f \<in> set (queue ?h (st_fin ?s)). stream_frame f"
    using plain_stream_frame(2) by blast
  obtain used where
    q: "queue ?h (st_fin ?s) = used @ queue h' (st_fin ?s)" and same: "st_fin s' = st_fin ?s" "st_fout s' = st_fout ?s"
    and out: "case r of
       Ready (Inr n) \<Rightarrow> n = write_len (window_after used (st_window ?s)) buf \<and>
         st_window s' = snd (window_dec n (window_after used (st_window ?s))) \<and>
         queue h' (sink_of ?s) = queue ?h (sink_of ?s) @ [data_frame (needs_syn ?s) (take n buf)]
     | _ \<Rightarrow> queue h' (sink_of ?s) = queue ?h (sink_of ?s) \<and> st_window s' = window_after used (st_window ?s)"
    by (rule write_effect [OF None ne sf p])
  have win: "window_capacity (window_after used (st_window ?s)) = window_capacity (st_window ?s) + incs used"
    "window_inv (window_after used (st_window ?s))" "win_max (window_after used (st_window ?s)) = W"
    using window_after_capacity [of "st_window ?s" used] inv incfr q credit_bounds(1) [OF inv]
    by (auto simp: link_defs window_small_def)
  show ?thesis
  proof (cases "\<exists>n. r = Ready (Inr n)")
    case True
    then obtain n where r: "r = Ready (Inr n)" by blast
    define f where "f = data_frame (needs_syn ?s) (take n buf)"
    have n: "n \<le> window_capacity (window_after used (st_window ?s))" "n \<le> length buf" "n \<le> unat LENGTH_MAX"
      using write_len_bounds out r by auto
    have "length (frame_data f) = n" "plain_data f"
      using n plain_data_frame frame_data_data_frame [OF n(3)] by (simp_all add: f_def del: frame_data.simps)
    with inv q same out r win n show ?thesis
      by (auto simp: link_defs ball_Un simp del: frame_data.simps simp flip: f_def)
  next
    case False
    with inv q same out win show ?thesis
      by (simp add: link_defs ball_Un split: poll.splits sum.splits)
  qed
qed

lemma shut_step:
  assumes inv: "link_inv sid W l" and p: "poll_shutdown M w (lk_s l) (lk_sh l) = (r, s', h')"
  shows "link_inv sid W (l\<lparr>lk_s := s', lk_sh := h', lk_shut := shut\<rparr>)"
proof -
  let ?s = "lk_s l" and ?h = "lk_sh l"
  obtain code where s': "s' = ?s\<lparr>write_closed := code\<rparr>" using shutdown_frame(2) [OF p] by blast
  have oth: "queue h' (st_fin ?s) = queue ?h (st_fin ?s)"
    using shutdown_frame(1) [OF p] inv by (auto simp: link_defs sender_frame_def)
  have "queue h' (sink_of ?s) = queue ?h (sink_of ?s) \<or> queue h' (sink_of ?s) = queue ?h (sink_of ?s) @ [fin_frame]"
    using shutdown_post(1) [OF p] by (auto split: if_splits)
  then show ?thesis
    using inv s' oth plain_fin_frame by (auto simp: link_defs)
qed

lemma transmit_step:
  assumes inv: "link_inv sid W l" and p: "rx_poll_next M w (chans (lk_sh l) (sink_of (lk_s l))) = (Ready (Some f), c)"
  shows "link_inv sid W (l\<lparr>lk_sh := set_chan (sink_of (lk_s l)) c (lk_sh l),
    lk_wire := lk_wire l @ [frame_stream_id sid f]\<rparr>)"
  using inv next_frame_effect [OF p]
  by (auto simp: link_defs)

lemma arrive_step:
  assumes inv: "link_inv sid W l" and w: "lk_fut l = None" "lk_wire l = f # rest" "send_to_stream_start f = Ok k"
  shows "link_inv sid W (l\<lparr>lk_wire := rest, lk_fut := Some k, lk_close := close\<rparr>)" "sf_frame k = Some f"
proof -
  have f: "plain_data f" "hdr_stream_id (frame_header f) = sid" using inv w(2) by (auto simp: link_defs)
  then obtain bs where bs: "frame_body f = Data bs" "hdr_typ (frame_header f) = HData" "is_fin f \<Longrightarrow> bs = []"
    by (auto simp: plain_data_def)
  have k: "k = \<lparr>sf_id = sid, sf_typ = HData, sf_shrink = length bs, sf_is_fin = is_fin f, sf_frame = Some f\<rparr>"
    using send_start_data [OF bs(1,2)] w(3) bs f by auto
  with inv w f bs show "link_inv sid W (l\<lparr>lk_wire := rest, lk_fut := Some k, lk_close := close\<rparr>)"
    by (auto simp: link_defs fut_left_def fut_held_def fut_ok_def)
  show "sf_frame k = Some f" by (simp add: k)
qed

lemma credit_step:
  assumes inv: "link_inv sid W l" and b: "lk_back l = f # rest"
    and p: "tx_start_send M f (chans (lk_sh l) (st_fin (lk_s l))) = (Ok (), c)"
  shows "link_inv sid W (l\<lparr>lk_sh := set_chan (st_fin (lk_s l)) c (lk_sh l), lk_back := rest\<rparr>)"
  using inv b send_appends [OF p] plain_inc_data [of f]
  by (auto simp: link_defs)

lemma read_step:
  assumes inv: "link_inv sid W l" and p: "poll_read M w room (lk_r l) (lk_rh l) = Some (r, out, s', h')"
  shows "link_inv sid W (l\<lparr>lk_r := s', lk_rh := h', lk_got := got\<rparr>)"
proof -
  let ?r = "lk_r l" and ?h = "lk_rh l"
  have ne: "sink_of ?r \<noteq> st_fin ?r" and sf: "\<forall>f \<in> set (queue ?h (st_fin ?r)). stream_frame f"
    using inv plain_stream_frame(1) by (auto simp: link_defs simp del: stream_frame.simps)
  have small: "length (read_buf ?r @ data_of (queue ?h (st_fin ?r))) < 2 ^ 32"
    using credit_bounds(2) [OF inv] by (simp add: blen_def)
  obtain used where sp: "read_spec w room ?r ?h used (poll_read M w room ?r ?h)"
    using read_post [OF ne sf small] by blast
  then have q: "queue ?h (st_fin ?r) = used @ queue h' (st_fin ?r)"
    and b: "read_buf ?r @ data_of used = out @ read_buf s'" and i: "inc_sent ?r (length out) ?h h'"
    and same: "st_fin s' = st_fin ?r" "st_fout s' = st_fout ?r"
    unfolding read_spec_def p by auto
  have len: "length (read_buf ?r) + blen used = length out + length (read_buf s')"
    using arg_cong [OF b, of length] by (simp add: blen_def)
  consider "length out = 0" "queue h' (sink_of ?r) = queue ?h (sink_of ?r)"
    | "queue h' (sink_of ?r) = queue ?h (sink_of ?r) @ [frame_from_body (WndInc (as_u32 (length out)))]"
      "length out \<le> unat WNDINC_MAX"
    | "queue h' (sink_of ?r) = queue ?h (sink_of ?r)"
    using i unfolding inc_sent_def by (auto split: if_splits)
  then show ?thesis
  proof cases
    case 2
    with inv q same len plain_wndinc_frame [OF 2(2)] frame_inc_wndinc [OF 2(2)] show ?thesis
      by (auto simp: link_defs simp del: frame_inc.simps)
  qed (use inv q same len in \<open>auto simp: link_defs\<close>)
qed

lemma frame_delivered_get:
  "get_stream sid m = Ok hdl \<Longrightarrow>
     get_stream sid (frame_delivered b sid m) = Ok (if b then hdl\<lparr>data_write_closed := True\<rparr> else hdl)"
  by (simp add: frame_delivered_def)

text \<open>A poll of the delivery: where the frame is afterwards, and what became of the handle.\<close>

lemma deliver_effect:
  assumes inv: "link_inv sid W l" "fin_ok sid l" and k: "lk_fut l = Some k" "lk_err l = None"
    and p: "send_to_stream_poll M w k (lk_m l) (lk_rh l) = (r, k', m', h')"
  obtains f hdl hdl' where "sf_frame k = Some f" "plain_data f" "sf_shrink k \<le> length (frame_data f)"
    "get_stream sid (lk_m l) = Ok hdl" "to_stream hdl = st_fin (lk_r l)" "sf_shrink k \<le> hd_window hdl"
    "r \<noteq> Panicked" "r \<noteq> Ready (Err FlowControl)"
    "get_stream sid (if r = Ready (Ok ()) then frame_delivered (lk_close l) sid m' else m') = Ok hdl'"
    "to_stream hdl' = st_fin (lk_r l)" "hd_window hdl' = hd_window hdl - sf_shrink k"
    "(\<forall>e. r \<noteq> Ready (Err e)) \<longrightarrow> data_write_closed hdl' = (r = Ready (Ok ()) \<and> is_fin f)"
    "chans h' (sink_of (lk_r l)) = chans (lk_rh l) (sink_of (lk_r l))"
    "r = Pending \<longrightarrow> fut_ok sid (Some k') \<and> sf_frame k' = Some f \<and> sf_shrink k' = 0"
    "queue h' (st_fin (lk_r l)) = queue (lk_rh l) (st_fin (lk_r l)) @ [f] \<and> r = Ready (Ok ()) \<or>
       queue h' (st_fin (lk_r l)) = queue (lk_rh l) (st_fin (lk_r l)) \<and> (r = Ready (Ok ()) \<longrightarrow> is_fin f)"
proof -
  let ?r = "lk_r l" and ?h = "lk_rh l"
  obtain f where kf: "sf_id k = sid" "sf_typ k = HData" "sf_is_fin k = is_fin f" "sf_frame k = Some f" "plain_data f"
      "sf_shrink k \<le> length (frame_data f)"
    using inv(1) k(1) by (auto simp: link_defs fut_ok_def simp del: frame_data.simps)
  then obtain bs where bs: "frame_body f = Data bs" by (auto simp: plain_data_def)
  obtain hdl where hdl: "get_stream sid (lk_m l) = Ok hdl" "to_stream hdl = st_fin ?r"
      "window_capacity (st_window (lk_s l)) + in_flight l = hd_window hdl"
    using inv(1) by (auto simp: link_inv_def credit_ok_def)
  have open_hdl: "\<not> data_write_closed hdl" and close: "lk_close l = is_fin f"
    using inv(2) hdl(1) k kf(4) by (auto simp: fin_defs)
  have le: "sf_shrink k \<le> hd_window hdl"
    using hdl(3) k(1) by (simp add: in_flight_def fut_left_def)
  have "get_stream (sf_id k) (lk_m l) = Ok hdl" using hdl(1) kf(1) by simp
  from send_poll_data [OF kf(2,4) bs this open_hdl le p] obtain hdl1 where
    np: "r \<noteq> Panicked" "r \<noteq> Ready (Err FlowControl)" and m': "m' = put_stream sid hdl1 (lk_m l)"
    and h1: "to_stream hdl1 = st_fin ?r" "hd_window hdl1 = hd_window hdl - sf_shrink k"
      "(\<forall>e. r \<noteq> Ready (Err e)) \<longrightarrow> \<not> data_write_closed hdl1"
    and oth: "\<forall>i. i \<noteq> st_fin ?r \<longrightarrow> chans h' i = chans ?h i"
    and pend: "r = Pending \<longrightarrow> sf_frame k' = Some f \<and> sf_shrink k' = 0 \<and> sf_typ k' = HData \<and> sf_id k' = sid \<and>
      sf_is_fin k' = is_fin f"
    and q: "r = Ready (Ok ()) \<longrightarrow> is_fin f \<and> queue h' (st_fin ?r) = queue ?h (st_fin ?r) \<or>
      queue h' (st_fin ?r) = queue ?h (st_fin ?r) @ [f]"
      "r \<noteq> Ready (Ok ()) \<longrightarrow> queue h' (st_fin ?r) = queue ?h (st_fin ?r)"
    using kf(1,3) hdl(2) by auto
  have g: "get_stream sid m' = Ok hdl1" by (simp add: m')
  define hdl' where "hdl' = (if r = Ready (Ok ()) \<and> is_fin f then hdl1\<lparr>data_write_closed := True\<rparr> else hdl1)"
  have "get_stream sid (if r = Ready (Ok ()) then frame_delivered (lk_close l) sid m' else m') = Ok hdl'"
    using g by (simp add: close frame_delivered_get hdl'_def)
  moreover have "to_stream hdl' = st_fin ?r" "hd_window hdl' = hd_window hdl - sf_shrink k"
      "(\<forall>e. r \<noteq> Ready (Err e)) \<longrightarrow> data_write_closed hdl' = (r = Ready (Ok ()) \<and> is_fin f)"
    using h1 by (auto simp: hdl'_def)
  moreover have "chans h' (sink_of ?r) = chans ?h (sink_of ?r)"
    using oth inv(1) by (auto simp: link_defs)
  moreover have "r = Pending \<longrightarrow> fut_ok sid (Some k') \<and> sf_frame k' = Some f \<and> sf_shrink k' = 0"
    using pend kf(5) by (simp add: fut_ok_def)
  ultimately show thesis
    using that [OF kf(4-6) hdl(1,2) le np] q by blast
qed

lemma deliver_step:
  assumes inv: "link_inv sid W l" "fin_ok sid l" and k: "lk_fut l = Some k" "lk_err l = None"
    and p: "send_to_stream_poll M w k (lk_m l) (lk_rh l) = (r, k', m', h')"
  shows "link_inv sid W (l\<lparr>lk_m := (if r = Ready (Ok ()) then frame_delivered (lk_close l) sid m' else m'), lk_rh := h',
    lk_fut := (if r = Pending then Some k' else None),
    lk_err := (case r of Ready (Inl e) \<Rightarrow> Some e | _ \<Rightarrow> None)\<rparr>)"
proof -
  let ?r = "lk_r l" and ?m2 = "if r = Ready (Ok ()) then frame_delivered (lk_close l) sid m' else m'"
  obtain f hdl hdl' where f: "sf_frame k = Some f" "plain_data f" "sf_shrink k \<le> length (frame_data f)"
    and hdl: "get_stream sid (lk_m l) = Ok hdl" "sf_shrink k \<le> hd_window hdl"
    and np: "r \<noteq> Panicked" "r \<noteq> Ready (Err FlowControl)" and g: "get_stream sid ?m2 = Ok hdl'"
    and h': "to_stream hdl' = st_fin ?r" "hd_window hdl' = hd_window hdl - sf_shrink k"
    and sink: "chans h' (sink_of ?r) = chans (lk_rh l) (sink_of ?r)"
    and pend: "r = Pending \<longrightarrow> fut_ok sid (Some k') \<and> sf_frame k' = Some f \<and> sf_shrink k' = 0"
    and q: "queue h' (st_fin ?r) = queue (lk_rh l) (st_fin ?r) @ [f] \<and> r = Ready (Ok ()) \<or>
       queue h' (st_fin ?r) = queue (lk_rh l) (st_fin ?r) \<and> (r = Ready (Ok ()) \<longrightarrow> is_fin f)"
    by (rule deliver_effect [OF inv k p]) blast
  have cr: "window_capacity (st_window (lk_s l)) + in_flight l = hd_window hdl" "hd_window hdl + at_receiver l \<le> W"
    using inv(1) hdl(1) by (auto simp: link_inv_def credit_ok_def)
  define m2 where "m2 = ?m2"
  have g2: "get_stream sid m2 = Ok hdl'" using g by (simp add: m2_def)
  have noerr: "(case r of Ready (Inl e) \<Rightarrow> Some e | _ \<Rightarrow> None) \<noteq> Some FlowControl"
    using np(2) by (auto split: poll.splits sum.splits)
  have nofin: "is_fin f \<Longrightarrow> frame_data f = []" using f(2) by (auto simp: plain_data_def)
  from q have "link_inv sid W (l\<lparr>lk_m := m2, lk_rh := h', lk_fut := (if r = Pending then Some k' else None),
    lk_err := (case r of Ready (Inl e) \<Rightarrow> Some e | _ \<Rightarrow> None)\<rparr>)"
  proof (elim disjE conjE)
    assume "queue h' (st_fin ?r) = queue (lk_rh l) (st_fin ?r) @ [f]" "r = Ready (Ok ())"
    with inv(1) g2 h' sink f hdl k cr show ?thesis
      by (auto simp: link_defs fut_left_def fut_held_def fut_ok_def simp del: frame_data.simps)
  next
    assume "queue h' (st_fin ?r) = queue (lk_rh l) (st_fin ?r)"
    with inv(1) g2 h' sink f hdl k cr pend noerr nofin show ?thesis
      by (auto simp: link_defs fut_left_def fut_held_def simp del: frame_data.simps) (auto simp: fut_ok_def)
  qed
  then show ?thesis by (simp add: m2_def)
qed

lemma forward_step:
  assumes inv: "link_inv sid W l"
    and p: "rx_poll_next M w (chans (lk_rh l) (sink_of (lk_r l))) = (Ready (Some f), c)"
    and t: "handle_task_item M w sid (Some f) (sink_of (lk_r l)) (lk_m l) (set_chan (sink_of (lk_r l)) c (lk_rh l))
        = (Ready (Some f'), m', h')"
  shows "link_inv sid W (l\<lparr>lk_m := m', lk_rh := h', lk_back := lk_back l @ [f']\<rparr>)"
    "\<exists>old new. get_stream sid (lk_m l) = Ok old \<and> get_stream sid m' = Ok new \<and>
      data_write_closed new = data_write_closed old \<and> hd_window new = hd_window old + frame_inc f"
proof -
  let ?r = "lk_r l" and ?h = "lk_rh l"
  have q: "queue ?h (sink_of ?r) = f # contents c" by (rule next_frame_effect [OF p])
  then have pf: "plain_inc f" using inv by (auto simp: link_defs)
  then obtain i where i: "frame_body f = WndInc i" by (auto simp: plain_inc_def)
  obtain hdl where hdl: "get_stream sid (lk_m l) = Ok hdl" "to_stream hdl = st_fin ?r"
      "window_capacity (st_window (lk_s l)) + in_flight l = hd_window hdl" "hd_window hdl + at_receiver l \<le> W"
    using inv by (auto simp: link_inv_def credit_ok_def)
  have "hd_window hdl + unat i \<le> W"
    using hdl(4) q i by (simp add: at_receiver_def)
  then have add: "usize_add (hd_window hdl) (unat i) = hd_window hdl + unat i"
    using inv by (intro usize_add_exact) (simp add: link_defs)
  define hdl' where "hdl' = (if is_fin f then hdl\<lparr>hd_window := hd_window hdl + unat i, needs_fin := False\<rparr>
    else hdl\<lparr>hd_window := hd_window hdl + unat i\<rparr>)"
  have hdl': "hd_window hdl' = hd_window hdl + unat i" "to_stream hdl' = to_stream hdl"
      "data_write_closed hdl' = data_write_closed hdl"
    by (simp_all add: hdl'_def)
  have r: "f' = frame_stream_id sid f" "m' = push_task sid (sink_of ?r) (put_stream sid hdl' (lk_m l))"
      "h' = set_chan (sink_of ?r) c ?h"
    using t hdl(1) i add
    by (auto simp: handle_task_item_def Let_def hdl'_def split: if_splits prod.splits)
  have g: "get_stream sid m' = Ok hdl'"
    by (simp add: r get_stream_def push_task_def update_conv)
  with inv hdl hdl' q i pf r show "link_inv sid W (l\<lparr>lk_m := m', lk_rh := h', lk_back := lk_back l @ [f']\<rparr>)"
    by (auto simp: link_defs simp del: frame_data.simps)
  from g hdl(1) hdl'(1,3) i show "\<exists>old new. get_stream sid (lk_m l) = Ok old \<and> get_stream sid m' = Ok new \<and>
      data_write_closed new = data_write_closed old \<and> hd_window new = hd_window old + frame_inc f" by simp
qed

lemma forward_heap:
  assumes "link_inv sid W l" "handle_task_item M w sid (Some f) i (lk_m l) h = (Ready (Some f'), m', h')"
  shows "h' = h"
proof -
  obtain hdl where "get_stream sid (lk_m l) = Ok hdl"
    using assms(1) by (auto simp: link_inv_def credit_ok_def)
  then show ?thesis
    using assms(2) by (auto simp: handle_task_item_def Let_def split: if_splits prod.splits)
qed

text \<open>What a write adds to the sink: nothing, or a data frame with the bytes it reports.\<close>

lemma write_adds:
  assumes "sink_of s \<noteq> st_fin s" "\<forall>f \<in> set (queue h (st_fin s)). stream_frame f"
    "poll_write M w buf s h = Some (r, s', h')"
  obtains fs used where "queue h' (sink_of s') = queue h (sink_of s) @ fs" "st_fout s' = st_fout s"
    "data_of fs = written r buf" "\<forall>f \<in> set fs. \<exists>syn bs. f = data_frame syn bs"
    "fs \<noteq> [] \<longrightarrow> write_closed s = None" "write_closed s \<noteq> None \<longrightarrow> s' = s \<and> h' = h"
    "queue h (st_fin s) = used @ queue h' (st_fin s)" "st_fin s' = st_fin s"
proof (cases "write_closed s")
  case (Some code)
  with assms(3) have "s' = s" "h' = h" "written r buf = []" by (auto simp: poll_write_def)
  with Some show thesis by (intro that [of "[]" "[]"]) simp_all
next
  case None
  obtain used where same: "queue h (st_fin s) = used @ queue h' (st_fin s)" "st_fin s' = st_fin s" "st_fout s' = st_fout s"
    and out: "case r of
       Ready (Inr n) \<Rightarrow> n = write_len (window_after used (st_window s)) buf \<and>
         st_window s' = snd (window_dec n (window_after used (st_window s))) \<and>
         queue h' (sink_of s) = queue h (sink_of s) @ [data_frame (needs_syn s) (take n buf)]
     | _ \<Rightarrow> queue h' (sink_of s) = queue h (sink_of s) \<and> st_window s' = window_after used (st_window s)"
    using write_effect [OF None assms] by blast
  show thesis
  proof (cases "\<exists>n. r = Ready (Inr n)")
    case True
    then obtain n where n: "r = Ready (Inr n)" by blast
    with out have "n \<le> unat LENGTH_MAX" using write_len_bounds(3) by simp
    with out same n None that [of "[data_frame (needs_syn s) (take n buf)]" used] show thesis
      by (auto simp: frame_data_of_write simp del: frame_data.simps)
  next
    case False
    with out same None that [of "[]" used] show thesis by (auto split: poll.splits sum.splits)
  qed
qed

lemma write_grows:
  assumes "link_inv sid W l" "poll_write M w buf (lk_s l) (lk_sh l) = Some (r, s', h')"
  obtains fs where "queue h' (sink_of s') = queue (lk_sh l) (sink_of (lk_s l)) @ fs" "st_fout s' = st_fout (lk_s l)"
    "data_of fs = written r buf" "\<forall>f \<in> set fs. \<exists>syn bs. f = data_frame syn bs"
    "fs \<noteq> [] \<longrightarrow> write_closed (lk_s l) = None" "write_closed (lk_s l) \<noteq> None \<longrightarrow> s' = lk_s l \<and> h' = lk_sh l"
proof -
  have "sink_of (lk_s l) \<noteq> st_fin (lk_s l)" "\<forall>f \<in> set (queue (lk_sh l) (st_fin (lk_s l))). stream_frame f"
    using assms(1) plain_stream_frame(2) by (auto simp: link_defs simp del: stream_frame.simps)
  then show thesis by (rule write_adds [OF _ _ assms(2)]) (rule that; assumption)
qed

lemma fin_write:
  assumes "link_inv sid W l" "fin_ok sid l" "poll_write M w buf (lk_s l) (lk_sh l) = Some (r, s', h')"
  shows "fin_ok sid (l\<lparr>lk_s := s', lk_sh := h', lk_sent := sent\<rparr>)"
proof -
  obtain fs where fs: "queue h' (sink_of s') = queue (lk_sh l) (sink_of (lk_s l)) @ fs"
      "\<forall>f \<in> set fs. \<exists>syn bs. f = data_frame syn bs" "fs \<noteq> [] \<longrightarrow> write_closed (lk_s l) = None"
      "write_closed (lk_s l) \<noteq> None \<longrightarrow> s' = lk_s l \<and> h' = lk_sh l"
    by (rule write_grows [OF assms(1,3)]) (rule that; assumption)
  have "fin_last fs" "\<not> list_ex is_fin fs"
    using fs(2) plain_data_frame(2) by (induction fs) auto
  with fs assms(2) show ?thesis by (cases "write_closed (lk_s l)") (auto simp: fin_defs)
qed

lemma fin_shut:
  assumes "fin_ok sid l" "poll_shutdown M w (lk_s l) (lk_sh l) = (r, s', h')"
  shows "fin_ok sid (l\<lparr>lk_s := s', lk_sh := h', lk_shut := shut\<rparr>)"
  using assms(1) shutdown_post [OF assms(2)] by (auto simp: fin_defs plain_fin_frame split: if_splits)

lemma fin_transmit:
  assumes "fin_ok sid l" "rx_poll_next M w (chans (lk_sh l) (sink_of (lk_s l))) = (Ready (Some f), c)"
  shows "fin_ok sid (l\<lparr>lk_sh := set_chan (sink_of (lk_s l)) c (lk_sh l), lk_wire := lk_wire l @ [frame_stream_id sid f]\<rparr>)"
  using assms(1) next_frame_effect [OF assms(2)] by (auto simp: fin_defs)

lemma fin_arrive:
  assumes "fin_ok sid l" "lk_fut l = None" "lk_wire l = f # rest" "sf_frame k = Some f"
  shows "fin_ok sid (l\<lparr>lk_wire := rest, lk_fut := Some k, lk_close := is_fin f\<rparr>)"
  using assms by (auto simp: fin_defs)

lemma fin_deliver:
  assumes inv: "link_inv sid W l" "fin_ok sid l" and k: "lk_fut l = Some k" "lk_err l = None"
    and p: "send_to_stream_poll M w k (lk_m l) (lk_rh l) = (r, k', m', h')"
  shows "fin_ok sid (l\<lparr>lk_m := (if r = Ready (Ok ()) then frame_delivered (lk_close l) sid m' else m'), lk_rh := h',
    lk_fut := (if r = Pending then Some k' else None),
    lk_err := (case r of Ready (Inl e) \<Rightarrow> Some e | _ \<Rightarrow> None)\<rparr>)"
proof -
  obtain f hdl' where f: "sf_frame k = Some f" and np: "r \<noteq> Panicked"
    and g: "get_stream sid (if r = Ready (Ok ()) then frame_delivered (lk_close l) sid m' else m') = Ok hdl'"
    and c: "(\<forall>e. r \<noteq> Ready (Err e)) \<longrightarrow> data_write_closed hdl' = (r = Ready (Ok ()) \<and> is_fin f)"
    and pend: "r = Pending \<longrightarrow> fut_ok sid (Some k') \<and> sf_frame k' = Some f \<and> sf_shrink k' = 0"
    by (rule deliver_effect [OF inv k p]) blast
  from np show ?thesis
    using inv(2) k f g c pend by (cases r rule: poll_result_cases) (auto simp: fin_defs)
qed

lemma fin_forward:
  assumes "fin_ok sid l" "get_stream sid (lk_m l) = Ok old" "get_stream sid m' = Ok new"
    "data_write_closed new = data_write_closed old"
  shows "fin_ok sid (l\<lparr>lk_m := m', lk_rh := h', lk_back := back\<rparr>)"
  using assms by (simp add: fin_defs)

lemma fin_credit:
  assumes "link_inv sid W l" "fin_ok sid l"
  shows "fin_ok sid (l\<lparr>lk_sh := set_chan (st_fin (lk_s l)) c (lk_sh l), lk_back := rest\<rparr>)"
  using assms by (auto simp: fin_defs link_defs)

lemma fin_read: "fin_ok sid l \<Longrightarrow> fin_ok sid (l\<lparr>lk_r := s', lk_rh := h', lk_got := got\<rparr>)"
  by (simp add: fin_defs)

definition link_good :: "u32 \<Rightarrow> nat \<Rightarrow> 'c link \<Rightarrow> bool" where
  "link_good sid W l \<longleftrightarrow> link_inv sid W l \<and> fin_ok sid l"

lemma link_step_inv:
  assumes "link_step M sid l l'" "link_good sid W l"
  shows "link_good sid W l'"
proof -
  have inv: "link_inv sid W l" "fin_ok sid l" using assms(2) by (simp_all add: link_good_def)
  from assms(1) show ?thesis
  proof cases
    case (sender_writes w buf r s' h')
    with write_step [OF inv(1)] fin_write [OF inv] show ?thesis by (simp add: link_good_def)
  next
    case (sender_shuts w r s' h')
    with shut_step [OF inv(1)] fin_shut [OF inv(2)] show ?thesis by (simp add: link_good_def)
  next
    case (transmit w f c)
    with transmit_step [OF inv(1)] fin_transmit [OF inv(2)] show ?thesis by (simp add: link_good_def)
  next
    case (arrive f rest k)
    with arrive_step [OF inv(1)] fin_arrive [OF inv(2)] show ?thesis by (simp add: link_good_def)
  next
    case (deliver k w r k' m' h')
    with deliver_step [OF inv] fin_deliver [OF inv] show ?thesis by (simp add: link_good_def)
  next
    case (receiver_reads w room r out s' h')
    with read_step [OF inv(1)] fin_read [OF inv(2)] show ?thesis by (simp add: link_good_def)
  next
    case (forward w f c f' m' h')
    with forward_step [OF inv(1)] fin_forward [OF inv(2)] show ?thesis
      unfolding link_good_def by blast
  next
    case (credit f rest c)
    with credit_step [OF inv(1)] fin_credit [OF inv] show ?thesis by (simp add: link_good_def)
  qed
qed

end

section \<open>The start of a link\<close>

text \<open>
  Both sides create their end with a window of \<open>W\<close> bytes: the sender as a local
  stream, the receiver under the identifier \<open>sid\<close>, which is free.
\<close>

definition link_init :: "(frame, 'c) mpsc \<Rightarrow> u32 \<Rightarrow> nat \<Rightarrow> 'c link \<Rightarrow> bool" where
  "link_init M sid W l \<longleftrightarrow> (\<exists>h0 req1 h1 req2 h2 m.
     open_req_create M W True h0 = ((req1, lk_s l), lk_sh l) \<and>
     open_req_create M W False h1 = ((req2, lk_r l), h2) \<and>
     sid \<notin> fst ` set (streams m) \<and>
     create_stream M (Some sid) req2 m h2 = (Ok sid, lk_m l, lk_rh l) \<and>
     lk_wire l = [] \<and> lk_fut l = None \<and> lk_back l = [] \<and> lk_err l = None \<and> lk_sent l = [] \<and> lk_got l = [] \<and> \<not> lk_shut l)"

context frame_chan
begin

lemma open_req_facts:
  assumes "open_req_create M W syn h = ((req, s), h')"
  shows "sink_of s \<noteq> st_fin s" "st_window s = window_new W" "read_buf s = []"
    "queue h' (sink_of s) = []" "queue h' (st_fin s) = []" "fst (req_channel req) = st_fin s" "req_window req = W"
  using assms
  by (auto simp: open_req_create_def new_chan_def sender_wrap_def new_code_def stream_new_def Let_def
      mk_empty set_chan_def set_code_def)

lemma create_fresh_effect:
  assumes "create_stream M origin req m h = (Ok sid, m', h')" "sid \<notin> fst ` set (streams m)"
  shows "get_stream sid m' = Ok \<lparr>to_stream = fst (req_channel req), sink_closer = req_closer req, needs_fin = True,
      data_write_closed = False, hd_window = req_window req\<rparr>" "chans h' = chans h" "codes h' = codes h"
proof -
  have nl: "length (streams m) \<noteq> stream_limit m"
    using create_stream_full(1) [OF _ assms(1)] by auto
  have sid: "new_stream_id origin m = sid"
    using create_stream_effect(1) [OF nl assms(1)] by simp
  show "get_stream sid m' = Ok \<lparr>to_stream = fst (req_channel req), sink_closer = req_closer req, needs_fin = True,
      data_write_closed = False, hd_window = req_window req\<rparr>"
    using create_stream_effect(2) [OF nl assms(1)] sid by (simp add: get_stream_def update_conv)
  have "map_of (streams m) sid = None" using assms(2) by (simp add: map_of_eq_None_iff)
  then show "chans h' = chans h" "codes h' = codes h"
    using assms(1) nl sid
    by (cases origin; auto simp: create_stream_def Let_def split_beta insert_stream_def put_stream_def push_task_def
        new_stream_id_def split: option.splits)+
qed

lemma link_init_inv:
  assumes "link_init M sid W l" "W < 2 ^ 32"
  shows "link_good sid W l"
proof -
  obtain h0 req1 h1 req2 h2 m where
    i: "open_req_create M W True h0 = ((req1, lk_s l), lk_sh l)"
      "open_req_create M W False h1 = ((req2, lk_r l), h2)" "sid \<notin> fst ` set (streams m)"
      "create_stream M (Some sid) req2 m h2 = (Ok sid, lk_m l, lk_rh l)"
      "lk_wire l = []" "lk_fut l = None" "lk_back l = []" "lk_err l = None"
    using assms(1) by (auto simp: link_init_def)
  note s = open_req_facts [OF i(1)] and r = open_req_facts [OF i(2)] and c = create_fresh_effect [OF i(4,3)]
  show ?thesis
    using i(5-) s r c assms(2)
    by (auto simp: link_good_def link_defs fin_defs fut_left_def fut_held_def fut_ok_def)
qed

lemma link_machine:
  assumes "W < 2 ^ 32" "reach (link_init M sid W) (link_step M sid) l"
  shows "link_good sid W l"
proof -
  have "machine_inv (link_init M sid W) (link_step M sid) (link_good sid W)"
    by unfold_locales (use assms(1) in \<open>auto intro: link_init_inv link_step_inv\<close>)
  from machine_inv.inv_reach [OF this assms(2)] show ?thesis .
qed

end

section \<open>Property of the link\<close>


definition demo_link :: "frame bounded_chan link" where
  "demo_link =
     (let h = snd demo_manager;
          ((req1, s), sh) = open_req_create bounded_mpsc 8 True h;
          ((req2, r), h2) = open_req_create bounded_mpsc 8 False h;
          (_, m, rh) = create_stream bounded_mpsc (Some 5) req2 (fst demo_manager) h2
      in \<lparr>lk_s = s, lk_sh = sh, lk_wire = [], lk_fut = None, lk_close = False, lk_m = m, lk_r = r, lk_rh = rh, lk_back = [], lk_err = None,
          lk_sent = [], lk_got = [], lk_shut = False\<rparr>)"

lemma demo_link_init: "link_init bounded_mpsc 5 8 demo_link"
proof -
  let ?h = "snd demo_manager" and ?m = "fst demo_manager"
  obtain req1 s sh where a: "open_req_create bounded_mpsc 8 True ?h = ((req1, s), sh)" by (metis surj_pair)
  obtain req2 r h2 where b: "open_req_create bounded_mpsc 8 False ?h = ((req2, r), h2)" by (metis surj_pair)
  obtain res m rh where c: "create_stream bounded_mpsc (Some 5) req2 ?m h2 = (res, m, rh)" by (metis surj_pair)
  have e: "streams ?m = []" "stream_limit ?m = 2"
    by (simp_all add: demo_manager_def manager_new_def new_chan_def Let_def)
  have "res = Ok 5"
    using create_stream_effect(1) [OF _ c] e by (simp add: new_stream_id_def)
  then have l: "demo_link = \<lparr>lk_s = s, lk_sh = sh, lk_wire = [], lk_fut = None, lk_close = False, lk_m = m, lk_r = r, lk_rh = rh,
      lk_back = [], lk_err = None, lk_sent = [], lk_got = [], lk_shut = False\<rparr>" and c': "create_stream bounded_mpsc (Some 5) req2 ?m h2 = (Ok 5, m, rh)"
    using a b c by (simp_all add: demo_link_def)
  show ?thesis
    unfolding link_init_def l link.simps
    by (intro exI [of _ ?h] exI [of _ req1] exI [of _ req2] exI [of _ h2] exI [of _ ?m] conjI a b c' refl)
      (simp_all add: e)
qed


end
