(* ===== verification/Delivery.thy ===== *)
theory Delivery
  imports Flow_Control
begin

text \<open>
  What a stream is for: the bytes written at one end are read at the other, in order and
  each once. The histories of the link of \<open>Flow_Control\<close> are related by one equation:
  what was written is what was read, then what the receiving stream has buffered, then
  what is queued for it, being delivered, on the wire, and queued by the sender.
\<close>

definition fut_data :: "send_fut option \<Rightarrow> bytes" where
  "fut_data k = (case k of None \<Rightarrow> [] | Some k \<Rightarrow> frame_data (the (sf_frame k)))"

lemma fut_data_simps [simp]: "fut_data None = []" "fut_data (Some k) = frame_data (the (sf_frame k))"
  by (simp_all add: fut_data_def)

lemma data_of_append [simp]: "data_of (fs @ gs) = data_of fs @ data_of gs"
  by simp

lemma frame_data_stream_id [simp]: "frame_data (frame_stream_id i f) = frame_data f"
  by simp

context frame_chan
begin

definition to_arrive :: "'c link \<Rightarrow> bytes" where
  "to_arrive l = fut_data (lk_fut l) @ data_of (lk_wire l) @ data_of (queue (lk_sh l) (sink_of (lk_s l)))"

definition arrived :: "'c link \<Rightarrow> bytes" where
  "arrived l = read_buf (lk_r l) @ data_of (queue (lk_rh l) (st_fin (lk_r l)))"

text \<open>A delivery that failed loses its bytes, and ends delivery.\<close>

definition data_ok :: "'c link \<Rightarrow> bool" where
  "data_ok l \<longleftrightarrow> (\<exists>lost. (lk_err l = None \<longrightarrow> lost = []) \<and> lk_sent l = lk_got l @ arrived l @ lost @ to_arrive l)"

lemmas data_defs = data_ok_def to_arrive_def arrived_def

lemma data_okI:
  "data_ok l \<Longrightarrow> lk_got l' @ arrived l' = lk_got l @ arrived l \<Longrightarrow> to_arrive l' = to_arrive l \<Longrightarrow> lk_sent l' = lk_sent l
     \<Longrightarrow> lk_err l' = lk_err l \<Longrightarrow> data_ok l'"
  unfolding data_ok_def by (metis append.assoc)

lemma data_write:
  assumes "link_inv sid W l" "data_ok l" "poll_write M w buf (lk_s l) (lk_sh l) = Some (r, s', h')"
  shows "data_ok (l\<lparr>lk_s := s', lk_sh := h', lk_sent := lk_sent l @ written r buf\<rparr>)"
proof -
  obtain fs where "queue h' (sink_of s') = queue (lk_sh l) (sink_of (lk_s l)) @ fs" "data_of fs = written r buf"
    by (rule write_grows [OF assms(1,3)]) (rule that; assumption)
  with assms(2) show ?thesis by (auto simp: data_defs)
qed

lemma data_transmit:
  assumes "data_ok l" "rx_poll_next M w (chans (lk_sh l) (sink_of (lk_s l))) = (Ready (Some f), c)"
  shows "data_ok (l\<lparr>lk_sh := set_chan (sink_of (lk_s l)) c (lk_sh l), lk_wire := lk_wire l @ [frame_stream_id sid f]\<rparr>)"
  using assms(1) next_frame_effect [OF assms(2)] by (auto simp: data_defs)

lemma data_arrive:
  assumes "link_inv sid W l" "data_ok l" "lk_fut l = None" "lk_wire l = f # rest" "send_to_stream_start f = Ok k"
  shows "data_ok (l\<lparr>lk_wire := rest, lk_fut := Some k, lk_close := close\<rparr>)"
  using assms(2-4) arrive_step(2) [OF assms(1,3-5)] by (auto simp: data_defs)

lemma data_read:
  assumes "link_inv sid W l" "data_ok l" "poll_read M w room (lk_r l) (lk_rh l) = Some (r, out, s', h')"
  shows "data_ok (l\<lparr>lk_r := s', lk_rh := h', lk_got := lk_got l @ out\<rparr>)"
proof -
  let ?r = "lk_r l" and ?h = "lk_rh l"
  have ne: "sink_of ?r \<noteq> st_fin ?r" and sf: "\<forall>f \<in> set (queue ?h (st_fin ?r)). stream_frame f"
    using assms(1) plain_stream_frame(1) by (auto simp: link_defs simp del: stream_frame.simps)
  have small: "length (read_buf ?r @ data_of (queue ?h (st_fin ?r))) < 2 ^ 32"
    using credit_bounds(2) [OF assms(1)] by (simp add: blen_def)
  obtain used where "read_spec w room ?r ?h used (poll_read M w room ?r ?h)"
    using read_post [OF ne sf small] by blast
  then have "queue ?h (st_fin ?r) = used @ queue h' (st_fin ?r)" "read_buf ?r @ data_of used = out @ read_buf s'"
      "st_fin s' = st_fin ?r"
    unfolding read_spec_def assms(3) by auto
  then have "arrived l = out @ read_buf s' @ data_of (queue h' (st_fin s'))"
    unfolding arrived_def by (metis append.assoc data_of_append)
  with assms(2) show ?thesis by (intro data_okI [OF assms(2)]) (simp_all add: arrived_def to_arrive_def)
qed

lemma data_deliver:
  assumes "link_inv sid W l" "fin_ok sid l" "data_ok l" "lk_fut l = Some k" "lk_err l = None"
    "send_to_stream_poll M w k (lk_m l) (lk_rh l) = (r, k', m', h')"
  shows "data_ok (l\<lparr>lk_m := m2, lk_rh := h', lk_fut := (if r = Pending then Some k' else None),
    lk_err := (case r of Ready (Inl e) \<Rightarrow> Some e | _ \<Rightarrow> None)\<rparr>)"
proof -
  let ?r = "lk_r l"
  obtain f where f: "sf_frame k = Some f" "plain_data f" and np: "r \<noteq> Panicked"
    and pend: "r = Pending \<longrightarrow> fut_ok sid (Some k') \<and> sf_frame k' = Some f \<and> sf_shrink k' = 0"
    and q: "queue h' (st_fin ?r) = queue (lk_rh l) (st_fin ?r) @ [f] \<and> r = Ready (Ok ()) \<or>
       queue h' (st_fin ?r) = queue (lk_rh l) (st_fin ?r) \<and> (r = Ready (Ok ()) \<longrightarrow> is_fin f)"
    by (rule deliver_effect [OF assms(1,2,4-6)]) blast
  have nofin: "is_fin f \<Longrightarrow> frame_data f = []" using f(2) by (auto simp: plain_data_def)
  from assms(3,5) have e: "lk_sent l = lk_got l @ arrived l @ to_arrive l" by (simp add: data_ok_def)
  from np show ?thesis
    using pend q e assms(4) f(1) nofin
    by (cases r rule: poll_result_cases) (auto simp: data_defs simp del: frame_data.simps)
qed

lemma data_forward:
  assumes "link_inv sid W l" "data_ok l" "lk_err l = None"
    "rx_poll_next M w (chans (lk_rh l) (sink_of (lk_r l))) = (Ready (Some f), c)"
    "handle_task_item M w sid (Some f) (sink_of (lk_r l)) (lk_m l) (set_chan (sink_of (lk_r l)) c (lk_rh l))
        = (Ready (Some f'), m', h')"
  shows "data_ok (l\<lparr>lk_m := m', lk_rh := h', lk_back := lk_back l @ [f']\<rparr>)"
proof -
  have "h' = set_chan (sink_of (lk_r l)) c (lk_rh l)" by (rule forward_heap [OF assms(1,5)])
  moreover have "sink_of (lk_r l) \<noteq> st_fin (lk_r l)" using assms(1) by (simp add: link_defs)
  ultimately show ?thesis by (intro data_okI [OF assms(2)]) (simp_all add: arrived_def to_arrive_def)
qed

lemma data_credit:
  assumes "link_inv sid W l" "data_ok l"
  shows "data_ok (l\<lparr>lk_sh := set_chan (st_fin (lk_s l)) c (lk_sh l), lk_back := rest\<rparr>)"
  using assms(1) by (intro data_okI [OF assms(2)]) (auto simp: arrived_def to_arrive_def link_defs)

lemma data_shut:
  assumes "data_ok l" "poll_shutdown M w (lk_s l) (lk_sh l) = (r, s', h')"
  shows "data_ok (l\<lparr>lk_s := s', lk_sh := h', lk_shut := shut\<rparr>)"
proof -
  have "queue h' (sink_of (lk_s l)) = queue (lk_sh l) (sink_of (lk_s l)) \<or>
      queue h' (sink_of (lk_s l)) = queue (lk_sh l) (sink_of (lk_s l)) @ [fin_frame]"
    using shutdown_post(1) [OF assms(2)] by (auto split: if_splits)
  with assms(1) shutdown_post(2) [OF assms(2)] plain_fin_frame(3) show ?thesis
    by (auto simp: data_defs simp del: frame_data.simps)
qed

lemma data_step:
  assumes "link_step M sid l l'" "link_good sid W l" "data_ok l"
  shows "data_ok l'"
proof -
  have inv: "link_inv sid W l" "fin_ok sid l" using assms(2) by (simp_all add: link_good_def)
  from assms(1) show ?thesis
    by (cases rule: link_step.cases)
      (simp_all add: data_write [OF inv(1) assms(3)] data_shut [OF assms(3)] data_transmit [OF assms(3)]
        data_arrive [OF inv(1) assms(3)] data_deliver [OF inv assms(3), simplified] data_read [OF inv(1) assms(3)]
        data_forward [OF inv(1) assms(3)] data_credit [OF inv(1) assms(3)])
qed

lemma data_init: "link_init M sid W l \<Longrightarrow> data_ok l"
proof -
  assume "link_init M sid W l"
  then obtain h0 req1 h1 req2 h2 m where
    i: "open_req_create M W True h0 = ((req1, lk_s l), lk_sh l)"
      "open_req_create M W False h1 = ((req2, lk_r l), h2)" "sid \<notin> fst ` set (streams m)"
      "create_stream M (Some sid) req2 m h2 = (Ok sid, lk_m l, lk_rh l)"
      "lk_wire l = []" "lk_fut l = None" "lk_err l = None" "lk_sent l = []" "lk_got l = []"
    by (auto simp: link_init_def)
  note s = open_req_facts [OF i(1)] and r = open_req_facts [OF i(2)] and c = create_fresh_effect(2) [OF i(4,3)]
  show "data_ok l" using i(5-) s r c by (simp add: data_defs)
qed

lemma link_data:
  assumes "W < 2 ^ 32" "reach (link_init M sid W) (link_step M sid) l"
  shows "link_good sid W l \<and> data_ok l"
proof -
  have "machine_inv (link_init M sid W) (link_step M sid) (\<lambda>l. link_good sid W l \<and> data_ok l)"
    by unfold_locales (use assms(1) in \<open>auto intro: link_init_inv data_init link_step_inv data_step\<close>)
  from machine_inv.inv_reach [OF this assms(2)] show ?thesis .
qed

lemma nothing_on_the_way:
  "read_buf (lk_r l) = [] \<and> queue (lk_rh l) (st_fin (lk_r l)) = [] \<and> lk_fut l = None \<and> lk_wire l = [] \<and>
     queue (lk_sh l) (sink_of (lk_s l)) = [] \<Longrightarrow> arrived l @ to_arrive l = []"
  by (simp add: arrived_def to_arrive_def)

text \<open>What is on its way is paid for: it fits the window.\<close>

lemma on_the_way:
  assumes "link_inv sid W l" "lk_err l = None"
  shows "length (arrived l @ to_arrive l) \<le> W"
proof -
  have "window_capacity (st_window (lk_s l)) + in_flight l + at_receiver l \<le> W"
    using assms(1) by (auto simp: link_inv_def credit_ok_def)
  moreover have "fut_left (lk_fut l) + fut_held (lk_fut l) = length (fut_data (lk_fut l))"
    using assms(1) by (auto simp: link_defs fut_ok_def fut_left_def fut_held_def split: option.splits)
  ultimately show ?thesis
    by (simp add: in_flight_def at_receiver_def arrived_def to_arrive_def blen_def)
qed

end

section \<open>Property\<close>

text \<open>
  C5. The bytes read at one end of a stream are the bytes written at the other: in every
  interleaving of writing, shutting down, transmission, delivery, reading and the return of credit,
  what the reader was given is a prefix of what the writer was told is written; unless a
  delivery failed, at most a window of bytes is missing from it, and nothing is
  when nothing is buffered, queued, being delivered or on the wire.
\<close>

theorem bytes_delivered_in_order:
  assumes "frame_chan M contents" "W < 2 ^ 32" "reach (link_init M sid W) (link_step M sid) l"
  shows "\<exists>rest. lk_sent l = lk_got l @ rest \<and> (lk_err l = None \<longrightarrow> length rest \<le> W \<and>
    (read_buf (lk_r l) = [] \<and> contents (chans (lk_rh l) (st_fin (lk_r l))) = [] \<and> lk_fut l = None \<and> lk_wire l = [] \<and>
     contents (chans (lk_sh l) (sink_of (lk_s l))) = [] \<longrightarrow> rest = []))"
proof -
  note data = frame_chan.link_data [OF assms]
  note way = frame_chan.on_the_way [OF assms(1) conjunct1 [OF conjunct1 [OF data, unfolded frame_chan.link_good_def [OF assms(1)]]]]
  from conjunct2 [OF data] obtain lost where lost: "lk_err l = None \<longrightarrow> lost = []"
      "lk_sent l = lk_got l @ frame_chan.arrived contents l @ lost @ frame_chan.to_arrive contents l"
    unfolding frame_chan.data_ok_def [OF assms(1)] by (elim exE conjE) (rule that)
  let ?rest = "frame_chan.arrived contents l @ lost @ frame_chan.to_arrive contents l"
  show ?thesis
  proof (rule exI [of _ ?rest], intro conjI impI)
    show "lk_sent l = lk_got l @ ?rest" by (rule lost(2))
    assume e: "lk_err l = None"
    with lost(1) have rest: "?rest = frame_chan.arrived contents l @ frame_chan.to_arrive contents l" by simp
    show "length ?rest \<le> W" unfolding rest by (rule way [OF e])
    assume "read_buf (lk_r l) = [] \<and> contents (chans (lk_rh l) (st_fin (lk_r l))) = [] \<and> lk_fut l = None \<and>
      lk_wire l = [] \<and> contents (chans (lk_sh l) (sink_of (lk_s l))) = []"
    then show "?rest = []" unfolding rest by (rule frame_chan.nothing_on_the_way [OF assms(1)])
  qed
qed

theorem bytes_delivered_in_order_witness:
  "\<exists>r s h rest. poll_write bounded_mpsc 7 [1, 2] (lk_s demo_link) (lk_sh demo_link) = Some (r, s, h) \<and>
    written r [1, 2] = rest \<and> length rest \<le> 8"
proof -
  let ?s = "lk_s demo_link" and ?h = "lk_sh demo_link"
  have r: "reach (link_init bounded_mpsc 5 8) (link_step bounded_mpsc 5) demo_link"
    by (rule reach_init) (rule demo_link_init)
  have i: "bounded_frames.link_inv 5 8 demo_link"
    using bounded_frames.link_init_inv [OF demo_link_init] by (simp add: bounded_frames.link_good_def)
  obtain r s h where w: "poll_write bounded_mpsc 7 [1, 2] ?s ?h = Some (r, s, h)"
  proof (cases "write_closed ?s")
    case (Some code)
    with that show thesis by (auto simp: poll_write_def)
  next
    case None
    have "sink_of ?s \<noteq> st_fin ?s" "\<forall>f \<in> set (bc_queue (chans ?h (st_fin ?s))). stream_frame f"
      using i plain_stream_frame(2) by (auto simp: bounded_frames.link_defs simp del: stream_frame.simps)
    from bounded_frames.write_post [OF None this, of 7 "[1, 2]"] that show thesis by blast
  qed
  have "reach (link_init bounded_mpsc 5 8) (link_step bounded_mpsc 5)
      (demo_link\<lparr>lk_s := s, lk_sh := h, lk_sent := lk_sent demo_link @ written r [1, 2]\<rparr>)"
    using r link_step.sender_writes [OF w] by (rule reach_step)
  from bytes_delivered_in_order [OF bounded_frames.frame_chan_axioms _ this]
  obtain rest where "lk_sent demo_link @ written r [1, 2] = lk_got demo_link @ rest" "lk_err demo_link = None \<longrightarrow> length rest \<le> 8"
    by auto
  moreover have "lk_sent demo_link = []" "lk_got demo_link = []" "lk_err demo_link = None"
    using demo_link_init by (auto simp: link_init_def)
  ultimately show ?thesis using w by auto
qed

end
