(* ===== verification/End_Of_Stream.thy ===== *)
theory End_Of_Stream
  imports Delivery Session_Props
begin

text \<open>
  The end of a stream. While the channels of a link are open, delivery does not fail,
  and the reader is told that the stream is at its end exactly when the writer
  shut it down and every byte was read.
\<close>

section \<open>Open channels\<close>

locale live_chan = frame_chan M contents + open_chan M contents chan_open
  for M :: "(frame, 'c) mpsc" and contents :: "'c \<Rightarrow> frame list" and chan_open :: "'c \<Rightarrow> bool"
begin

text \<open>Taking frames from an open channel ends the read side only by a FIN.\<close>

definition takes_open :: "mux_stream \<Rightarrow> 'c heap \<Rightarrow> mux_stream \<Rightarrow> 'c heap \<Rightarrow> bool" where
  "takes_open s h s' h' \<longleftrightarrow> chan_open (chans h' (st_fin s)) \<and> (\<exists>used. queue h (st_fin s) = used @ queue h' (st_fin s) \<and>
     data_read_closed s' = (data_read_closed s \<or> list_ex is_fin used))"

lemma takes_open_trans:
  assumes "takes_open s h s1 h1" "takes_open s1 h1 s2 h2" "st_fin s1 = st_fin s"
  shows "takes_open s h s2 h2"
proof -
  obtain us where "queue h (st_fin s) = us @ queue h1 (st_fin s)"
      "data_read_closed s1 = (data_read_closed s \<or> list_ex is_fin us)"
    using assms(1) by (auto simp: takes_open_def)
  moreover obtain vs where "queue h1 (st_fin s) = vs @ queue h2 (st_fin s)"
      "data_read_closed s2 = (data_read_closed s1 \<or> list_ex is_fin vs)" "chan_open (chans h2 (st_fin s))"
    using assms(2,3) by (auto simp: takes_open_def)
  ultimately show ?thesis
    unfolding takes_open_def by (intro conjI exI [of _ "us @ vs"]) auto
qed

lemma recv_frame_type_open:
  assumes "\<forall>f \<in> set (queue h (st_fin s)). stream_frame f" "chan_open (chans h (st_fin s))"
    "poll_recv_frame_type M w t s h = Some (r, s', h')"
  shows "takes_open s h s' h' \<and> st_fin s' = st_fin s"
  using assms
proof (induction "queue h (st_fin s)" arbitrary: s h)
  case Nil
  obtain p c where pc: "rx_poll_next M w (chans h (st_fin s)) = (p, c)" by fastforce
  have c: "contents c = []" "chan_open c" "p \<noteq> Ready None"
    using contents_next [of w "chans h (st_fin s)"] next_open [OF pc] Nil(1,3) pc by simp_all
  have "p = Pending"
    using next_Some_iff [of w "chans h (st_fin s)"] no_panic(4) [of w "chans h (st_fin s)"] Nil(1) pc c(3)
    by (cases p) (auto simp: not_None_eq)
  then have "poll_recv_frame_type M w t s h = Some (Pending, s, set_chan (st_fin s) c h)"
    by (subst poll_recv_frame_type.simps) (simp add: poll_recv_frame_def on_chan_def pc)
  with Nil(4) have "s' = s" "h' = set_chan (st_fin s) c h" by auto
  with c Nil(1) show ?case by (auto simp: takes_open_def)
next
  case (Cons f q)
  obtain c where pc: "rx_poll_next M w (chans h (st_fin s)) = (Ready (Some f), c)"
    using contents_next_cases [of "chans h (st_fin s)" w] Cons.hyps(2)
    by (cases "rx_poll_next M w (chans h (st_fin s))") (auto split: poll.splits option.splits)
  then have q: "contents c = q" using next_pops Cons.hyps(2) by fastforce
  have co: "chan_open c" using next_open [OF pc Cons.prems(2)] by simp
  let ?h1 = "set_chan (st_fin s) c h"
  have sf: "stream_frame f" using Cons.prems(1) Cons.hyps(2) by (metis list.set_intros(1))
  obtain h2 where hf: "stream_handle_frame f (Some w) s ?h1 = Some (hdr_typ (frame_header f), absorb [f] s, h2)"
    "chans h2 = chans ?h1"
    using handle_frame_post [OF sf] by blast
  have q2: "queue h2 (st_fin s) = q" by (simp add: hf(2) q)
  have step: "takes_open s h (absorb [f] s) h2"
    using Cons.hyps(2) q2 co hf(2) by (auto simp: takes_open_def intro!: exI [of _ "[f]"])
  have unf: "poll_recv_frame_type M w t s h =
     (if hdr_typ (frame_header f) = t then Some (Ready (Ok ()), absorb [f] s, h2)
      else poll_recv_frame_type M w t (absorb [f] s) h2)"
    by (subst poll_recv_frame_type.simps) (simp add: poll_recv_frame_def on_chan_def pc hf(1))
  show ?case
  proof (cases "hdr_typ (frame_header f) = t")
    case True
    with unf Cons.prems(3) step show ?thesis by simp
  next
    case False
    have "\<forall>g \<in> set (queue h2 (st_fin (absorb [f] s))). stream_frame g"
      using Cons.prems(1) q2 unfolding Cons.hyps(2) [symmetric] by simp
    moreover have "chan_open (chans h2 (st_fin (absorb [f] s)))" using hf(2) co by simp
    moreover have "poll_recv_frame_type M w t (absorb [f] s) h2 = Some (r, s', h')"
      using unf False Cons.prems(3) by simp
    ultimately have "takes_open (absorb [f] s) h2 s' h' \<and> st_fin s' = st_fin (absorb [f] s)"
      by (intro Cons.hyps(1)) (simp_all add: q2)
    with takes_open_trans [OF step] show ?thesis by simp
  qed
qed

lemma read_open:
  assumes "snd_sink (st_fout s) \<noteq> st_fin s" "\<forall>f \<in> set (queue h (st_fin s)). stream_frame f"
    "chan_open (chans h (st_fin s))" "poll_read M w room s h = Some (r, out, s', h')"
  shows "takes_open s h s' h'"
  using assms
proof (induction "length (queue h (st_fin s))" arbitrary: s h rule: less_induct)
  case less
  have refl: "takes_open s h s h1" if "chans h1 (st_fin s) = chans h (st_fin s)" for h1
    using that less.prems(3) by (auto simp: takes_open_def)
  consider (buffered) "read_buf s \<noteq> []" | (eof) "read_buf s = []" "data_read_closed s"
    | (recv) "read_buf s = []" "\<not> data_read_closed s" by blast
  then show ?case
  proof cases
    case buffered
    define n where "n = unat (WndInc_clamp (as_u32 (min (length (read_buf s)) room)))"
    obtain q h1 where ps: "poll_send_wndinc M w (WndInc_clamp (as_u32 (min (length (read_buf s)) room))) s h = (q, h1)"
      by fastforce
    have same: "chans h1 (st_fin s) = chans h (st_fin s)"
      using send_wndinc_post(2) [OF ps] less.prems(1) by (simp add: sender_frame_def)
    have "poll_read M w room s h = (if 0 < n then (case q of Pending \<Rightarrow> Some (Pending, [], s, h1)
        | Panicked \<Rightarrow> Some (Panicked, [], s, h1)
        | Ready _ \<Rightarrow> Some (Ready (Ok ()), take n (read_buf s), s\<lparr>read_buf := drop n (read_buf s)\<rparr>, h1))
      else Some (Ready (Ok ()), [], s, h))"
      using buffered ps by (subst poll_read.simps) (simp add: n_def Let_def split: poll.splits)
    with less.prems(4) have "s' = s \<or> s' = s\<lparr>read_buf := drop n (read_buf s)\<rparr>" "h' = h \<or> h' = h1"
      by (auto split: poll.splits if_splits)
    with less.prems(3) same show ?thesis by (auto simp: takes_open_def)
  next
    case eof
    with less.prems(4) refl [of h] show ?thesis
      by (subst (asm) poll_read.simps) simp
  next
    case recv
    let ?s = "s\<lparr>read_waker := Some w\<rparr>"
    have sp: "recv_spec w HData ?s h (poll_recv_data M w ?s h)"
      unfolding poll_recv_data_def by (rule recv_frame_type_post) (use less.prems in simp)
    then obtain r1 s1 h1 where rv: "poll_recv_data M w ?s h = Some (r1, s1, h1)"
      unfolding recv_spec_def by blast
    have step: "takes_open s h s1 h1" "st_fin s1 = st_fin s"
      using recv_frame_type_open [OF _ _ rv [unfolded poll_recv_data_def]] less.prems by (simp_all add: takes_open_def)
    obtain us closed where us: "s1 = (if closed then (absorb us ?s)\<lparr>data_read_closed := True\<rparr> else absorb us ?s)"
        "queue h (st_fin s) = us @ queue h1 (st_fin s)" "recv_result HData r1 us closed (queue h1 (st_fin s))"
      using sp rv unfolding recv_spec_def by auto
    have unf: "poll_read M w room s h = (case r1 of Pending \<Rightarrow> Some (Pending, [], s1, h1)
        | Panicked \<Rightarrow> Some (Panicked, [], s1, h1) | Ready (Inl e) \<Rightarrow> Some (Ready (Err e), [], s1, h1)
        | Ready (Inr _) \<Rightarrow> poll_read M w room s1 h1)"
      using recv rv by (subst poll_read.simps) (simp add: Let_def)
    show ?thesis
    proof (cases "r1 = Ready (Ok ())")
      case True
      have fout: "st_fout s1 = st_fout s" using us(1) by simp
      have rd: "poll_read M w room s1 h1 = Some (r, out, s', h')" using unf True less.prems(4) by simp
      show ?thesis
      proof (cases "us = []")
        case True
        with us \<open>r1 = Ready (Ok ())\<close> have "data_read_closed s1" "read_buf s1 = []"
          using recv by (auto simp: recv_result_def split: if_splits)
        with rd have "s' = s1" "h' = h1" by (subst (asm) poll_read.simps, simp)+
        with step show ?thesis by simp
      next
        case False
        then have "length (queue h1 (st_fin s1)) < length (queue h (st_fin s))" using us(2) step(2) by simp
        then have "takes_open s1 h1 s' h'"
          by (rule less.hyps) (use less.prems step fout us(2) rd in \<open>auto simp: takes_open_def\<close>)
        with takes_open_trans [OF step(1) _ step(2)] show ?thesis by simp
      qed
    next
      case False
      with unf less.prems(4) us(3) have "s' = s1" "h' = h1"
        using recv_result_ok [OF us(3)] by auto
      with step show ?thesis by simp
    qed
  qed
qed

text \<open>An open channel takes the frame as soon as it has room: the delivery cannot fail.\<close>

lemma handle_data_open:
  assumes "sf_typ k = HData" "\<not> data_write_closed hdl" "sf_frame k = Some f" "frame_body f = Data bs"
    "sf_shrink k \<le> hd_window hdl" "chan_open (chans h (to_stream hdl))"
    "fut_handle_frame M w k hdl h = (r, k', hdl', h')"
  shows "chan_open (chans h' (to_stream hdl)) \<and> codes h' = codes h \<and>
    (r = Pending \<or> r = Ready (Ok ()) \<and> queue h' (to_stream hdl) = queue h (to_stream hdl) @ [f])"
proof -
  obtain p c where pr: "tx_poll_ready M w (chans h (to_stream hdl)) = (p, c)" by fastforce
  obtain q c2 where ps: "tx_start_send M f c = (q, c2)" by fastforce
  have c: "contents c = queue h (to_stream hdl)" "p \<noteq> Panicked" "chan_open c" "\<forall>e. p \<noteq> Ready (Err e)"
    using ready_keeps [OF pr] ready_open [OF pr assms(6)] by auto
  have c2: "chan_open c2" using send_open [OF ps c(3)] .
  from c(2,4) consider "p = Pending" | "p = Ready (Ok ())"
    by (cases p rule: poll_result_cases) auto
  then show ?thesis
  proof cases
    case 1
    then have "r = Pending" "chan_open (chans h' (to_stream hdl))" "codes h' = codes h"
      using assms pr c(3) by (auto simp: fut_handle_frame_def Let_def on_chan_def)
    then show ?thesis by simp
  next
    case 2
    have q: "q = Ok ()" using ready_sends [OF pr [unfolded 2] assms(6) ps] .
    then have "contents c2 = contents c @ [f]" using send_appends ps by simp
    with 2 q assms pr ps c(1) c2 show ?thesis
      by (auto simp: fut_handle_frame_def Let_def on_chan_def)
  qed
qed

text \<open>A writer that is closed with an intact sink sent its FIN.\<close>

lemma write_closed_code:
  assumes "write_closed s = None" "\<forall>f \<in> set (queue h (st_fin s)). stream_frame f"
    "poll_write M w buf s h = Some (r, s', h')" "write_closed s' \<noteq> None"
  shows "codes h' (snd_closer (st_fout s')) \<noteq> 0"
proof -
  have send: "codes h2 (snd_closer (st_fout s2)) \<noteq> 0"
    if "poll_write_send M w buf s1 h1 = (q, s2, h2)" "write_closed s1 = None" "write_closed s2 \<noteq> None" for q s1 h1 s2 h2
    using write_send_spec [of buf s1 h1 w] that by (auto simp: send_spec_def split: poll.splits sum.splits)
  show ?thesis
  proof (cases "window_capacity (st_window s) = 0")
    case False
    with assms send [of s h r s' h'] show ?thesis by (simp add: poll_write_def)
  next
    case True
    let ?s = "s\<lparr>write_waker := Some w\<rparr>"
    have "recv_spec w HWndInc ?s h (poll_recv_wndinc M w ?s h)"
      unfolding poll_recv_wndinc_def by (rule recv_frame_type_post) (use assms(2) in simp)
    then obtain r1 s1 h1 us closed where rv: "poll_recv_wndinc M w ?s h = Some (r1, s1, h1)"
        "recv_result HWndInc r1 us closed (queue h1 (st_fin s))" and "write_closed s1 = None"
      unfolding recv_spec_def using assms(1) by auto
    with assms True send [of s1 h1 r s' h'] recv_result_ok [OF rv(2)] show ?thesis
      by (auto simp: poll_write_def)
  qed
qed

lemma shutdown_code:
  assumes "poll_shutdown M w s h = (r, s', h')"
    "r = Ready (Ok ()) \<or> write_closed s' \<noteq> None \<and> codes h' (snd_closer (st_fout s)) = 0"
  shows "queue h' (snd_sink (st_fout s)) = queue h (snd_sink (st_fout s)) @ [fin_frame] \<or>
    write_closed s \<noteq> None \<and> codes h (snd_closer (st_fout s)) = 0"
proof -
  obtain q h1 where pr: "sender_poll_ready M w (st_fout s) h = (q, h1)" by fastforce
  obtain q2 h2 where ps: "sender_start_send M fin_frame (st_fout s) h1 = (q2, h2)" by fastforce
  obtain q3 h3 where f3: "sender_poll_flush M w (st_fout s) h2 = (q3, h3)" by fastforce
  obtain q4 h4 where f4: "sender_poll_flush M w (st_fout s) h = (q4, h4)" by fastforce
  note e = sender_ready_effect [OF pr] sender_send_effect [OF ps]
  note flush3 = sender_flush_effect [OF f3] and flush4 = sender_flush_effect [OF f4] sender_poll_flush_frame [OF f4]
  show ?thesis
  proof (cases "write_closed s")
    case None
    have "r \<noteq> Ready (Ok ()) \<and> (write_closed s' = None \<or> codes h' (snd_closer (st_fout s)) \<noteq> 0)" if "q \<noteq> Ready (Ok ())"
      using assms(1) that None e(1-4) by (cases q rule: poll_result_cases) (auto simp: poll_shutdown_def pr closed_err_def)
    moreover have "r \<noteq> Ready (Ok ()) \<and> codes h' (snd_closer (st_fout s)) \<noteq> 0" if "q = Ready (Ok ())" "q2 \<noteq> Ok ()"
      using assms(1) that None e(6) [of "projl q2"] by (cases q2) (auto simp: poll_shutdown_def pr ps closed_err_def)
    moreover have "queue h' (snd_sink (st_fout s)) = queue h (snd_sink (st_fout s)) @ [fin_frame]"
      if "q = Ready (Ok ())" "q2 = Ok ()"
    proof -
      have "h' = h3" using assms(1) that None
        by (auto simp: poll_shutdown_def stream_poll_flush_def pr ps f3 closed_err_def split: poll.splits sum.splits)
      then show ?thesis using that e(1,5) flush3(1) by simp
    qed
    ultimately show ?thesis using assms(2) by blast
  next
    case (Some code)
    then have eq: "h' = h4" "r = Ready (Ok ()) \<longrightarrow> q4 = Ready (Ok ())"
      using assms(1) by (auto simp: poll_shutdown_def stream_poll_flush_def f4 closed_err_def split: poll.splits sum.splits)
    have "codes h (snd_closer (st_fout s)) = 0"
      using assms(2) eq flush4(3,5) by (auto simp: sender_frame_def)
    with Some show ?thesis by simp
  qed
qed

section \<open>The invariant\<close>

text \<open>
  No delivery failed. The FIN is the last frame the receiver is given; when it was
  given, or taken, nothing is on its way. A writer that is closed with an intact sink,
  or was told that it is shut down, has its FIN on its way, given or taken.
\<close>

definition fin_sent :: "'c link \<Rightarrow> bool" where
  "fin_sent l \<longleftrightarrow> list_ex is_fin (upstream l) \<or> list_ex is_fin (queue (lk_rh l) (st_fin (lk_r l))) \<or> data_read_closed (lk_r l)"

definition eof_ok :: "'c link \<Rightarrow> bool" where
  "eof_ok l \<longleftrightarrow> chan_open (chans (lk_rh l) (st_fin (lk_r l))) \<and> lk_err l = None \<and>
     fin_last (queue (lk_rh l) (st_fin (lk_r l))) \<and>
     (data_read_closed (lk_r l) \<longrightarrow> queue (lk_rh l) (st_fin (lk_r l)) = []) \<and>
     (list_ex is_fin (queue (lk_rh l) (st_fin (lk_r l))) \<or> data_read_closed (lk_r l) \<longrightarrow>
        upstream l = [] \<and> write_closed (lk_s l) \<noteq> None)"

definition shut_ok :: "'c link \<Rightarrow> bool" where
  "shut_ok l \<longleftrightarrow> (lk_shut l \<or> write_closed (lk_s l) \<noteq> None \<and> codes (lk_sh l) (snd_closer (st_fout (lk_s l))) = 0 \<longrightarrow> fin_sent l)"

lemmas eof_defs = eof_ok_def shut_ok_def fin_sent_def

text \<open>What the writer does: it appends to its sink, or leaves it.\<close>

lemma sink_grows:
  assumes "queue h' (sink_of s') = queue (lk_sh l) (sink_of (lk_s l)) @ fs"
  shows "upstream (l\<lparr>lk_s := s', lk_sh := h', lk_sent := sent, lk_shut := shut\<rparr>) = upstream l @ fs"
  using assms by (simp add: upstream_def)

lemma eof_writer:
  assumes "eof_ok l" "queue h' (sink_of s') = queue (lk_sh l) (sink_of (lk_s l)) @ fs"
    "fs \<noteq> [] \<longrightarrow> write_closed (lk_s l) = None" "write_closed (lk_s l) \<noteq> None \<longrightarrow> write_closed s' \<noteq> None"
  shows "eof_ok (l\<lparr>lk_s := s', lk_sh := h', lk_sent := sent, lk_shut := shut\<rparr>)"
  using assms(1,3,4) sink_grows [OF assms(2), of shut sent] by (auto simp: eof_ok_def)

lemma eof_write:
  assumes "link_inv sid W l" "eof_ok l" "shut_ok l" "poll_write M w buf (lk_s l) (lk_sh l) = Some (r, s', h')"
  shows "eof_ok (l\<lparr>lk_s := s', lk_sh := h', lk_sent := sent\<rparr>)" "shut_ok (l\<lparr>lk_s := s', lk_sh := h', lk_sent := sent\<rparr>)"
proof -
  let ?s = "lk_s l" and ?l = "l\<lparr>lk_s := s', lk_sh := h', lk_sent := sent, lk_shut := lk_shut l\<rparr>"
  obtain fs where fs: "queue h' (sink_of s') = queue (lk_sh l) (sink_of ?s) @ fs" "fs \<noteq> [] \<longrightarrow> write_closed ?s = None"
      "write_closed ?s \<noteq> None \<longrightarrow> s' = ?s \<and> h' = lk_sh l"
    by (rule write_grows [OF assms(1,4)]) (rule that; assumption)
  have sf: "\<forall>f \<in> set (queue (lk_sh l) (st_fin ?s)). stream_frame f"
    using assms(1) plain_stream_frame(2) by (auto simp: link_defs simp del: stream_frame.simps)
  have "write_closed ?s = None \<Longrightarrow> write_closed s' \<noteq> None \<longrightarrow> codes h' (snd_closer (st_fout s')) \<noteq> 0"
    using write_closed_code [OF _ sf assms(4)] by blast
  moreover have "eof_ok ?l" by (rule eof_writer [OF assms(2) fs(1,2)]) (use fs(3) in auto)
  ultimately have *: "eof_ok ?l \<and> shut_ok ?l"
    using fs(3) assms(3) sink_grows [OF fs(1), of "lk_shut l" sent]
    by (cases "write_closed ?s") (auto simp: shut_ok_def fin_sent_def)
  have eq: "l\<lparr>lk_s := s', lk_sh := h', lk_sent := sent, lk_shut := lk_shut l\<rparr> = l\<lparr>lk_s := s', lk_sh := h', lk_sent := sent\<rparr>"
    by simp
  from * show "eof_ok (l\<lparr>lk_s := s', lk_sh := h', lk_sent := sent\<rparr>)"
    "shut_ok (l\<lparr>lk_s := s', lk_sh := h', lk_sent := sent\<rparr>)" unfolding eq by blast+
qed

lemma eof_shut:
  assumes "eof_ok l" "shut_ok l" "poll_shutdown M w (lk_s l) (lk_sh l) = (r, s', h')"
  shows "eof_ok (l\<lparr>lk_s := s', lk_sh := h', lk_shut := lk_shut l \<or> r = Ready (Ok ())\<rparr>)"
    "shut_ok (l\<lparr>lk_s := s', lk_sh := h', lk_shut := lk_shut l \<or> r = Ready (Ok ())\<rparr>)"
proof -
  let ?s = "lk_s l" and ?h = "lk_sh l" and ?l = "l\<lparr>lk_s := s', lk_sh := h', lk_sent := lk_sent l,
    lk_shut := lk_shut l \<or> r = Ready (Ok ())\<rparr>"
  note post = shutdown_post [OF assms(3)]
  obtain fs where fs: "queue h' (sink_of s') = queue ?h (sink_of ?s) @ fs" "fs \<noteq> [] \<longrightarrow> write_closed ?s = None"
      "fs = [] \<or> fs = [fin_frame]" and closed: "write_closed ?s \<noteq> None \<longrightarrow> write_closed s' \<noteq> None"
    using post by (auto split: if_splits)
  note up = sink_grows [OF fs(1), of "lk_shut l \<or> r = Ready (Ok ())" "lk_sent l"]
  have "eof_ok ?l" by (rule eof_writer [OF assms(1) fs(1,2) closed])
  moreover have "fin_sent ?l" if "lk_shut l \<or> r = Ready (Ok ()) \<or>
      write_closed s' \<noteq> None \<and> codes h' (snd_closer (st_fout s')) = 0"
  proof (cases "lk_shut l")
    case True
    with assms(2) up show ?thesis by (auto simp: eof_defs)
  next
    case False
    with that shutdown_code [OF assms(3)] post(2) consider "fs = [fin_frame]"
      | "write_closed ?s \<noteq> None" "codes ?h (snd_closer (st_fout ?s)) = 0"
      using fs(1) by auto
    then show ?thesis
    proof cases
      case 1
      with up plain_fin_frame(2) show ?thesis by (simp add: fin_sent_def)
    next
      case 2
      with assms(2) up show ?thesis by (auto simp: eof_defs)
    qed
  qed
  ultimately have "eof_ok ?l" "shut_ok ?l" by (auto simp: shut_ok_def)
  then show "eof_ok (l\<lparr>lk_s := s', lk_sh := h', lk_shut := lk_shut l \<or> r = Ready (Ok ())\<rparr>)"
    "shut_ok (l\<lparr>lk_s := s', lk_sh := h', lk_shut := lk_shut l \<or> r = Ready (Ok ())\<rparr>)" by simp_all
qed

text \<open>What moves a frame along: the frames on their way are the same.\<close>

lemma eof_transmit:
  assumes "rx_poll_next M w (chans (lk_sh l) (sink_of (lk_s l))) = (Ready (Some f), c)"
  shows "eof_ok l \<Longrightarrow> eof_ok (l\<lparr>lk_sh := set_chan (sink_of (lk_s l)) c (lk_sh l), lk_wire := lk_wire l @ [frame_stream_id sid f]\<rparr>)"
    "shut_ok l \<Longrightarrow> shut_ok (l\<lparr>lk_sh := set_chan (sink_of (lk_s l)) c (lk_sh l), lk_wire := lk_wire l @ [frame_stream_id sid f]\<rparr>)"
  using next_frame_effect [OF assms] by (auto simp: eof_defs upstream_def)

lemma eof_arrive:
  assumes "lk_fut l = None" "lk_wire l = f # rest" "sf_frame k = Some f"
  shows "eof_ok l \<Longrightarrow> eof_ok (l\<lparr>lk_wire := rest, lk_fut := Some k, lk_close := close\<rparr>)"
    "shut_ok l \<Longrightarrow> shut_ok (l\<lparr>lk_wire := rest, lk_fut := Some k, lk_close := close\<rparr>)"
  using assms by (auto simp: eof_defs upstream_def)

lemma deliver_open:
  assumes inv: "link_inv sid W l" "fin_ok sid l" "eof_ok l" and k: "lk_fut l = Some k" "sf_frame k = Some f"
    and p: "send_to_stream_poll M w k (lk_m l) (lk_rh l) = (r, k', m', h')"
  shows "chan_open (chans h' (st_fin (lk_r l))) \<and> codes h' = codes (lk_rh l) \<and>
    (r = Pending \<or> r = Ready (Ok ()) \<and> queue h' (st_fin (lk_r l)) = queue (lk_rh l) (st_fin (lk_r l)) @ [f])"
proof -
  let ?r = "lk_r l" and ?h = "lk_rh l"
  have e: "lk_err l = None" and co: "chan_open (chans ?h (st_fin ?r))" using inv(3) by (simp_all add: eof_ok_def)
  have kf: "sf_id k = sid" "sf_typ k = HData" "plain_data f"
    using inv(1) k by (auto simp: link_defs fut_ok_def)
  then obtain bs where bs: "frame_body f = Data bs" by (auto simp: plain_data_def)
  obtain hdl where hdl: "get_stream sid (lk_m l) = Ok hdl" "to_stream hdl = st_fin ?r"
      "window_capacity (st_window (lk_s l)) + in_flight l = hd_window hdl"
    using inv(1) by (auto simp: link_inv_def credit_ok_def)
  have open_hdl: "\<not> data_write_closed hdl" using inv(2) hdl(1) k e by (auto simp: fin_defs)
  have le: "sf_shrink k \<le> hd_window hdl" using hdl(3) k(1) by (simp add: in_flight_def fut_left_def)
  obtain r1 k1 hdl1 h1 where fh: "fut_handle_frame M w k hdl ?h = (r1, k1, hdl1, h1)" by (metis surj_pair)
  have d: "chan_open (chans h1 (st_fin ?r)) \<and> codes h1 = codes ?h \<and>
      (r1 = Pending \<or> r1 = Ready (Ok ()) \<and> queue h1 (st_fin ?r) = queue ?h (st_fin ?r) @ [f])"
    using handle_data_open [OF kf(2) open_hdl k(2) bs le _ fh] co hdl(2) by simp
  then have "r = r1" "h' = h1"
    using p hdl(1) kf(1) fh by (auto simp: send_to_stream_poll_def split: if_splits)
  with d show ?thesis by simp
qed

lemma eof_deliver:
  fixes m2 :: stream_manager
  assumes inv: "link_inv sid W l" "fin_ok sid l" "eof_ok l" "shut_ok l" and k: "lk_fut l = Some k"
    and p: "send_to_stream_poll M w k (lk_m l) (lk_rh l) = (r, k', m', h')"
  defines "l' \<equiv> l\<lparr>lk_m := m2, lk_rh := h', lk_fut := (if r = Pending then Some k' else None),
    lk_err := (case r of Ready (Inl e) \<Rightarrow> Some e | _ \<Rightarrow> None)\<rparr>"
  shows "eof_ok l'" "shut_ok l'"
proof -
  let ?r = "lk_r l"
  have e: "lk_err l = None" using inv(3) by (simp add: eof_ok_def)
  obtain f where f: "sf_frame k = Some f" and pend: "r = Pending \<longrightarrow> fut_ok sid (Some k') \<and> sf_frame k' = Some f \<and> sf_shrink k' = 0"
    and q: "queue h' (st_fin ?r) = queue (lk_rh l) (st_fin ?r) @ [f] \<and> r = Ready (Ok ()) \<or>
       queue h' (st_fin ?r) = queue (lk_rh l) (st_fin ?r) \<and> (r = Ready (Ok ()) \<longrightarrow> is_fin f)"
    by (rule deliver_effect [OF inv(1,2) k e p]) blast
  note op = deliver_open [OF inv(1-3) k f p]
  have up: "upstream l = f # lk_wire l @ queue (lk_sh l) (sink_of (lk_s l))"
    using k f by (simp add: upstream_def)
  then have nofin: "\<not> list_ex is_fin (queue (lk_rh l) (st_fin ?r))" "\<not> data_read_closed ?r"
    using inv(3) by (auto simp: eof_ok_def)
  from op consider "r = Pending" "queue h' (st_fin ?r) = queue (lk_rh l) (st_fin ?r)"
    | "r = Ready (Ok ())" "queue h' (st_fin ?r) = queue (lk_rh l) (st_fin ?r) @ [f]"
    using q by auto
  then have "eof_ok l' \<and> shut_ok l'"
  proof cases
    case 1
    have up': "upstream l' = upstream l" using 1(1) pend up by (simp add: l'_def upstream_def)
    show ?thesis
      using inv(3,4) 1 op up' by (simp add: eof_defs) (simp add: l'_def)
  next
    case 2
    have up': "upstream l = f # upstream l'" using 2(1) up by (simp add: l'_def upstream_def)
    have last: "fin_last (f # upstream l')" "list_ex is_fin (f # upstream l') \<longrightarrow> write_closed (lk_s l) \<noteq> None"
      using inv(2) up' by (simp_all add: fin_ok_def)
    have q': "queue h' (st_fin ?r) = queue (lk_rh l) (st_fin ?r) @ [f]" using 2 by simp
    have "eof_ok l'"
      unfolding eof_ok_def using inv(3) nofin 2 op last by (auto simp: l'_def eof_ok_def)
    moreover have "fin_sent l \<Longrightarrow> fin_sent l'"
      using up' 2 unfolding fin_sent_def by (auto simp: l'_def)
    ultimately show ?thesis using inv(4) by (auto simp: shut_ok_def l'_def)
  qed
  then show "eof_ok l'" "shut_ok l'" by simp_all
qed

lemma eof_on_read:
  assumes "link_inv sid W l" "eof_ok l" "shut_ok l" "poll_read M w room (lk_r l) (lk_rh l) = Some (r, out, s', h')"
  shows "eof_ok (l\<lparr>lk_r := s', lk_rh := h', lk_got := got\<rparr>)" "shut_ok (l\<lparr>lk_r := s', lk_rh := h', lk_got := got\<rparr>)"
proof -
  let ?r = "lk_r l" and ?h = "lk_rh l" and ?l = "l\<lparr>lk_r := s', lk_rh := h', lk_got := got\<rparr>"
  have ne: "sink_of ?r \<noteq> st_fin ?r" and sf: "\<forall>f \<in> set (queue ?h (st_fin ?r)). stream_frame f"
    using assms(1) plain_stream_frame(1) by (auto simp: link_defs simp del: stream_frame.simps)
  have "length (read_buf ?r @ data_of (queue ?h (st_fin ?r))) < 2 ^ 32"
    using credit_bounds(2) [OF assms(1)] by (simp add: blen_def)
  then obtain us where "read_spec w room ?r ?h us (poll_read M w room ?r ?h)"
    using read_post [OF ne sf] by blast
  then have fin: "st_fin s' = st_fin ?r" unfolding read_spec_def assms(4) by auto
  have "takes_open ?r ?h s' h'"
    by (rule read_open [OF ne sf _ assms(4)]) (use assms(2) in \<open>simp add: eof_ok_def\<close>)
  then obtain used where used: "chan_open (chans h' (st_fin ?r))" "queue ?h (st_fin ?r) = used @ queue h' (st_fin ?r)"
      "data_read_closed s' = (data_read_closed ?r \<or> list_ex is_fin used)"
    by (auto simp: takes_open_def)
  have up: "upstream ?l = upstream l" by (simp add: upstream_def)
  have "fin_sent ?l = fin_sent l" using used fin up by (auto simp: fin_sent_def)
  then show "shut_ok ?l" using assms(3) by (simp add: shut_ok_def)
  show "eof_ok ?l" unfolding eof_ok_def using assms(2) used fin up by (auto simp: eof_ok_def)
qed

lemma eof_forward:
  assumes "chans h' (st_fin (lk_r l)) = chans (lk_rh l) (st_fin (lk_r l))"
  shows "eof_ok l \<Longrightarrow> eof_ok (l\<lparr>lk_m := m', lk_rh := h', lk_back := back\<rparr>)"
    "shut_ok l \<Longrightarrow> shut_ok (l\<lparr>lk_m := m', lk_rh := h', lk_back := back\<rparr>)"
  using assms by (simp_all add: eof_defs upstream_def)

lemma eof_credit:
  assumes "link_inv sid W l"
  shows "eof_ok l \<Longrightarrow> eof_ok (l\<lparr>lk_sh := set_chan (st_fin (lk_s l)) c (lk_sh l), lk_back := rest\<rparr>)"
    "shut_ok l \<Longrightarrow> shut_ok (l\<lparr>lk_sh := set_chan (st_fin (lk_s l)) c (lk_sh l), lk_back := rest\<rparr>)"
  using assms by (auto simp: eof_defs upstream_def link_defs)

definition link_live :: "u32 \<Rightarrow> nat \<Rightarrow> 'c link \<Rightarrow> bool" where
  "link_live sid W l \<longleftrightarrow> link_good sid W l \<and> data_ok l \<and> eof_ok l \<and> shut_ok l"

lemma live_step:
  assumes "link_step M sid l l'" "link_live sid W l"
  shows "link_live sid W l'"
proof -
  have inv: "link_good sid W l" "data_ok l" "eof_ok l" "shut_ok l" "link_inv sid W l" "fin_ok sid l"
    using assms(2) by (simp_all add: link_live_def link_good_def)
  have "eof_ok l' \<and> shut_ok l'"
    using assms(1)
  proof cases
    case (sender_writes w buf r s' h')
    with eof_write [OF inv(5,3,4)] show ?thesis by simp
  next
    case (sender_shuts w r s' h')
    with eof_shut [OF inv(3,4)] show ?thesis by simp
  next
    case (transmit w f c)
    with eof_transmit inv(3,4) show ?thesis by simp
  next
    case (arrive f rest k)
    with eof_arrive [OF arrive(2,3) arrive_step(2) [OF inv(5) arrive(2-4)]] inv(3,4) show ?thesis by simp
  next
    case (deliver k w r k' m' h')
    with eof_deliver [OF inv(5,6,3,4)] show ?thesis by simp
  next
    case (receiver_reads w room r out s' h')
    with eof_on_read [OF inv(5,3,4)] show ?thesis by simp
  next
    case (forward w f c f' m' h')
    have "h' = set_chan (sink_of (lk_r l)) c (lk_rh l)" "sink_of (lk_r l) \<noteq> st_fin (lk_r l)"
      using forward_heap [OF inv(5) forward(4)] inv(5) by (simp_all add: link_defs)
    with forward eof_forward inv(3,4) show ?thesis by simp
  next
    case (credit f rest c)
    with eof_credit [OF inv(5)] inv(3,4) show ?thesis by simp
  qed
  with assms(1) inv(1,2) link_step_inv data_step show ?thesis by (auto simp: link_live_def)
qed

lemma open_req_open:
  "open_req_create M W syn h = ((req, s), h') \<Longrightarrow>
     chan_open (chans h' (st_fin s)) \<and> write_closed s = None \<and> \<not> data_read_closed s \<and>
     chan_open (chans h' (sink_of s)) \<and> codes h' (snd_closer (st_fout s)) = 0"
  using new_open
  by (auto simp: open_req_create_def new_chan_def sender_wrap_def new_code_def stream_new_def Let_def
      set_chan_def set_code_def)

lemma live_init:
  assumes "link_init M sid W l" "W < 2 ^ 32"
  shows "link_live sid W l"
proof -
  obtain h0 req1 h1 req2 h2 m where
    i: "open_req_create M W True h0 = ((req1, lk_s l), lk_sh l)"
      "open_req_create M W False h1 = ((req2, lk_r l), h2)" "sid \<notin> fst ` set (streams m)"
      "create_stream M (Some sid) req2 m h2 = (Ok sid, lk_m l, lk_rh l)"
      "lk_wire l = []" "lk_fut l = None" "lk_err l = None" "\<not> lk_shut l"
    using assms(1) by (auto simp: link_init_def)
  note s = open_req_facts [OF i(1)] and r = open_req_facts [OF i(2)] and c = create_fresh_effect(2) [OF i(4,3)]
  have "eof_ok l" "shut_ok l"
    using i(5-) s r c open_req_open [OF i(1)] open_req_open [OF i(2)] by (simp_all add: eof_defs upstream_def)
  with link_init_inv [OF assms] data_init [OF assms(1)] show ?thesis by (simp add: link_live_def)
qed

lemma live_machine:
  assumes "W < 2 ^ 32" "reach (link_init M sid W) (link_step M sid) l"
  shows "link_live sid W l"
proof -
  have "machine_inv (link_init M sid W) (link_step M sid) (link_live sid W)"
    by unfold_locales (use assms(1) in \<open>auto intro: live_init live_step\<close>)
  from machine_inv.inv_reach [OF this assms(2)] show ?thesis .
qed

text \<open>A read that meets the FIN does not wait.\<close>

lemma read_pending_open:
  assumes "snd_sink (st_fout s) \<noteq> st_fin s" "\<forall>f \<in> set (queue h (st_fin s)). plain_data f"
    "chan_open (chans h (st_fin s))" "poll_read M w room s h = Some (Pending, out, s', h')"
  shows "read_buf s' \<noteq> [] \<or> \<not> data_read_closed s'"
  using assms
proof (induction "length (queue h (st_fin s))" arbitrary: s h rule: less_induct)
  case less
  have sf: "\<forall>f \<in> set (queue h (st_fin s)). stream_frame f"
    using less.prems(2) plain_stream_frame(1) by blast
  consider (buffered) "read_buf s \<noteq> []" | (eof) "read_buf s = []" "data_read_closed s"
    | (recv) "read_buf s = []" "\<not> data_read_closed s" by blast
  then show ?case
  proof cases
    case buffered
    with less.prems(4) have "s' = s"
      by (subst (asm) poll_read.simps) (auto simp: Let_def split: prod.splits poll.splits if_splits)
    with buffered show ?thesis by simp
  next
    case eof
    with less.prems(4) show ?thesis by (subst (asm) poll_read.simps) simp
  next
    case recv
    let ?s = "s\<lparr>read_waker := Some w\<rparr>"
    have sp: "recv_spec w HData ?s h (poll_recv_data M w ?s h)"
      unfolding poll_recv_data_def by (rule recv_frame_type_post) (use sf in simp)
    then obtain r1 s1 h1 us closed where rv: "poll_recv_data M w ?s h = Some (r1, s1, h1)"
      "s1 = (if closed then (absorb us ?s)\<lparr>data_read_closed := True\<rparr> else absorb us ?s)"
      "queue h (st_fin s) = us @ queue h1 (st_fin s)" "recv_result HData r1 us closed (queue h1 (st_fin s))"
      unfolding recv_spec_def by auto
    have op: "chan_open (chans h1 (st_fin s))" "st_fin s1 = st_fin s" "st_fout s1 = st_fout s"
      using recv_frame_type_open [OF _ _ rv(1) [unfolded poll_recv_data_def]] less.prems sf rv(2)
      by (simp_all add: takes_open_def)
    have ht: "\<forall>f \<in> set us. hdr_typ (frame_header f) = HData"
      using less.prems(2) rv(3) by (auto simp: plain_data_def)
    have unf: "poll_read M w room s h = (case r1 of Pending \<Rightarrow> Some (Pending, [], s1, h1)
        | Panicked \<Rightarrow> Some (Panicked, [], s1, h1) | Ready (Inl e) \<Rightarrow> Some (Ready (Err e), [], s1, h1)
        | Ready (Inr _) \<Rightarrow> poll_read M w room s1 h1)"
      using recv rv(1) by (subst poll_read.simps) (simp add: Let_def)
    from rv(4) show ?thesis
    proof (cases rule: recv_result_cases)
      case found
      have "length (queue h1 (st_fin s1)) < length (queue h (st_fin s))" using found rv(3) op(2) by simp
      then show ?thesis
        by (rule less.hyps) (use less.prems op rv(3) unf found in auto)
    next
      case ended
      then have "us = []" using ht by (cases us) auto
      with ended rv(2) recv have "data_read_closed s1" "read_buf s1 = []" by simp_all
      then have "poll_read M w room s1 h1 = Some (Ready (Ok ()), [], s1, h1)" by (subst poll_read.simps) simp
      with unf ended less.prems(4) show ?thesis by simp
    next
      case waiting
      then have "us = []" using ht by (cases us) auto
      with waiting rv(2) recv unf less.prems(4) show ?thesis by auto
    qed
  qed
qed

lemma eof_reported:
  assumes "W < 2 ^ 32" "reach (link_init M sid W) (link_step M sid) l"
    "poll_read M w room (lk_r l) (lk_rh l) = Some (Ready (Ok ()), [], s', h')" "0 < room"
  shows "lk_got l = lk_sent l \<and> write_closed (lk_s l) \<noteq> None"
proof -
  let ?l = "l\<lparr>lk_r := s', lk_rh := h', lk_got := lk_got l @ []\<rparr>"
  have live: "link_live sid W l" by (rule live_machine [OF assms(1,2)])
  have live': "link_live sid W ?l"
    by (rule live_step [OF _ live]) (rule link_step.receiver_reads [OF assms(3)])
  have inv: "link_inv sid W l" using live by (simp add: link_live_def link_good_def)
  have ne: "sink_of (lk_r l) \<noteq> st_fin (lk_r l)" and sf: "\<forall>f \<in> set (queue (lk_rh l) (st_fin (lk_r l))). stream_frame f"
    using inv plain_stream_frame(1) by (auto simp: link_defs simp del: stream_frame.simps)
  have "length (read_buf (lk_r l) @ data_of (queue (lk_rh l) (st_fin (lk_r l)))) < 2 ^ 32"
    using credit_bounds(2) [OF inv] by (simp add: blen_def)
  with read_post [OF ne sf, of w room] assms(3,4) have s': "read_buf s' = []" "data_read_closed s'"
    unfolding read_spec_def by auto
  with live' have "queue h' (st_fin s') = []" "upstream ?l = []" "write_closed (lk_s l) \<noteq> None" "lk_err ?l = None"
    by (simp_all add: link_live_def eof_ok_def)
  moreover have "to_arrive ?l = []" "arrived ?l = []"
    using calculation s'(1) by (auto simp: to_arrive_def arrived_def upstream_def fut_frames_def split: option.splits)
  ultimately show ?thesis using live' by (auto simp: link_live_def data_ok_def)
qed

lemma shutdown_arrives:
  assumes "W < 2 ^ 32" "reach (link_init M sid W) (link_step M sid) l"
    "lk_shut l" "lk_got l = lk_sent l" "upstream l = []"
  shows "\<exists>s' h'. poll_read M w room (lk_r l) (lk_rh l) = Some (Ready (Ok ()), [], s', h')"
proof -
  have live: "link_live sid W l" by (rule live_machine [OF assms(1,2)])
  then have inv: "link_inv sid W l" and op: "chan_open (chans (lk_rh l) (st_fin (lk_r l)))"
    by (simp_all add: link_live_def link_good_def eof_ok_def)
  have ne: "sink_of (lk_r l) \<noteq> st_fin (lk_r l)" and pd: "\<forall>f \<in> set (queue (lk_rh l) (st_fin (lk_r l))). plain_data f"
    using inv by (auto simp: link_defs)
  have sf: "\<forall>f \<in> set (queue (lk_rh l) (st_fin (lk_r l))). stream_frame f" using pd plain_stream_frame(1) by blast
  have fin: "list_ex is_fin (queue (lk_rh l) (st_fin (lk_r l))) \<or> data_read_closed (lk_r l)"
    using live assms(3,5) by (simp add: link_live_def shut_ok_def fin_sent_def)
  have none: "read_buf (lk_r l) = []" "data_of (queue (lk_rh l) (st_fin (lk_r l))) = []"
    using live assms(4) by (auto simp: link_live_def data_ok_def arrived_def)
  then have "length (read_buf (lk_r l) @ data_of (queue (lk_rh l) (st_fin (lk_r l)))) < 2 ^ 32" by simp
  from read_post [OF ne sf this] obtain us r out s' h' where
    rd: "poll_read M w room (lk_r l) (lk_rh l) = Some (r, out, s', h')"
      "queue (lk_rh l) (st_fin (lk_r l)) = us @ queue h' (st_fin (lk_r l))"
      "read_buf (lk_r l) @ data_of us = out @ read_buf s'"
      "r = Ready (Ok ()) \<or> r = Pending \<and> (read_buf s' \<noteq> [] \<or> queue h' (st_fin (lk_r l)) = [] \<and> \<not> data_read_closed (lk_r l))"
    unfolding read_spec_def by blast
  have "data_of us = []" using none(2) rd(2) by simp
  then have out: "out = []" "read_buf s' = []" using rd(3) none(1) by simp_all
  obtain vs where vs: "queue (lk_rh l) (st_fin (lk_r l)) = vs @ queue h' (st_fin (lk_r l))"
      "data_read_closed s' = (data_read_closed (lk_r l) \<or> list_ex is_fin vs)"
    using read_open [OF ne sf op rd(1)] by (auto simp: takes_open_def)
  have ok: "r = Ready (Ok ())"
  proof (rule ccontr)
    assume "r \<noteq> Ready (Ok ())"
    with rd(4) out have p: "r = Pending" "queue h' (st_fin (lk_r l)) = []" by auto
    have "data_read_closed s'" using fin vs p(2) by auto
    with read_pending_open [OF ne pd op] rd(1) p out show False by blast
  qed
  with rd(1) out show ?thesis by blast
qed

end

interpretation bounded_live: live_chan bounded_mpsc bc_queue bc_open
  by unfold_locales

section \<open>Property\<close>


text \<open>The link of \<open>demo_link\<close> after the writer shut down and the FIN was delivered.\<close>

lemmas demo_eval = demo_link_def demo_manager_def manager_new_def open_req_create_def new_chan_def new_code_def
  sender_wrap_def stream_new_def Let_def bounded_mpsc_def on_chan_def check_closed_def set_chan_def set_code_def
  create_stream_def insert_stream_def put_stream_def push_task_def

abbreviation demo_fin :: frame where
  "demo_fin \<equiv> frame_fin (frame_from_body (Data []))"

lemma demo_shut:
  "\<exists>s h. poll_shutdown bounded_mpsc 7 (lk_s demo_link) (lk_sh demo_link) = (Ready (Ok ()), s, h) \<and>
     bc_queue (chans h (sink_of s)) = [demo_fin]"
  by (simp add: demo_eval poll_shutdown_def sender_poll_ready_def sender_start_send_def stream_poll_flush_def
      sender_poll_flush_def)

lemma demo_start:
  "send_to_stream_start (frame_stream_id 5 demo_fin) =
     Ok \<lparr>sf_id = 5, sf_typ = HData, sf_shrink = 0, sf_is_fin = True, sf_frame = Some (frame_stream_id 5 demo_fin)\<rparr>"
proof -
  have "frame_body demo_fin = Data []" "hdr_typ (frame_header demo_fin) = HData"
    by (simp_all add: frame_fin_def frame_from_body_def Let_def)
  with send_start_data [of "frame_stream_id 5 demo_fin" "[]"] plain_fin_frame(2) show ?thesis by simp
qed

lemma demo_deliver:
  "\<exists>k m h. send_to_stream_poll bounded_mpsc 7
     \<lparr>sf_id = 5, sf_typ = HData, sf_shrink = 0, sf_is_fin = True, sf_frame = Some (frame_stream_id 5 demo_fin)\<rparr>
     (lk_m demo_link) (lk_rh demo_link) = (Ready (Ok ()), k, m, h)"
  by (simp add: demo_eval send_to_stream_poll_def fut_handle_frame_def get_stream_def frame_stream_id_def frame_fin_def
      frame_from_body_def)

text \<open>The writer shuts down and its FIN is on the wire.\<close>

lemma demo_on_wire:
  obtains l where "reach (link_init bounded_mpsc 5 8) (link_step bounded_mpsc 5) l" "lk_shut l" "lk_got l = []"
    "lk_sent l = []" "lk_fut l = None" "lk_wire l = [frame_stream_id 5 demo_fin]" "lk_back l = []" "lk_err l = None"
    "bc_queue (chans (lk_sh l) (sink_of (lk_s l))) = []" "lk_m l = lk_m demo_link" "lk_rh l = lk_rh demo_link"
proof -
  have i: "lk_fut demo_link = None" "lk_wire demo_link = []" "lk_err demo_link = None" "lk_sent demo_link = []"
      "lk_got demo_link = []" "lk_back demo_link = []"
    using demo_link_init by (auto simp: link_init_def)
  obtain s h where sh: "poll_shutdown bounded_mpsc 7 (lk_s demo_link) (lk_sh demo_link) = (Ready (Ok ()), s, h)"
      "bc_queue (chans h (sink_of s)) = [demo_fin]"
    using demo_shut by blast
  define l1 where "l1 = demo_link\<lparr>lk_s := s, lk_sh := h, lk_shut := lk_shut demo_link \<or> Ready (Ok ()) = Ready (Ok () :: (io_error, unit) result)\<rparr>"
  have "reach (link_init bounded_mpsc 5 8) (link_step bounded_mpsc 5) demo_link"
    by (rule reach_init) (rule demo_link_init)
  then have r1: "reach (link_init bounded_mpsc 5 8) (link_step bounded_mpsc 5) l1"
    unfolding l1_def by (rule reach_step) (rule link_step.sender_shuts [OF sh(1)])
  let ?c = "(chans h (sink_of s))\<lparr>bc_queue := []\<rparr>"
  let ?l = "l1\<lparr>lk_sh := set_chan (sink_of (lk_s l1)) ?c (lk_sh l1), lk_wire := lk_wire l1 @ [frame_stream_id 5 demo_fin]\<rparr>"
  have nx: "rx_poll_next bounded_mpsc 7 (chans (lk_sh l1) (sink_of (lk_s l1))) = (Ready (Some demo_fin), ?c)"
    using sh(2) by (simp add: l1_def bounded_mpsc_def)
  have "reach (link_init bounded_mpsc 5 8) (link_step bounded_mpsc 5) ?l"
    using r1 by (rule reach_step) (rule link_step.transmit [OF nx])
  then show thesis by (rule that) (simp_all add: l1_def i)
qed

text \<open>The FIN is delivered.\<close>

lemma demo_end:
  obtains l where "reach (link_init bounded_mpsc 5 8) (link_step bounded_mpsc 5) l" "lk_shut l" "lk_got l = []"
    "lk_sent l = []" "lk_fut l = None" "lk_wire l = []" "bc_queue (chans (lk_sh l) (sink_of (lk_s l))) = []"
proof -
  obtain l where l: "reach (link_init bounded_mpsc 5 8) (link_step bounded_mpsc 5) l" "lk_shut l" "lk_got l = []"
    "lk_sent l = []" "lk_fut l = None" "lk_wire l = [frame_stream_id 5 demo_fin]" "lk_back l = []" "lk_err l = None"
    "bc_queue (chans (lk_sh l) (sink_of (lk_s l))) = []" "lk_m l = lk_m demo_link" "lk_rh l = lk_rh demo_link"
    by (rule demo_on_wire)
  let ?k = "\<lparr>sf_id = 5, sf_typ = HData, sf_shrink = 0, sf_is_fin = True, sf_frame = Some (frame_stream_id 5 demo_fin)\<rparr>"
  define l3 where "l3 = l\<lparr>lk_wire := [], lk_fut := Some ?k, lk_close := is_fin (frame_stream_id 5 demo_fin)\<rparr>"
  have r3: "reach (link_init bounded_mpsc 5 8) (link_step bounded_mpsc 5) l3"
    unfolding l3_def using l(1) by (rule reach_step) (rule link_step.arrive [OF l(5,6) demo_start])
  obtain k' m' h' where "send_to_stream_poll bounded_mpsc 7 ?k (lk_m demo_link) (lk_rh demo_link) = (Ready (Ok ()), k', m', h')"
    using demo_deliver by blast
  then have dl: "send_to_stream_poll bounded_mpsc 7 ?k (lk_m l3) (lk_rh l3) = (Ready (Ok ()), k', m', h')"
    by (simp add: l3_def l)
  let ?l = "l3\<lparr>lk_m := frame_delivered (lk_close l3) 5 m', lk_rh := h', lk_fut := None, lk_err := None\<rparr>"
  have "link_step bounded_mpsc 5 l3 ?l"
    using link_step.deliver [OF _ _ dl, of 5] by (simp add: l3_def l)
  with r3 have "reach (link_init bounded_mpsc 5 8) (link_step bounded_mpsc 5) ?l" by (rule reach_step)
  then show thesis
    by (rule that) (simp_all add: l3_def l)
qed


section \<open>A stream that was never written\<close>

lemma fin_frame_facts:
  "frame_body (frame_fin (frame_from_body (Data []))) = Data []"
  "hdr_typ (frame_header (frame_fin (frame_from_body (Data [])))) = HData"
  "\<not> is_syn (frame_fin (frame_from_body (Data [])))"
  by (simp_all add: frame_fin_def frame_from_body_def Let_def is_syn_def header_default_def flag_defs)

text \<open>
  A stream that is shut down before anything was written on it is never opened at
  the other end: its one frame carries FIN but not SYN, the stream still owes the SYN
  and can no longer send it, and a session that reads the frame finds no such stream,
  passes nothing to its listener, and goes on.
\<close>

theorem unwritten_stream_never_opens:
  assumes "frame_chan M contents" "write_closed s = None" "needs_syn s"
    "poll_shutdown M w s h = (Ready (Ok ()), s', h')" "fin = frame_fin (frame_from_body (Data []))"
    "rd_pc x = RNext" "get_stream sid (se_mgr x) = Err e"
    "y = reader_step N A w2 later (reader_step N A w1 (Ok (Some (frame_stream_id sid fin))) x)"
  shows "contents (chans h' (sink_of s)) = contents (chans h (sink_of s)) @ [fin] \<and> \<not> is_syn fin \<and> needs_syn s' \<and>
    write_closed s' \<noteq> None \<and>
    rd_pc y = RNext \<and> se_mgr y = se_mgr x \<and> se_heap y = se_heap x \<and> se_accept y = se_accept x"
proof -
  let ?f = "frame_stream_id sid fin"
  note post = frame_chan.shutdown_post(1) [OF assms(1,4)] and fr = frame_chan.shutdown_frame(2) [OF assms(1,4)]
  have f: "frame_body ?f = Data []" "hdr_typ (frame_header ?f) = HData" "hdr_stream_id (frame_header ?f) = sid" "is_fin ?f"
    using fin_frame_facts plain_fin_frame(2) by (simp_all add: assms(5))
  have ns: "\<not> is_syn fin" "\<not> is_syn ?f"
    using fin_frame_facts(3) by (simp_all add: assms(5) is_syn_def frame_stream_id_def)
  let ?k = "\<lparr>sf_id = sid, sf_typ = HData, sf_shrink = 0, sf_is_fin = True, sf_frame = Some ?f\<rparr>"
  have k: "send_to_stream_start ?f = Ok ?k" using send_start_data [OF f(1,2)] f(3,4) by simp
  have one: "reader_step N A w1 (Ok (Some ?f)) x = x\<lparr>rd_pc := RDeliver ?k True sid\<rparr>"
    using assms(6) ns(2) f(2-4) k by (simp add: reader_step_def reader_frame_def reader_dispatch_def)
  have "y = x\<lparr>rd_pc := RNext, rd_last_processed := sid\<rparr>"
    unfolding assms(8) one using assms(7)
    by (simp add: reader_step_def send_to_stream_poll_def frame_delivered_def)
  moreover have "contents (chans h' (sink_of s)) = contents (chans h (sink_of s)) @ [fin]" "write_closed s' \<noteq> None"
    using post assms(2,5) by (auto split: if_splits)
  ultimately show ?thesis using fr assms(3) ns(1) by auto
qed

theorem unwritten_stream_never_opens_witness:
  "\<exists>s' h'. poll_shutdown bounded_mpsc 9 demo_stream demo_heap = (Ready (Ok ()), s', h') \<and> needs_syn s' \<and>
    se_mgr (reader_step bounded_mpsc bounded_mpsc 0 (Ok None)
      (reader_step bounded_mpsc bounded_mpsc 0 (Ok (Some (frame_stream_id 7 (frame_fin (frame_from_body (Data [])))))) demo_session))
      = se_mgr demo_session"
proof -
  have p: "fst (poll_shutdown bounded_mpsc 9 demo_stream demo_heap) = Ready (Ok ())"
    by (simp add: demo_stream_def stream_new_def demo_heap_def bounded_mpsc_def poll_shutdown_def sender_poll_ready_def
        sender_start_send_def stream_poll_flush_def sender_poll_flush_def on_chan_def check_closed_def Let_def set_chan_def)
  obtain s' h' where e: "poll_shutdown bounded_mpsc 9 demo_stream demo_heap = (Ready (Ok ()), s', h')"
    using p by (cases "poll_shutdown bounded_mpsc 9 demo_stream demo_heap") auto
  have x: "rd_pc demo_session = RNext" "get_stream 7 (se_mgr demo_session) = Err StreamClosed"
    by (simp_all add: demo_session_def session_start_def manager_new_def new_chan_def Let_def get_stream_def)
  from unwritten_stream_never_opens [OF bounded_frames.frame_chan_axioms demo_facts(1,6) e refl x refl] e show ?thesis
    by blast
qed

end
