(* ===== verification/Link_Wire.thy ===== *)
theory Link_Wire
  imports End_Of_Stream
begin

text \<open>
  Frames and bytes. The link of \<open>Flow_Control\<close> carries frames; the connection carries
  bytes. Every frame of a link is one the codec keeps, so that the bytes of what is on
  the wire, cut in any way, decode to it: the link over bytes is the link over frames.
\<close>

section \<open>Frames that the codec keeps\<close>

definition sendable :: "u32 \<Rightarrow> frame \<Rightarrow> bool" where
  "sendable sid f \<longleftrightarrow> wire_frame (frame_stream_id sid f)"

lemma stream_id_flags:
  "frame_stream_id sid (frame_fin f) = frame_fin (frame_stream_id sid f)"
  "frame_stream_id sid (frame_syn f) = frame_syn (frame_stream_id sid f)"
  by (simp_all add: frame_stream_id_def frame_fin_def frame_syn_def)

definition stream_number :: "u32 \<Rightarrow> bool" where
  "stream_number sid \<longleftrightarrow> sid \<noteq> 0 \<and> sid \<le> STREAMID_MAX"

lemma sendable_frames:
  assumes "stream_number sid"
  shows "sendable sid (data_frame syn bs)" "sendable sid (frame_fin (frame_from_body (Data [])))"
    "i \<le> WNDINC_MAX \<Longrightarrow> sendable sid (frame_from_body (WndInc i))"
  using assms wire_data wire_wndinc
  by (simp_all add: sendable_def data_frame_def stream_id_flags wire_flag stream_number_def)

lemma as_u32_wndinc: "n \<le> unat WNDINC_MAX \<Longrightarrow> as_u32 n \<le> WNDINC_MAX"
  by (simp add: word_le_nat_alt unat_as_u32 WNDINC_MAX_def)

context frame_chan
begin

definition wire_ok :: "u32 \<Rightarrow> 'c link \<Rightarrow> bool" where
  "wire_ok sid l \<longleftrightarrow> (\<forall>f \<in> set (queue (lk_sh l) (sink_of (lk_s l))). sendable sid f) \<and> (\<forall>f \<in> set (lk_wire l). wire_frame f) \<and>
     (\<forall>f \<in> set (queue (lk_rh l) (sink_of (lk_r l))). sendable sid f) \<and> (\<forall>f \<in> set (lk_back l). wire_frame f)"

lemma wire_step:
  assumes "link_step M sid l l'" "link_good sid W l" "wire_ok sid l" "stream_number sid"
  shows "wire_ok sid l'"
proof -
  have inv: "link_inv sid W l" "fin_ok sid l" using assms(2) by (simp_all add: link_good_def)
  have ne: "sink_of (lk_s l) \<noteq> st_fin (lk_s l)" "sink_of (lk_r l) \<noteq> st_fin (lk_r l)"
    using inv(1) by (simp_all add: link_defs)
  note ok = sendable_frames [OF assms(4)]
  from assms(1) show ?thesis
  proof cases
    case (sender_writes w buf r s' h')
    obtain fs where "queue h' (sink_of s') = queue (lk_sh l) (sink_of (lk_s l)) @ fs" "\<forall>f \<in> set fs. \<exists>syn bs. f = data_frame syn bs"
      by (rule write_grows [OF inv(1) sender_writes(2)]) (rule that; assumption)
    with sender_writes assms(3) ok(1) show ?thesis by (auto simp: wire_ok_def)
  next
    case (sender_shuts w r s' h')
    have "queue h' (sink_of (lk_s l)) = queue (lk_sh l) (sink_of (lk_s l)) \<or>
        queue h' (sink_of (lk_s l)) = queue (lk_sh l) (sink_of (lk_s l)) @ [fin_frame]"
      using shutdown_post(1) [OF sender_shuts(2)] by (auto split: if_splits)
    with sender_shuts shutdown_post(2) [OF sender_shuts(2)] assms(3) ok(2) show ?thesis
      by (auto simp: wire_ok_def)
  next
    case (transmit w f c)
    with next_frame_effect [OF transmit(2)] assms(3) show ?thesis by (auto simp: wire_ok_def sendable_def)
  next
    case (arrive f rest k)
    with assms(3) show ?thesis by (auto simp: wire_ok_def)
  next
    case (deliver k w r k' m' h')
    have "chans h' (sink_of (lk_r l)) = chans (lk_rh l) (sink_of (lk_r l))"
      by (rule deliver_effect [OF inv deliver(2-4)]) blast
    with deliver assms(3) show ?thesis by (simp add: wire_ok_def)
  next
    case (receiver_reads w room r out s' h')
    have sf: "\<forall>f \<in> set (queue (lk_rh l) (st_fin (lk_r l))). stream_frame f"
      using inv(1) plain_stream_frame(1) by (auto simp: link_defs simp del: stream_frame.simps)
    have "length (read_buf (lk_r l) @ data_of (queue (lk_rh l) (st_fin (lk_r l)))) < 2 ^ 32"
      using credit_bounds(2) [OF inv(1)] by (simp add: blen_def)
    from read_post [OF ne(2) sf this, of w room]
    have "inc_sent (lk_r l) (length out) (lk_rh l) h'" "st_fout s' = st_fout (lk_r l)"
      unfolding read_spec_def receiver_reads(2) by auto
    then have "queue h' (sink_of s') = queue (lk_rh l) (sink_of (lk_r l)) \<or>
        (\<exists>i \<le> WNDINC_MAX. queue h' (sink_of s') = queue (lk_rh l) (sink_of (lk_r l)) @ [frame_from_body (WndInc i)])"
      using as_u32_wndinc [of "length out"] unfolding inc_sent_def by (auto split: if_splits)
    with receiver_reads assms(3) ok(3) show ?thesis by (auto simp: wire_ok_def)
  next
    case (forward w f c f' m' h')
    have h': "h' = set_chan (sink_of (lk_r l)) c (lk_rh l)" by (rule forward_heap [OF inv(1) forward(4)])
    obtain hdl where "get_stream sid (lk_m l) = Ok hdl"
      using inv(1) by (auto simp: link_inv_def credit_ok_def)
    then have "f' = frame_stream_id sid f"
      using forward(4) by (auto simp: handle_task_item_def Let_def split: if_splits prod.splits)
    with forward h' next_frame_effect [OF forward(3)] assms(3) show ?thesis by (auto simp: wire_ok_def sendable_def)
  next
    case (credit f rest c)
    with ne assms(3) show ?thesis by (auto simp: wire_ok_def)
  qed
qed

lemma wire_machine:
  assumes "W < 2 ^ 32" "reach (link_init M sid W) (link_step M sid) l" "stream_number sid"
  shows "wire_ok sid l"
proof -
  have init: "wire_ok sid l0" if li: "link_init M sid W l0" for l0
  proof -
    obtain h0 req1 h1 req2 h2 m where
      i: "open_req_create M W True h0 = ((req1, lk_s l0), lk_sh l0)"
        "open_req_create M W False h1 = ((req2, lk_r l0), h2)" "sid \<notin> fst ` set (streams m)"
        "create_stream M (Some sid) req2 m h2 = (Ok sid, lk_m l0, lk_rh l0)" "lk_wire l0 = []" "lk_back l0 = []"
      using li unfolding link_init_def by blast
    show ?thesis
      using i(5,6) open_req_facts [OF i(1)] open_req_facts [OF i(2)] create_fresh_effect(2) [OF i(4,3)]
      by (simp add: wire_ok_def)
  qed
  have "machine_inv (link_init M sid W) (link_step M sid) (\<lambda>l. link_good sid W l \<and> wire_ok sid l)"
    by unfold_locales (use assms(1,3) init in \<open>auto intro: link_init_inv link_step_inv wire_step\<close>)
  from machine_inv.inv_reach [OF this assms(2)] show ?thesis by simp
qed

end

section \<open>Property\<close>

text \<open>
  C9. The bytes of a link. At every moment, in both directions, the frames that are on
  the wire between two ends of a stream are exactly what a decoder makes of their
  encoded bytes, however these are cut into chunks on the way.
\<close>

theorem link_over_bytes:
  assumes "frame_chan M contents" "W < 2 ^ 32" "reach (link_init M sid W) (link_step M sid) l"
    "be_buf B" "sid \<noteq> 0" "sid \<le> STREAMID_MAX"
    "concat chunks = wire_bytes B (lk_wire l)" "concat replies = wire_bytes B (lk_back l)"
  shows "feed B codec_default [] chunks = Some (lk_wire l, codec_default, []) \<and>
    feed B codec_default [] replies = Some (lk_back l, codec_default, [])"
proof -
  have "frame_chan.wire_ok contents sid l"
    by (rule frame_chan.wire_machine [OF assms(1-3)]) (simp add: stream_number_def assms(5,6))
  then show ?thesis
    using be_buf.feed_wire_bytes [OF assms(4)] assms(7,8)
    by (simp add: frame_chan.wire_ok_def [OF assms(1)])
qed

theorem link_over_bytes_witness:
  "\<exists>l. reach (link_init bounded_mpsc 5 8) (link_step bounded_mpsc 5) l \<and> lk_wire l = [frame_stream_id 5 demo_fin] \<and>
    feed std_buf codec_default [] [take 3 (wire_bytes std_buf (lk_wire l)), drop 3 (wire_bytes std_buf (lk_wire l))] =
      Some (lk_wire l, codec_default, [])"
proof -
  obtain l where l: "reach (link_init bounded_mpsc 5 8) (link_step bounded_mpsc 5) l"
      "lk_wire l = [frame_stream_id 5 demo_fin]"
    by (rule demo_on_wire)
  have "feed std_buf codec_default [] [take 3 (wire_bytes std_buf (lk_wire l)), drop 3 (wire_bytes std_buf (lk_wire l))] =
      Some (lk_wire l, codec_default, [])"
    using link_over_bytes [OF bounded_frames.frame_chan_axioms _ l(1) std_buf.be_buf_axioms, where
        chunks = "[take 3 (wire_bytes std_buf (lk_wire l)), drop 3 (wire_bytes std_buf (lk_wire l))]" and
        replies = "[wire_bytes std_buf (lk_back l)]"]
    by (simp add: STREAMID_MAX_def)
  with l show ?thesis by blast
qed

end
