(* ===== verification/Conservation.thy ===== *)
theory Conservation
  imports End_Of_Stream
begin

text \<open>
  Credit is conserved. While the channels of a link are open, the window of the writer is
  exactly what both ends started with, less the bytes that are on their way or buffered,
  and the increments that are on their way back: no credit is lost, and none is made.
\<close>

context live_chan
begin

section \<open>The sink of the reader stays open\<close>

definition sink_live :: "mux_stream \<Rightarrow> 'c heap \<Rightarrow> bool" where
  "sink_live s h \<longleftrightarrow> chan_open (chans h (sink_of s)) \<and> codes h (snd_closer (st_fout s)) = 0"

lemma ready_live:
  assumes "sender_poll_ready M w (st_fout s) h = (q, h1)" "sink_live s h"
  shows "sink_live s h1" "q = Pending \<or> q = Ready (Ok ())"
proof -
  obtain p c where pr: "tx_poll_ready M w (chans h (sink_of s)) = (p, c)" by fastforce
  have c: "chan_open c" "\<And>e. p \<noteq> Ready (Err e)" "p \<noteq> Panicked"
    using assms(2) ready_open [OF pr] ready_keeps [OF pr] by (auto simp: sink_live_def)
  show "sink_live s h1" "q = Pending \<or> q = Ready (Ok ())"
    using assms c by (cases p rule: poll_result_cases;
      auto simp: sender_poll_ready_def check_closed_cases on_chan_def pr sink_live_def)+
qed

lemma send_live:
  assumes "sender_poll_ready M w (st_fout s) h = (Ready (Ok ()), h1)" "sender_start_send M f (st_fout s) h1 = (q, h2)"
    "sink_live s h"
  shows "sink_live s h2" "q = Ok ()"
proof -
  let ?i = "sink_of s"
  obtain p c where pr: "tx_poll_ready M w (chans h ?i) = (p, c)" by fastforce
  have p: "p = Ready (Ok ())" "chans h1 ?i = c" "codes h1 (snd_closer (st_fout s)) = 0" and c: "chan_open c"
    using assms(1,3) ready_open [OF pr]
    by (cases p rule: poll_result_cases; auto simp: sender_poll_ready_def check_closed_cases on_chan_def pr sink_live_def)+
  obtain q2 c2 where ps: "tx_start_send M f c = (q2, c2)" by fastforce
  have "q2 = Ok ()" "chan_open c2"
    using ready_sends [OF pr [unfolded p(1)] _ ps] send_open [OF ps c] assms(3) by (simp_all add: sink_live_def)
  with assms(2) p(2,3) ps show "sink_live s h2" "q = Ok ()"
    by (auto simp: sender_start_send_def check_closed_cases on_chan_def sink_live_def)
qed

lemma send_wndinc_live:
  assumes "poll_send_wndinc M w by s h = (r, h')" "sink_live s h"
  shows "sink_live s h'"
proof -
  obtain q h1 where pr: "sender_poll_ready M w (st_fout s) h = (q, h1)" by fastforce
  obtain q2 h2 where ps: "sender_start_send M (frame_from_body (WndInc by)) (st_fout s) h1 = (q2, h2)" by fastforce
  note live = ready_live [OF pr assms(2)]
  show ?thesis
  proof (cases "q = Pending")
    case True
    with assms(1) pr live(1) show ?thesis by (simp add: poll_send_wndinc_def)
  next
    case False
    then have "q = Ready (Ok ())" using live(2) by simp
    with assms(1) pr ps send_live [OF _ ps assms(2), of w] show ?thesis by (simp add: poll_send_wndinc_def)
  qed
qed

text \<open>What a read does to the sink, whatever has arrived: it adds one increment at most.\<close>

definition read_effect :: "mux_stream \<Rightarrow> 'c heap \<Rightarrow> mux_stream \<Rightarrow> 'c heap \<Rightarrow> bool" where
  "read_effect s h s' h' \<longleftrightarrow> st_fin s' = st_fin s \<and> st_fout s' = st_fout s \<and> write_closed s' = write_closed s \<and>
     (\<exists>incs. queue h' (sink_of s) = queue h (sink_of s) @ incs \<and> (\<forall>f \<in> set incs. \<exists>i. f = frame_from_body (WndInc i))) \<and>
     (\<exists>used. queue h (st_fin s) = used @ queue h' (st_fin s)) \<and> (sink_live s h \<longrightarrow> sink_live s' h')"

lemma read_effect_refl: "read_effect s h s h"
  unfolding read_effect_def by (intro conjI exI [of _ "[]"]) auto

lemma read_sink:
  assumes "snd_sink (st_fout s) \<noteq> st_fin s" "\<forall>f \<in> set (queue h (st_fin s)). stream_frame f"
    "poll_read M w room s h = Some (r, out, s', h')"
  shows "read_effect s h s' h'"
  using assms
proof (induction "length (queue h (st_fin s))" arbitrary: s h rule: less_induct)
  case less
  consider (buffered) "read_buf s \<noteq> []" | (eof) "read_buf s = []" "data_read_closed s"
    | (recv) "read_buf s = []" "\<not> data_read_closed s" by blast
  then show ?case
  proof cases
    case buffered
    define n where "n = unat (WndInc_clamp (as_u32 (min (length (read_buf s)) room)))"
    obtain q h1 where ps: "poll_send_wndinc M w (WndInc_clamp (as_u32 (min (length (read_buf s)) room))) s h = (q, h1)"
      by fastforce
    have "poll_read M w room s h = (if 0 < n then (case q of Pending \<Rightarrow> Some (Pending, [], s, h1)
        | Panicked \<Rightarrow> Some (Panicked, [], s, h1)
        | Ready _ \<Rightarrow> Some (Ready (Ok ()), take n (read_buf s), s\<lparr>read_buf := drop n (read_buf s)\<rparr>, h1))
      else Some (Ready (Ok ()), [], s, h))"
      using buffered ps by (subst poll_read.simps) (simp add: n_def Let_def split: poll.splits)
    with less.prems(3) have eqs: "s' = s \<or> s' = s\<lparr>read_buf := drop n (read_buf s)\<rparr>" "h' = h \<or> h' = h1"
      by (auto split: poll.splits if_splits)
    have "read_effect s h s h1"
      using send_wndinc_live [OF ps] send_wndinc_post [OF ps] less.prems(1)
      unfolding read_effect_def sender_frame_def by fastforce
    with read_effect_refl [of s h] eqs show ?thesis by (auto simp: read_effect_def sink_live_def)
  next
    case eof
    with less.prems(3) read_effect_refl show ?thesis by (subst (asm) poll_read.simps) simp
  next
    case recv
    let ?s = "s\<lparr>read_waker := Some w\<rparr>"
    have sp: "recv_spec w HData ?s h (poll_recv_data M w ?s h)"
      unfolding poll_recv_data_def by (rule recv_frame_type_post) (use less.prems in simp)
    then obtain r1 s1 h1 us closed where rv: "poll_recv_data M w ?s h = Some (r1, s1, h1)"
      "s1 = (if closed then (absorb us ?s)\<lparr>data_read_closed := True\<rparr> else absorb us ?s)"
      "queue h (st_fin s) = us @ queue h1 (st_fin s)" "recv_post w us ?s h h1"
      "recv_result HData r1 us closed (queue h1 (st_fin s))"
      unfolding recv_spec_def by auto
    have op: "st_fin s1 = st_fin s" "st_fout s1 = st_fout s" "write_closed s1 = write_closed s"
      using rv(2) by simp_all
    have sink: "chans h1 (sink_of s) = chans h (sink_of s)" "codes h1 = codes h"
      using rv(4) less.prems(1) by (auto simp: recv_post_def)
    then have first: "read_effect s h s1 h1"
      using op rv(3) unfolding read_effect_def by (auto simp: sink_live_def)
    have unf: "poll_read M w room s h = (case r1 of Pending \<Rightarrow> Some (Pending, [], s1, h1)
        | Panicked \<Rightarrow> Some (Panicked, [], s1, h1) | Ready (Inl e) \<Rightarrow> Some (Ready (Err e), [], s1, h1)
        | Ready (Inr _) \<Rightarrow> poll_read M w room s1 h1)"
      using recv rv(1) by (subst poll_read.simps) (simp add: Let_def)
    show ?thesis
    proof (cases "r1 = Ready (Ok ()) \<and> us \<noteq> []")
      case False
      have "s' = s1 \<and> h' = h1"
      proof (cases "r1 = Ready (Ok ())")
        case True
        with False rv(2,5) recv have "data_read_closed s1" "read_buf s1 = []"
          by (auto simp: recv_result_def split: if_splits)
        then have "poll_read M w room s1 h1 = Some (Ready (Ok ()), [], s1, h1)" by (subst poll_read.simps) simp
        with True unf less.prems(3) show ?thesis by simp
      qed (use unf less.prems(3) recv_result_ok [OF rv(5)] in auto)
      with first show ?thesis by simp
    next
      case True
      have rd: "poll_read M w room s1 h1 = Some (r, out, s', h')" using unf True less.prems(3) by simp
      have "length (queue h1 (st_fin s1)) < length (queue h (st_fin s))" using True rv(3) op(1) by simp
      then have "read_effect s1 h1 s' h'"
        by (rule less.hyps) (use less.prems op rv(3) rd in auto)
      with first op rv(3) sink show ?thesis by (auto simp: read_effect_def)
    qed
  qed
qed

section \<open>The invariant\<close>

definition credit_exact :: "u32 \<Rightarrow> nat \<Rightarrow> 'c link \<Rightarrow> bool" where
  "credit_exact sid W l \<longleftrightarrow> sink_live (lk_r l) (lk_rh l) \<and>
     (\<forall>hdl. get_stream sid (lk_m l) = Ok hdl \<longrightarrow> hd_window hdl + at_receiver l = W)"

lemma credit_exactI:
  "credit_exact sid W l \<Longrightarrow> lk_m l' = lk_m l \<Longrightarrow> lk_r l' = lk_r l \<Longrightarrow> lk_rh l' = lk_rh l \<Longrightarrow>
     fut_held (lk_fut l') = fut_held (lk_fut l) \<Longrightarrow> credit_exact sid W l'"
  by (simp add: credit_exact_def at_receiver_def)

lemma exact_read:
  assumes "link_inv sid W l" "eof_ok l" "credit_exact sid W l" "poll_read M w room (lk_r l) (lk_rh l) = Some (r, out, s', h')"
  shows "credit_exact sid W (l\<lparr>lk_r := s', lk_rh := h', lk_got := got\<rparr>)"
proof -
  let ?r = "lk_r l" and ?h = "lk_rh l"
  have ne: "sink_of ?r \<noteq> st_fin ?r" and sf: "\<forall>f \<in> set (queue ?h (st_fin ?r)). stream_frame f"
    using assms(1) plain_stream_frame(1) by (auto simp: link_defs simp del: stream_frame.simps)
  have "length (read_buf ?r @ data_of (queue ?h (st_fin ?r))) < 2 ^ 32"
    using credit_bounds(2) [OF assms(1)] by (simp add: blen_def)
  from read_post [OF ne sf this, of w room] obtain used where
    q: "queue ?h (st_fin ?r) = used @ queue h' (st_fin ?r)" and b: "read_buf ?r @ data_of used = out @ read_buf s'"
    and i: "inc_sent ?r (length out) ?h h'" and same: "st_fin s' = st_fin ?r" "st_fout s' = st_fout ?r"
    unfolding read_spec_def assms(4) by auto
  have live: "sink_live s' h'"
    using read_sink [OF ne sf assms(4)] assms(3) by (simp add: read_effect_def credit_exact_def)
  have len: "length (read_buf ?r) + blen used = length out + length (read_buf s')"
    using arg_cong [OF b, of length] by (simp add: blen_def)
  have "incs (queue h' (sink_of ?r)) = incs (queue ?h (sink_of ?r)) + length out"
    using i live same frame_inc_wndinc [of "length out"] unfolding inc_sent_def sink_live_def
    by (auto split: if_splits simp del: frame_inc.simps)
  then have "at_receiver (l\<lparr>lk_r := s', lk_rh := h', lk_got := got\<rparr>) = at_receiver l"
    using q len same by (simp add: at_receiver_def)
  with assms(3) live show ?thesis by (simp add: credit_exact_def)
qed

lemma exact_deliver:
  assumes inv: "link_inv sid W l" "fin_ok sid l" "eof_ok l" "credit_exact sid W l" and k: "lk_fut l = Some k"
    and p: "send_to_stream_poll M w k (lk_m l) (lk_rh l) = (r, k', m', h')"
  shows "credit_exact sid W (l\<lparr>lk_m := (if r = Ready (Ok ()) then frame_delivered (lk_close l) sid m' else m'), lk_rh := h',
    lk_fut := (if r = Pending then Some k' else None), lk_err := err\<rparr>)"
proof -
  let ?r = "lk_r l" and ?m2 = "if r = Ready (Ok ()) then frame_delivered (lk_close l) sid m' else m'"
  have e: "lk_err l = None" using inv(3) by (simp add: eof_ok_def)
  obtain f hdl hdl' where f: "sf_frame k = Some f" "sf_shrink k \<le> length (frame_data f)"
    and hdl: "get_stream sid (lk_m l) = Ok hdl" "sf_shrink k \<le> hd_window hdl"
    and g: "get_stream sid ?m2 = Ok hdl'" "hd_window hdl' = hd_window hdl - sf_shrink k"
    and sink: "chans h' (sink_of ?r) = chans (lk_rh l) (sink_of ?r)"
    and pend: "r = Pending \<longrightarrow> fut_ok sid (Some k') \<and> sf_frame k' = Some f \<and> sf_shrink k' = 0"
    and q: "queue h' (st_fin ?r) = queue (lk_rh l) (st_fin ?r) @ [f] \<and> r = Ready (Ok ()) \<or>
       queue h' (st_fin ?r) = queue (lk_rh l) (st_fin ?r) \<and> (r = Ready (Ok ()) \<longrightarrow> is_fin f)"
    by (rule deliver_effect [OF inv(1,2) k e p]) blast
  note op = deliver_open [OF inv(1-3) k f(1) p]
  have live: "sink_live ?r h'" using inv(4) sink op by (simp add: credit_exact_def sink_live_def)
  have old: "hd_window hdl + at_receiver l = W" using inv(4) hdl(1) by (simp add: credit_exact_def)
  define l' where "l' = l\<lparr>lk_m := ?m2, lk_rh := h', lk_fut := (if r = Pending then Some k' else None), lk_err := err\<rparr>"
  have "at_receiver l' = at_receiver l + sf_shrink k"
  proof (cases "r = Pending")
    case True
    with q pend f k sink show ?thesis by (auto simp: l'_def at_receiver_def fut_held_def)
  next
    case False
    with op have "queue h' (st_fin ?r) = queue (lk_rh l) (st_fin ?r) @ [f]" by simp
    with False f k sink show ?thesis by (auto simp: l'_def at_receiver_def fut_held_def simp del: frame_data.simps)
  qed
  with old g hdl(2) live have "credit_exact sid W l'" by (auto simp: credit_exact_def l'_def)
  then show ?thesis by (simp add: l'_def)
qed

lemma exact_forward:
  assumes "link_inv sid W l" "credit_exact sid W l"
    "rx_poll_next M w (chans (lk_rh l) (sink_of (lk_r l))) = (Ready (Some f), c)"
    "get_stream sid (lk_m l) = Ok old" "get_stream sid m' = Ok new" "hd_window new = hd_window old + frame_inc f"
  shows "credit_exact sid W (l\<lparr>lk_m := m', lk_rh := set_chan (sink_of (lk_r l)) c (lk_rh l), lk_back := back'\<rparr>)"
proof -
  have "chan_open c" using next_open [OF assms(3)] assms(2) by (simp add: credit_exact_def sink_live_def)
  moreover have "queue (lk_rh l) (sink_of (lk_r l)) = f # contents c" "sink_of (lk_r l) \<noteq> st_fin (lk_r l)"
    using next_frame_effect [OF assms(3)] assms(1) by (simp_all add: link_defs)
  ultimately show ?thesis
    using assms(2,4-6) by (auto simp: credit_exact_def sink_live_def at_receiver_def simp del: frame_inc.simps)
qed

lemma exact_step:
  assumes "link_step M sid l l'" "link_live sid W l" "credit_exact sid W l"
  shows "credit_exact sid W l'"
proof -
  have inv: "link_inv sid W l" "fin_ok sid l" "eof_ok l"
    using assms(2) by (simp_all add: link_live_def link_good_def)
  from assms(1) show ?thesis
  proof cases
    case (arrive f rest k)
    have "plain_data f" using inv(1) arrive(3) by (simp add: link_defs)
    then obtain bs where "frame_body f = Data bs" "hdr_typ (frame_header f) = HData" by (auto simp: plain_data_def)
    then have "fut_held (Some k) = 0" using send_start_data [of f bs] arrive(4) by (auto simp: fut_held_def)
    with arrive assms(3) show ?thesis by (auto intro: credit_exactI simp: fut_held_def)
  next
    case (deliver k w r k' m' h')
    with exact_deliver [OF inv assms(3)] show ?thesis by simp
  next
    case (receiver_reads w room r out s' h')
    with exact_read [OF inv(1,3) assms(3)] show ?thesis by simp
  next
    case (forward w f c f' m' h')
    have "h' = set_chan (sink_of (lk_r l)) c (lk_rh l)" by (rule forward_heap [OF inv(1) forward(4)])
    moreover obtain old new where "get_stream sid (lk_m l) = Ok old" "get_stream sid m' = Ok new"
        "hd_window new = hd_window old + frame_inc f"
      using forward_step(2) [OF inv(1) forward(3,4)] by blast
    ultimately show ?thesis using exact_forward [OF inv(1) assms(3) forward(3)] forward(1) by simp
  qed (use assms(3) in \<open>auto intro: credit_exactI\<close>)
qed

lemma exact_init:
  assumes "link_init M sid W l"
  shows "credit_exact sid W l"
proof -
  obtain h0 req1 h1 req2 h2 m where
    i: "open_req_create M W True h0 = ((req1, lk_s l), lk_sh l)"
      "open_req_create M W False h1 = ((req2, lk_r l), h2)" "sid \<notin> fst ` set (streams m)"
      "create_stream M (Some sid) req2 m h2 = (Ok sid, lk_m l, lk_rh l)" "lk_fut l = None"
    using assms unfolding link_init_def by blast
  note r = open_req_facts [OF i(2)] and c = create_fresh_effect [OF i(4,3)]
  have "sink_live (lk_r l) (lk_rh l)"
    using open_req_open [OF i(2)] c(2,3) by (simp add: sink_live_def)
  with i(5) r c(1,2) show ?thesis by (simp add: credit_exact_def at_receiver_def fut_held_def)
qed

lemma exact_machine:
  assumes "W < 2 ^ 32" "reach (link_init M sid W) (link_step M sid) l"
  shows "link_live sid W l \<and> credit_exact sid W l"
proof -
  have "machine_inv (link_init M sid W) (link_step M sid) (\<lambda>l. link_live sid W l \<and> credit_exact sid W l)"
    by unfold_locales (use assms(1) in \<open>auto intro: live_init live_step exact_init exact_step\<close>)
  from machine_inv.inv_reach [OF this assms(2)] show ?thesis .
qed

lemma conserved:
  assumes "W < 2 ^ 32" "reach (link_init M sid W) (link_step M sid) l"
  shows "window_capacity (st_window (lk_s l)) + length (arrived l @ to_arrive l) +
    incs (queue (lk_rh l) (sink_of (lk_r l))) + incs (lk_back l) + incs (queue (lk_sh l) (st_fin (lk_s l))) = W"
proof -
  have inv: "link_inv sid W l" and exact: "credit_exact sid W l"
    using exact_machine [OF assms] by (simp_all add: link_live_def link_good_def)
  obtain hdl where hdl: "get_stream sid (lk_m l) = Ok hdl" "window_capacity (st_window (lk_s l)) + in_flight l = hd_window hdl"
    using inv by (auto simp: link_inv_def credit_ok_def)
  have "hd_window hdl + at_receiver l = W" using exact hdl(1) by (simp add: credit_exact_def)
  moreover have "fut_left (lk_fut l) + fut_held (lk_fut l) = length (fut_data (lk_fut l))"
    using inv by (auto simp: link_defs fut_ok_def fut_left_def fut_held_def split: option.splits)
  ultimately show ?thesis
    using hdl(2) by (simp add: in_flight_def at_receiver_def arrived_def to_arrive_def blen_def)
qed

end

section \<open>Property\<close>

text \<open>
  C8. No credit is lost and none is made. While the channels of a link are open, at every
  moment the window of the writer, the bytes on their way to the reader or buffered there,
  and the increments on their way back add up to the window both ends started with, in
  any interleaving; so a writer whose bytes were all read and whose increments all
  arrived has its whole window again.
\<close>

theorem credit_conserved:
  assumes "live_chan M contents chan_open" "W < 2 ^ 32" "reach (link_init M sid W) (link_step M sid) l"
  shows "window_capacity (st_window (lk_s l)) +
      length (data_of (contents (chans (lk_sh l) (sink_of (lk_s l))))) + length (data_of (lk_wire l)) +
      length (fut_data (lk_fut l)) + length (data_of (contents (chans (lk_rh l) (st_fin (lk_r l))))) +
      length (read_buf (lk_r l)) +
      incs (contents (chans (lk_rh l) (sink_of (lk_r l)))) + incs (lk_back l) +
      incs (contents (chans (lk_sh l) (st_fin (lk_s l)))) = W"
proof -
  have fc: "frame_chan M contents" using assms(1) by (simp add: live_chan_def)
  from live_chan.conserved [OF assms] show ?thesis
    by (simp add: frame_chan.arrived_def [OF fc] frame_chan.to_arrive_def [OF fc])
qed

text \<open>The link of \<open>demo_link\<close> after two bytes were written.\<close>

lemma demo_write:
  "\<exists>s h. poll_write bounded_mpsc 7 [1, 2] (lk_s demo_link) (lk_sh demo_link) = Some (Ready (Ok 2), s, h) \<and>
     window_capacity (st_window s) = 6"
proof -
  have "unat (Length_clamp (as_u32 (Suc (Suc 0)))) = 2"
    by (simp add: Length_clamp_def clamp_def LENGTH_MAX_def as_u32_def)
  then show ?thesis
    by (simp add: demo_eval poll_write_def poll_write_send_def sender_poll_ready_def sender_start_send_def)
qed

theorem credit_conserved_witness:
  "\<exists>l. reach (link_init bounded_mpsc 5 8) (link_step bounded_mpsc 5) l \<and> lk_sent l = [1, 2] \<and>
    window_capacity (st_window (lk_s l)) = 6 \<and>
    length (data_of (bc_queue (chans (lk_sh l) (sink_of (lk_s l))))) \<le> 2"
proof -
  obtain s h where w: "poll_write bounded_mpsc 7 [1, 2] (lk_s demo_link) (lk_sh demo_link) = Some (Ready (Ok 2), s, h)"
      "window_capacity (st_window s) = 6"
    using demo_write by blast
  let ?l = "demo_link\<lparr>lk_s := s, lk_sh := h, lk_sent := lk_sent demo_link @ written (Ready (Ok 2)) [1, 2]\<rparr>"
  have "reach (link_init bounded_mpsc 5 8) (link_step bounded_mpsc 5) demo_link"
    by (rule reach_init) (rule demo_link_init)
  then have r: "reach (link_init bounded_mpsc 5 8) (link_step bounded_mpsc 5) ?l"
    by (rule reach_step) (rule link_step.sender_writes [OF w(1)])
  have "lk_sent demo_link = []" using demo_link_init by (auto simp: link_init_def)
  with credit_conserved [OF bounded_live.live_chan_axioms _ r] r w(2) show ?thesis
    by (intro exI [of _ ?l]) simp
qed

end
