(* ===== verification/Pipe_Refinement.thy ===== *)
theory Pipe_Refinement
  imports Conservation
begin

text \<open>
  What a stream promises its users, as an abstract machine: a pipe of bytes that one end
  fills and closes and the other end empties, of bounded size. The link of two ends
  implements it.
\<close>

section \<open>The pipe\<close>

record pipe =
  pp_bytes :: bytes
  pp_closed :: bool

datatype pipe_op = Wrote bytes | Closed | Took bytes | Internal

fun wrote :: "pipe_op \<Rightarrow> bytes" where
  "wrote (Wrote bs) = bs"
| "wrote _ = []"

fun took :: "pipe_op \<Rightarrow> bytes" where
  "took (Took bs) = bs"
| "took _ = []"

fun pipe_step :: "nat \<Rightarrow> pipe_op \<Rightarrow> pipe \<Rightarrow> pipe \<Rightarrow> bool" where
  "pipe_step W (Wrote bs) p p' \<longleftrightarrow> \<not> pp_closed p \<and> length (pp_bytes p @ bs) \<le> W \<and> p' = p\<lparr>pp_bytes := pp_bytes p @ bs\<rparr>"
| "pipe_step W Closed p p' \<longleftrightarrow> p' = p\<lparr>pp_closed := True\<rparr>"
| "pipe_step W (Took bs) p p' \<longleftrightarrow> bs \<noteq> [] \<and> pp_bytes p = bs @ pp_bytes p' \<and> pp_closed p' = pp_closed p"
| "pipe_step W Internal p p' \<longleftrightarrow> p' = p"

text \<open>A reader is told that the pipe is at its end when it is closed and empty.\<close>

definition at_end :: "pipe \<Rightarrow> bool" where
  "at_end p \<longleftrightarrow> pp_closed p \<and> pp_bytes p = []"

section \<open>The pipe of a link\<close>

definition link_pipe :: "('c \<Rightarrow> frame list) \<Rightarrow> 'c link \<Rightarrow> pipe" where
  "link_pipe contents l = \<lparr>
     pp_bytes = read_buf (lk_r l) @ data_of (contents (chans (lk_rh l) (st_fin (lk_r l)))) @ fut_data (lk_fut l) @
       data_of (lk_wire l) @ data_of (contents (chans (lk_sh l) (sink_of (lk_s l)))),
     pp_closed = (write_closed (lk_s l) \<noteq> None)\<rparr>"

context live_chan
begin

lemma pipe_history:
  assumes "link_live sid W l"
  shows "lk_sent l = lk_got l @ pp_bytes (link_pipe contents l)" "length (pp_bytes (link_pipe contents l)) \<le> W"
proof -
  have e: "lk_err l = None" and d: "data_ok l" and inv: "link_inv sid W l"
    using assms by (simp_all add: link_live_def link_good_def eof_ok_def)
  have b: "pp_bytes (link_pipe contents l) = arrived l @ to_arrive l"
    by (simp add: link_pipe_def arrived_def to_arrive_def)
  show "lk_sent l = lk_got l @ pp_bytes (link_pipe contents l)"
    using d e by (auto simp: data_ok_def b)
  show "length (pp_bytes (link_pipe contents l)) \<le> W"
    unfolding b by (rule on_the_way [OF inv e])
qed

lemma pipe_eqI: "pp_bytes p = pp_bytes q \<Longrightarrow> pp_closed p = pp_closed q \<Longrightarrow> p = (q :: pipe)"
  by simp

lemma write_closes:
  assumes "link_inv sid W l" "poll_write M w buf (lk_s l) (lk_sh l) = Some (r, s', h')"
  shows "write_closed (lk_s l) \<noteq> None \<longrightarrow> written r buf = [] \<and> s' = lk_s l"
    "write_closed (lk_s l) = None \<longrightarrow> written r buf \<noteq> [] \<longrightarrow> write_closed s' = None"
proof -
  let ?s = "lk_s l" and ?h = "lk_sh l"
  show "write_closed ?s \<noteq> None \<longrightarrow> written r buf = [] \<and> s' = ?s"
    using assms(2) by (auto simp: poll_write_def)
  show "write_closed ?s = None \<longrightarrow> written r buf \<noteq> [] \<longrightarrow> write_closed s' = None"
  proof (intro impI)
    assume n: "write_closed ?s = None" and wr: "written r buf \<noteq> []"
    have ne: "sink_of ?s \<noteq> st_fin ?s" and sf: "\<forall>f \<in> set (queue ?h (st_fin ?s)). stream_frame f"
      using assms(1) plain_stream_frame(2) by (auto simp: link_defs simp del: stream_frame.simps)
    from wr obtain k where "r = Ready (Inr k)" by (cases r rule: poll_result_cases) auto
    with write_post [OF n ne sf, of w buf] assms(2) show "write_closed s' = None" by auto
  qed
qed

lemma pipe_simulation:
  assumes "link_live sid W l" "link_step M sid l l'"
  shows "\<exists>op. pipe_step W op (link_pipe contents l) (link_pipe contents l') \<and>
    lk_sent l' = lk_sent l @ wrote op \<and> lk_got l' = lk_got l @ took op"
proof -
  let ?p = "link_pipe contents l" and ?p' = "link_pipe contents l'"
  note h = pipe_history [OF assms(1)] and h' = pipe_history [OF live_step [OF assms(2,1)]]
  have inv: "link_inv sid W l" using assms(1) by (simp add: link_live_def link_good_def)
  have quiet: ?thesis if "lk_sent l' = lk_sent l" "lk_got l' = lk_got l" "pp_closed ?p' = pp_closed ?p \<or> pp_closed ?p'"
  proof -
    have b: "pp_bytes ?p' = pp_bytes ?p" using h(1) h'(1) that(1,2) by simp
    from that(3) show ?thesis
    proof
      assume "pp_closed ?p' = pp_closed ?p"
      with b have "?p' = ?p" by simp
      then show ?thesis using that by (intro exI [of _ Internal]) simp
    next
      assume "pp_closed ?p'"
      with b have "?p' = ?p\<lparr>pp_closed := True\<rparr>" by simp
      then show ?thesis using that by (intro exI [of _ Closed]) simp
    qed
  qed
  from assms(2) show ?thesis
  proof cases
    case (sender_writes w buf r s' h'')
    note cl = write_closes [OF inv sender_writes(2)]
    show ?thesis
    proof (cases "written r buf = []")
      case True
      then show ?thesis
        by (intro quiet) (use sender_writes cl(1) in \<open>auto simp: link_pipe_def\<close>)
    next
      case False
      then have "\<not> pp_closed ?p" "\<not> pp_closed ?p'" using cl sender_writes(1) by (auto simp: link_pipe_def)
      moreover have b: "pp_bytes ?p' = pp_bytes ?p @ written r buf"
        using h(1) h'(1) sender_writes(1) by simp
      ultimately have "pipe_step W (Wrote (written r buf)) ?p ?p'" using h'(2) by simp
      with sender_writes(1) show ?thesis by (intro exI [of _ "Wrote (written r buf)"]) simp
    qed
  next
    case (sender_shuts w r s' h'')
    have "write_closed (lk_s l) \<noteq> None \<longrightarrow> write_closed s' \<noteq> None"
      using shutdown_post(1) [OF sender_shuts(2)] by (auto split: if_splits)
    with sender_shuts(1) show ?thesis by (intro quiet) (auto simp: link_pipe_def)
  next
    case (receiver_reads w room r out s' h'')
    have c: "pp_closed ?p' = pp_closed ?p" using receiver_reads(1) by (simp add: link_pipe_def)
    show ?thesis
    proof (cases "out = []")
      case True
      with receiver_reads(1) c show ?thesis by (intro quiet) simp_all
    next
      case False
      have "pp_bytes ?p = out @ pp_bytes ?p'" using h(1) h'(1) receiver_reads(1) by simp
      with False c have "pipe_step W (Took out) ?p ?p'" by simp
      with receiver_reads(1) show ?thesis by (intro exI [of _ "Took out"]) simp
    qed
  qed (rule quiet; simp add: link_pipe_def)+
qed

lemma link_init_pipe:
  assumes "link_init M sid W l" "W < 2 ^ 32"
  shows "link_pipe contents l = \<lparr>pp_bytes = [], pp_closed = False\<rparr>"
proof -
  have "pp_bytes (link_pipe contents l) = []"
    using pipe_history(1) [OF live_init [OF assms]] assms(1) by (auto simp: link_init_def)
  moreover obtain h0 req1 where "open_req_create M W True h0 = ((req1, lk_s l), lk_sh l)"
    using assms(1) unfolding link_init_def by blast
  then have "\<not> pp_closed (link_pipe contents l)"
    using open_req_open by (simp add: link_pipe_def)
  ultimately show ?thesis by simp
qed

end

section \<open>Property\<close>

text \<open>
  C3. Two ends of a stream implement a bounded pipe. The link starts as the empty open
  pipe; every step of it (of the writer, the reader, the sessions or the wire) is a step
  of the pipe that writes and takes exactly the bytes the callers were told; the pipe
  never holds more than a window; and a reader is told of the end only when the pipe is
  closed and empty.
\<close>

theorem link_refines_pipe:
  assumes "live_chan M contents chan_open" "W < 2 ^ 32"
  shows "(link_init M sid W l0 \<longrightarrow> link_pipe contents l0 = \<lparr>pp_bytes = [], pp_closed = False\<rparr>) \<and>
    (reach (link_init M sid W) (link_step M sid) l \<longrightarrow>
       length (pp_bytes (link_pipe contents l)) \<le> W \<and>
       (\<forall>l'. link_step M sid l l' \<longrightarrow>
          (\<exists>op. pipe_step W op (link_pipe contents l) (link_pipe contents l') \<and>
             lk_sent l' = lk_sent l @ wrote op \<and> lk_got l' = lk_got l @ took op)) \<and>
       (\<forall>w room s' h'. 0 < room \<longrightarrow> poll_read M w room (lk_r l) (lk_rh l) = Some (Ready (Ok ()), [], s', h') \<longrightarrow>
          at_end (link_pipe contents l)))"
proof (intro conjI impI allI)
  assume i: "link_init M sid W l0"
  then show "link_pipe contents l0 = \<lparr>pp_bytes = [], pp_closed = False\<rparr>"
    by (rule live_chan.link_init_pipe [OF assms(1) _ assms(2)])
next
  assume r: "reach (link_init M sid W) (link_step M sid) l"
  note live = live_chan.live_machine [OF assms r]
  show "length (pp_bytes (link_pipe contents l)) \<le> W" by (rule live_chan.pipe_history(2) [OF assms(1) live])
  fix l'
  assume "link_step M sid l l'"
  then show "\<exists>op. pipe_step W op (link_pipe contents l) (link_pipe contents l') \<and>
      lk_sent l' = lk_sent l @ wrote op \<and> lk_got l' = lk_got l @ took op"
    by (rule live_chan.pipe_simulation [OF assms(1) live])
next
  fix w room s' h'
  assume r: "reach (link_init M sid W) (link_step M sid) l" and room: "0 < (room :: usize)"
    and rd: "poll_read M w room (lk_r l) (lk_rh l) = Some (Ready (Ok ()), [], s', h')"
  note live = live_chan.live_machine [OF assms r]
  have "lk_got l = lk_sent l" "write_closed (lk_s l) \<noteq> None"
    using live_chan.eof_reported [OF assms r rd room] by auto
  moreover have "pp_bytes (link_pipe contents l) = []"
    using live_chan.pipe_history(1) [OF assms(1) live] calculation(1) by simp
  ultimately show "at_end (link_pipe contents l)" by (simp add: at_end_def link_pipe_def)
qed

theorem link_refines_pipe_witness:
  "\<exists>l. link_step bounded_mpsc 5 demo_link l \<and> link_pipe bc_queue demo_link = \<lparr>pp_bytes = [], pp_closed = False\<rparr> \<and>
    link_pipe bc_queue l = \<lparr>pp_bytes = [1, 2], pp_closed = False\<rparr>"
proof -
  obtain s h where w: "poll_write bounded_mpsc 7 [1, 2] (lk_s demo_link) (lk_sh demo_link) = Some (Ready (Ok 2), s, h)"
    using demo_write by blast
  let ?l = "demo_link\<lparr>lk_s := s, lk_sh := h, lk_sent := lk_sent demo_link @ written (Ready (Ok 2)) [1, 2]\<rparr>"
  have st: "link_step bounded_mpsc 5 demo_link ?l" by (rule link_step.sender_writes [OF w])
  have r: "reach (link_init bounded_mpsc 5 8) (link_step bounded_mpsc 5) demo_link"
    by (rule reach_init) (rule demo_link_init)
  have "(8 :: nat) < 2 ^ 32" by simp
  note ref = link_refines_pipe [OF bounded_live.live_chan_axioms this, of 5 demo_link demo_link]
  have p: "link_pipe bc_queue demo_link = \<lparr>pp_bytes = [], pp_closed = False\<rparr>"
    by (rule mp [OF conjunct1 [OF ref] demo_link_init])
  note steps = conjunct1 [OF conjunct2 [OF mp [OF conjunct2 [OF ref] r]]]
  obtain op where op: "pipe_step 8 op (link_pipe bc_queue demo_link) (link_pipe bc_queue ?l)"
      "lk_sent ?l = lk_sent demo_link @ wrote op"
    using mp [OF spec [OF steps] st] by (elim exE conjE) (rule that)
  have "wrote op = [1, 2]" using op(2) by simp
  with op(1) p st show ?thesis by (cases op) auto
qed

end
