(* ===== verification/Stream_Life.thy ===== *)
theory Stream_Life
  imports Conservation
begin

text \<open>
  The life of one stream at one side: the program writes, reads, shuts down and drops it
  (\<open>stream.rs\<close>), while the manager passes its frames on to the remote and frames of
  the remote on to it (\<open>stream_manager.rs\<close>). However the life goes, the remote is sent
  at most one FIN and no data after it; a stream that is dropped without having been reset
  has all that was written sent, and then exactly one FIN.
\<close>

section \<open>Dropping a stream\<close>

text \<open>
  \<open>Drop for Stream\<close> has an empty body of its own; its fields go out of scope in their order,
  the receiver before the sender.
\<close>

definition stream_drop :: "(frame, 'c) mpsc \<Rightarrow> mux_stream \<Rightarrow> 'c heap \<Rightarrow> 'c heap" where
  "stream_drop M s h =
     (let h1 = drop_rx M (st_fin s) h in
      set_chan (sink_of s) (tx_drop M (chans h1 (sink_of s))) h1)"

section \<open>The machine\<close>

text \<open>
  \<open>lf_out\<close> is what the remote was sent, \<open>lf_sent\<close> the bytes that writes took, and
  \<open>lf_reset\<close> records that the stream was reset: a RST arrived, or a delivery failed,
  for which the session sends one.
\<close>

record 'c life =
  lf_s :: mux_stream
  lf_alive :: bool
  lf_m :: stream_manager
  lf_h :: "'c heap"
  lf_fut :: "send_fut option"
  lf_close :: bool
  lf_out :: "frame list"
  lf_sent :: bytes
  lf_reset :: bool

definition remote_frame :: "u32 \<Rightarrow> frame \<Rightarrow> bool" where
  "remote_frame sid f \<longleftrightarrow> hdr_stream_id (frame_header f) = sid \<and>
     (stream_frame f \<or> hdr_typ (frame_header f) = HRst \<and> (\<exists>e. frame_body f = Rst e))"

fun is_rst :: "send_fut \<Rightarrow> bool" where
  "is_rst k = (case sf_frame k of Some f \<Rightarrow> (case frame_body f of Rst _ \<Rightarrow> True | _ \<Rightarrow> False) | None \<Rightarrow> False)"

text \<open>One poll of the task of the stream that is ready.\<close>

inductive output_step :: "(frame, 'c) mpsc \<Rightarrow> waker \<Rightarrow> u32 \<Rightarrow> 'c life \<Rightarrow> 'c life \<Rightarrow> bool" for M w sid where
  outputs: "get_stream sid (lf_m l) = Ok hdl \<Longrightarrow> rx_poll_next M w (chans (lf_h l) (sink_of (lf_s l))) = (Ready item, c)
    \<Longrightarrow> handle_task_item M w sid item (sink_of (lf_s l)) (lf_m l) (set_chan (sink_of (lf_s l)) c (lf_h l)) = (r, m', h')
    \<Longrightarrow> output_step M w sid l (l\<lparr>lf_m := m', lf_h := h',
          lf_out := lf_out l @ (case r of Ready (Some f) \<Rightarrow> [f] | _ \<Rightarrow> [])\<rparr>)"

inductive_cases output_stepE: "output_step M w sid l l'"

lemma output_step_deterministic:
  assumes "output_step M w sid l l1" "output_step M w sid l l2"
  shows "l1 = l2"
  using assms by (auto elim!: output_stepE)

inductive life_step :: "(frame, 'c) mpsc \<Rightarrow> u32 \<Rightarrow> 'c life \<Rightarrow> 'c life \<Rightarrow> bool" for M sid where
  writes: "lf_alive l \<Longrightarrow> poll_write M w buf (lf_s l) (lf_h l) = Some (r, s', h')
    \<Longrightarrow> life_step M sid l (l\<lparr>lf_s := s', lf_h := h', lf_sent := lf_sent l @ written r buf\<rparr>)"
| reads: "lf_alive l \<Longrightarrow> poll_read M w room (lf_s l) (lf_h l) = Some (r, got, s', h')
    \<Longrightarrow> life_step M sid l (l\<lparr>lf_s := s', lf_h := h'\<rparr>)"
| shuts: "lf_alive l \<Longrightarrow> poll_shutdown M w (lf_s l) (lf_h l) = (r, s', h')
    \<Longrightarrow> life_step M sid l (l\<lparr>lf_s := s', lf_h := h'\<rparr>)"
| drops: "lf_alive l
    \<Longrightarrow> life_step M sid l (l\<lparr>lf_alive := False, lf_h := stream_drop M (lf_s l) (lf_h l)\<rparr>)"
| arrives: "lf_fut l = None \<Longrightarrow> remote_frame sid f \<Longrightarrow> send_to_stream_start f = Ok k
    \<Longrightarrow> life_step M sid l (l\<lparr>lf_fut := Some k, lf_close := is_fin f\<rparr>)"
| delivers: "lf_fut l = Some k \<Longrightarrow> send_to_stream_poll M w k (lf_m l) (lf_h l) = (r, k', m', h')
    \<Longrightarrow> life_step M sid l (l\<lparr>lf_m := (if r = Ready (Ok ()) then frame_delivered (lf_close l) sid m' else m'), lf_h := h',
          lf_fut := (if r = Pending then Some k' else None),
          lf_reset := lf_reset l \<or> is_rst k \<or> (\<exists>e. r = Ready (Err e))\<rparr>)"
| polled: "output_step M w sid l l' \<Longrightarrow> life_step M sid l l'"

definition life_init :: "(frame, 'c) mpsc \<Rightarrow> u32 \<Rightarrow> 'c life \<Rightarrow> bool" where
  "life_init M sid l \<longleftrightarrow> (\<exists>W syn h0 req h1 origin m.
     open_req_create M W syn h0 = ((req, lf_s l), h1) \<and> sid \<notin> fst ` set (streams m) \<and>
     create_stream M origin req m h1 = (Ok sid, lf_m l, lf_h l) \<and>
     lf_alive l \<and> lf_fut l = None \<and> lf_out l = [] \<and> lf_sent l = [] \<and> \<not> lf_reset l)"

declare stream_frame.simps [simp del] frame_data.simps [simp del]

section \<open>Silence after a FIN\<close>

fun quiet :: "frame list \<Rightarrow> bool" where
  "quiet [] \<longleftrightarrow> True"
| "quiet (f # fs) \<longleftrightarrow> (is_fin f \<longrightarrow> (\<forall>g \<in> set fs. \<not> is_fin g \<and> frame_data g = [])) \<and> quiet fs"

lemma quiet_append:
  "quiet (fs @ gs) \<longleftrightarrow> quiet fs \<and> quiet gs \<and> (list_ex is_fin fs \<longrightarrow> (\<forall>g \<in> set gs. \<not> is_fin g \<and> frame_data g = []))"
  by (induction fs) auto

lemma quiet_plain:
  assumes "\<forall>f \<in> set fs. \<not> is_fin f \<and> frame_data f = []"
  shows "quiet fs" "\<not> list_ex is_fin fs" "data_of fs = []"
  using assms by (induction fs) simp_all

lemma quiet_one_fin: "quiet fs \<Longrightarrow> length (filter is_fin fs) = (if list_ex is_fin fs then 1 else 0)"
  by (induction fs) (auto simp: filter_empty_conv list_ex_iff)

section \<open>What the program does to its stream\<close>

text \<open>
  A channel whose only sender was dropped: what is left can be received, and then its
  end. Flushing an open channel does not fail.
\<close>

locale drop_chan = live_chan M contents chan_open
  for M :: "(frame, 'c) mpsc" and contents :: "'c \<Rightarrow> frame list" and chan_open :: "'c \<Rightarrow> bool" +
  fixes chan_ended :: "'c \<Rightarrow> bool"
  assumes drop_ends: "chan_ended (tx_drop M c)"
    and next_ended: "rx_poll_next M w c = (p, c') \<Longrightarrow> chan_ended c \<Longrightarrow> chan_ended c' \<and> p \<noteq> Pending"
    and flush_open: "tx_poll_flush M w c = (r, c') \<Longrightarrow> chan_open c \<Longrightarrow> chan_open c' \<and> r \<noteq> Ready (Err e)"
begin

text \<open>
  An operation appends the frames \<open>fs\<close> to the sink and takes frames from its own channel. It
  appends data or a FIN only while the writer is open, and closes it with a FIN.
\<close>

definition sink_op :: "mux_stream \<Rightarrow> 'c heap \<Rightarrow> frame list \<Rightarrow> mux_stream \<Rightarrow> 'c heap \<Rightarrow> bool" where
  "sink_op s h fs s' h' \<longleftrightarrow> st_fin s' = st_fin s \<and> st_fout s' = st_fout s \<and>
     queue h' (sink_of s) = queue h (sink_of s) @ fs \<and> (\<exists>used. queue h (st_fin s) = used @ queue h' (st_fin s)) \<and>
     quiet fs \<and> (\<forall>f \<in> set fs. is_fin f \<or> frame_data f \<noteq> [] \<longrightarrow> write_closed s = None) \<and>
     (list_ex is_fin fs \<or> write_closed s \<noteq> None \<longrightarrow> write_closed s' \<noteq> None) \<and> (sink_live s h \<longrightarrow> sink_live s' h')"

lemma sink_live_cong: "st_fout s' = st_fout s \<Longrightarrow> sink_live s' h = sink_live s h"
  by (simp add: sink_live_def)

lemma write_send_live:
  assumes "poll_write_send M w buf s h = (r, s', h')" "sink_live s h"
  shows "sink_live s h'"
proof -
  obtain q h1 where pr: "sender_poll_ready M w (st_fout s) h = (q, h1)" by fastforce
  define f where "f = data_frame (needs_syn s) (take (write_len (st_window s) buf) buf)"
  obtain q2 h2 where ps: "sender_start_send M f (st_fout s) h1 = (q2, h2)" by fastforce
  note live = ready_live [OF pr assms(2)]
  show ?thesis
  proof (cases "q = Pending")
    case True
    with assms(1) pr live(1) show ?thesis by (simp add: poll_write_send_def)
  next
    case False
    then have q: "q = Ready (Ok ())" using live(2) by simp
    note sent = send_live [OF pr [unfolded q] ps assms(2)]
    have "h' = h2"
      using assms(1) pr q ps sent(2) unfolding poll_write_send_def f_def write_len_def data_frame_def
      by (auto simp: Let_def split: if_splits)
    with sent(1) show ?thesis by simp
  qed
qed

lemma write_sink:
  assumes "sink_of s \<noteq> st_fin s" "\<forall>f \<in> set (queue h (st_fin s)). stream_frame f"
    "poll_write M w buf s h = Some (r, s', h')"
  obtains fs where "sink_op s h fs s' h'" "data_of fs = written r buf"
proof -
  obtain fs used where w: "queue h' (sink_of s') = queue h (sink_of s) @ fs" "st_fout s' = st_fout s"
    "data_of fs = written r buf" "\<forall>f \<in> set fs. \<exists>syn bs. f = data_frame syn bs"
    "fs \<noteq> [] \<longrightarrow> write_closed s = None" "write_closed s \<noteq> None \<longrightarrow> s' = s \<and> h' = h"
    "queue h (st_fin s) = used @ queue h' (st_fin s)" "st_fin s' = st_fin s"
    by (rule write_adds [OF assms]) (rule that; assumption)
  have "\<forall>f \<in> set fs. \<not> is_fin f" using w(4) plain_data_frame(2) by fastforce
  then have "quiet fs" "\<not> list_ex is_fin fs" by (induction fs) auto
  moreover have "sink_live s' h'" if live: "sink_live s h"
  proof (cases "write_closed s = None \<and> window_capacity (st_window s) = 0")
    case False
    then have "sink_live s h'"
      using assms(3) live write_send_live [of w buf s h r s' h'] by (auto simp: poll_write_def split: option.splits)
    then show ?thesis using w(2) by (simp add: sink_live_def)
  next
    case True
    let ?s = "s\<lparr>write_waker := Some w\<rparr>"
    have "recv_spec w HWndInc ?s h (poll_recv_wndinc M w ?s h)"
      unfolding poll_recv_wndinc_def by (rule recv_frame_type_post) (use assms(2) in simp)
    then obtain r1 s1 h1 us closed where rv: "poll_recv_wndinc M w ?s h = Some (r1, s1, h1)"
        "st_fout s1 = st_fout s" "recv_post w us ?s h h1" "recv_result HWndInc r1 us closed (queue h1 (st_fin s))"
      unfolding recv_spec_def by auto
    have live1: "sink_live s1 h1"
      using rv(2,3) assms(1) live by (auto simp: sink_live_def recv_post_def)
    from rv(4) have "r1 = Pending \<or> r1 = Ready (Ok ())" using recv_result_ok by blast
    then have "sink_live s1 h'"
      using assms(3) True rv(1) live1 write_send_live [of w buf s1 h1 r s' h'] by (auto simp: poll_write_def)
    then show ?thesis using w(2) rv(2) by (simp add: sink_live_def)
  qed
  ultimately have "sink_op s h fs s' h'"
    using w by (auto simp: sink_op_def)
  then show thesis using that w(3) by blast
qed

lemma flush_live:
  assumes "sender_poll_flush M w (st_fout s) h = (r, h')" "sink_live s h"
  shows "sink_live s h'"
proof -
  obtain p c where pf: "tx_poll_flush M w (chans h (sink_of s)) = (p, c)" by fastforce
  have "chan_open c" "\<And>e. p \<noteq> Ready (Err e)" "p \<noteq> Panicked"
    using assms(2) flush_open [OF pf] flush_keeps [OF pf] by (auto simp: sink_live_def)
  with assms show ?thesis
    by (cases p rule: poll_result_cases; auto simp: sender_poll_flush_def check_closed_cases on_chan_def pf sink_live_def)
qed

lemma shutdown_sink:
  assumes "sink_of s \<noteq> st_fin s" "poll_shutdown M w s h = (r, s', h')"
  obtains fs where "sink_op s h fs s' h'" "data_of fs = []"
proof -
  obtain q h1 where pr: "sender_poll_ready M w (st_fout s) h = (q, h1)" by fastforce
  obtain q2 h2 where ps: "sender_start_send M fin_frame (st_fout s) h1 = (q2, h2)" by fastforce
  obtain q3 h3 where f3: "sender_poll_flush M w (st_fout s) h2 = (q3, h3)" by fastforce
  obtain q4 h4 where f4: "sender_poll_flush M w (st_fout s) h = (q4, h4)" by fastforce
  have live: "sink_live s' h'" if l: "sink_live s h"
  proof -
    have "sink_live s h'"
    proof (cases "write_closed s = None")
      case True
      then show ?thesis
        using assms(2) ready_live [OF pr l] send_live [OF _ ps l, of w] flush_live [OF f3] pr
        by (auto simp: poll_shutdown_def stream_poll_flush_def ps f3 closed_err_def split: poll.splits sum.splits)
    next
      case False
      then show ?thesis
        using assms(2) flush_live [OF f4 l]
        by (auto simp: poll_shutdown_def stream_poll_flush_def f4 closed_err_def split: poll.splits sum.splits)
    qed
    then show ?thesis using shutdown_post(2) [OF assms(2)] by (simp add: sink_live_def)
  qed
  obtain code where s': "s' = s\<lparr>write_closed := code\<rparr>" and fr: "sender_frame (st_fout s) h h'"
    using shutdown_frame [OF assms(2)] by blast
  have fin: "queue h' (st_fin s) = queue h (st_fin s)"
    using fr assms(1) by (simp add: sender_frame_def)
  define fs where "fs = drop (length (queue h (sink_of s))) (queue h' (sink_of s))"
  have "fs = [] \<or> fs = [fin_frame] \<and> write_closed s = None \<and> write_closed s' \<noteq> None"
    "queue h' (sink_of s) = queue h (sink_of s) @ fs" "write_closed s \<noteq> None \<longrightarrow> write_closed s' \<noteq> None"
    using shutdown_post(1) [OF assms(2)] by (auto simp: fs_def split: if_splits)
  with live s' fin show thesis
    by (intro that [of fs]) (auto simp: sink_op_def plain_fin_frame(3))
qed

lemma read_op:
  assumes "sink_of s \<noteq> st_fin s" "\<forall>f \<in> set (queue h (st_fin s)). stream_frame f"
    "poll_read M w room s h = Some (r, got, s', h')"
  obtains fs where "sink_op s h fs s' h'" "data_of fs = []"
proof -
  from read_sink [OF assms] obtain incs where i: "queue h' (sink_of s) = queue h (sink_of s) @ incs"
    "\<forall>f \<in> set incs. \<exists>i. f = frame_from_body (WndInc i)" and e: "read_effect s h s' h'"
    unfolding read_effect_def by blast
  have plain: "\<forall>f \<in> set incs. \<not> is_fin f \<and> frame_data f = []"
  proof
    fix f assume "f \<in> set incs"
    with i(2) obtain n where "f = frame_from_body (WndInc n)" by blast
    then show "\<not> is_fin f \<and> frame_data f = []"
      by (simp add: frame_from_body_def Let_def is_fin_def header_default_def flag_defs frame_data.simps)
  qed
  show thesis
  proof (rule that [of incs])
    show "sink_op s h incs s' h'"
      using e i(1) quiet_plain [OF plain] plain unfolding sink_op_def read_effect_def by metis
  qed (rule quiet_plain(3) [OF plain])
qed

section \<open>The invariant\<close>

definition fut_known :: "u32 \<Rightarrow> send_fut \<Rightarrow> bool" where
  "fut_known sid k \<longleftrightarrow> sf_id k = sid \<and> (\<exists>f. sf_frame k = Some f \<and> remote_frame sid f \<and> sf_typ k = hdr_typ (frame_header f))"

text \<open>
  While the manager knows the stream: what was sent and what is queued are the bytes
  written, with silence after a FIN, and the handle owes a FIN until one was sent or the
  stream was reset.
\<close>

definition known_ok :: "mux_stream \<Rightarrow> 'c heap \<Rightarrow> bool \<Rightarrow> frame list \<Rightarrow> bytes \<Rightarrow> bool \<Rightarrow> stream_handle \<Rightarrow> bool" where
  "known_ok s h alive out sent rst hdl \<longleftrightarrow> (let all = out @ queue h (sink_of s) in
     to_stream hdl = st_fin s \<and> sink_closer hdl = snd_closer (st_fout s) \<and> quiet all \<and> sent = data_of all \<and>
     (alive \<and> list_ex is_fin all \<longrightarrow> write_closed s \<noteq> None) \<and>
     (needs_fin hdl \<longleftrightarrow> \<not> rst \<and> \<not> list_ex is_fin out) \<and> (\<not> alive \<longrightarrow> chan_ended (chans h (sink_of s))))"

text \<open>When it was removed: it was reset, or it was dropped and everything was sent.\<close>

definition removed_ok :: "mux_stream \<Rightarrow> bool \<Rightarrow> frame list \<Rightarrow> bytes \<Rightarrow> bool \<Rightarrow> bool" where
  "removed_ok s alive out sent rst \<longleftrightarrow> quiet out \<and> (\<exists>lost. sent = data_of out @ lost) \<and>
     (alive \<and> list_ex is_fin out \<longrightarrow> write_closed s \<noteq> None) \<and>
     (rst \<or> \<not> alive \<and> list_ex is_fin out \<and> sent = data_of out)"

definition life_ok :: "u32 \<Rightarrow> 'c life \<Rightarrow> bool" where
  "life_ok sid l \<longleftrightarrow> sink_of (lf_s l) \<noteq> st_fin (lf_s l) \<and> (\<forall>f \<in> set (queue (lf_h l) (st_fin (lf_s l))). stream_frame f) \<and>
     (\<forall>k. lf_fut l = Some k \<longrightarrow> fut_known sid k) \<and>
     (\<not> lf_reset l \<longrightarrow> codes (lf_h l) (snd_closer (st_fout (lf_s l))) = 0 \<and> (lf_alive l \<longrightarrow> sink_live (lf_s l) (lf_h l))) \<and>
     (case get_stream sid (lf_m l) of
        Inr hdl \<Rightarrow> known_ok (lf_s l) (lf_h l) (lf_alive l) (lf_out l) (lf_sent l) (lf_reset l) hdl
      | Inl _ \<Rightarrow> removed_ok (lf_s l) (lf_alive l) (lf_out l) (lf_sent l) (lf_reset l))"

lemma known_op:
  assumes "known_ok s h True out sent rst hdl" "sink_op s h fs s' h'"
  shows "known_ok s' h' True out (sent @ data_of fs) rst hdl"
proof -
  let ?all = "out @ queue h (sink_of s)"
  have all: "quiet ?all" "list_ex is_fin ?all \<longrightarrow> write_closed s \<noteq> None" "sent = data_of ?all"
    using assms(1) by (simp_all add: known_ok_def Let_def)
  have fs: "quiet fs" "\<forall>f \<in> set fs. is_fin f \<or> frame_data f \<noteq> [] \<longrightarrow> write_closed s = None"
    and q: "queue h' (sink_of s) = queue h (sink_of s) @ fs" "st_fin s' = st_fin s" "st_fout s' = st_fout s"
      "list_ex is_fin fs \<or> write_closed s \<noteq> None \<longrightarrow> write_closed s' \<noteq> None"
    using assms(2) by (simp_all add: sink_op_def)
  have "quiet (?all @ fs)"
    unfolding quiet_append [of ?all] using all(1,2) fs by metis
  with all q assms(1) show ?thesis by (auto simp: known_ok_def Let_def)
qed

lemma op_life:
  assumes "life_ok sid l" "lf_alive l" "sink_op (lf_s l) (lf_h l) fs s' h'"
  shows "life_ok sid (l\<lparr>lf_s := s', lf_h := h', lf_sent := lf_sent l @ data_of fs\<rparr>)"
proof -
  have same: "st_fin s' = st_fin (lf_s l)" "st_fout s' = st_fout (lf_s l)"
    and live: "sink_live (lf_s l) (lf_h l) \<longrightarrow> sink_live s' h'" "write_closed (lf_s l) \<noteq> None \<longrightarrow> write_closed s' \<noteq> None"
    using assms(3) by (simp_all add: sink_op_def)
  obtain used where "queue (lf_h l) (st_fin (lf_s l)) = used @ queue h' (st_fin s')"
    using assms(3) by (auto simp: sink_op_def)
  then have "\<forall>f \<in> set (queue h' (st_fin s')). stream_frame f"
    using assms(1) by (simp add: life_ok_def del: stream_frame.simps)
  then show ?thesis
    using assms(1,2) same live known_op [OF _ assms(3)]
    by (cases "get_stream sid (lf_m l)")
      (auto simp: life_ok_def removed_ok_def sink_live_def)
qed

lemma drop_life:
  assumes "life_ok sid l" "lf_alive l"
  shows "life_ok sid (l\<lparr>lf_alive := False, lf_h := stream_drop M (lf_s l) (lf_h l)\<rparr>)"
  using assms drop_ends
  by (auto simp: life_ok_def known_ok_def removed_ok_def Let_def stream_drop_def drop_rx_def chan_laws split: sum.splits)

lemma arrive_life:
  assumes "life_ok sid l" "remote_frame sid f" "send_to_stream_start f = Ok k"
  shows "life_ok sid (l\<lparr>lf_fut := Some k, lf_close := is_fin f\<rparr>)"
proof -
  have "fut_known sid k"
    using assms(2,3) by (auto simp: send_to_stream_start_def fut_known_def remote_frame_def Let_def split: body.splits)
  with assms(1) show ?thesis by (simp add: life_ok_def split: sum.splits)
qed

text \<open>A poll of a delivery touches the channel to the stream and its closer, nothing of the sink.\<close>

lemma delivery_effect:
  assumes "send_to_stream_poll M w k m h = (r, k', m', h')" "get_stream (sf_id k) m = Ok hdl" "fut_known sid k"
  obtains hdl' where "m' = put_stream (sf_id k) hdl' m" "to_stream hdl' = to_stream hdl" "sink_closer hdl' = sink_closer hdl"
    "needs_fin hdl' = (needs_fin hdl \<and> \<not> is_rst k \<and> (\<forall>e. r \<noteq> Ready (Err e)))"
    "\<forall>i. i \<noteq> to_stream hdl \<longrightarrow> chans h' i = chans h i"
    "\<not> is_rst k \<and> (\<forall>e. r \<noteq> Ready (Err e)) \<longrightarrow> codes h' = codes h"
    "\<forall>f \<in> set (queue h' (to_stream hdl)). stream_frame f \<or> f \<in> set (queue h (to_stream hdl))"
    "r = Pending \<longrightarrow> fut_known sid k'"
proof -
  obtain f where f: "sf_frame k = Some f" "remote_frame sid f" "sf_typ k = hdr_typ (frame_header f)" "sf_id k = sid"
    using assms(3) by (auto simp: fut_known_def)
  obtain r1 k1 hdl1 h1 where fh: "fut_handle_frame M w k hdl h = (r1, k1, hdl1, h1)"
    by (cases "fut_handle_frame M w k hdl h") auto
  show thesis
  proof (cases "\<exists>e. frame_body f = Rst e")
    case True
    then obtain e where e: "frame_body f = Rst e" by blast
    then have "sf_typ k = HRst" using f(2,3) by (auto simp: remote_frame_def stream_frame.simps)
    then have "fut_handle_frame M w k hdl h =
        (Ready (Ok ()), k, hdl\<lparr>data_write_closed := True, needs_fin := False\<rparr>, close_with (sink_closer hdl) e h)"
      using f(1) e by (simp add: fut_handle_frame_def Let_def)
    with assms(1,2) \<open>sf_typ k = HRst\<close> f(1) e show thesis
      by (intro that [of "hdl\<lparr>data_write_closed := True, needs_fin := False\<rparr>"]) (auto simp: send_to_stream_poll_def)
  next
    case False
    obtain p c where pr: "tx_poll_ready M w (chans h (to_stream hdl)) = (p, c)" by fastforce
    obtain q c2 where ps: "tx_start_send M f c = (q, c2)" by fastforce
    have c: "contents c = queue h (to_stream hdl)" "p \<noteq> Panicked" using ready_keeps [OF pr] by simp_all
    have c2: "set (contents c2) \<subseteq> insert f (set (contents c))"
      using contents_send [of f c] ps by (auto split: sum.splits)
    have sf: "stream_frame f" using False f(2) by (auto simp: remote_frame_def)
    have "fut_handle_frame M w k hdl h =
      (if sf_typ k = HData \<and> data_write_closed hdl then (Ready (Err StreamClosed), k, hdl, h)
       else if sf_shrink k \<le> hd_window hdl then
         (case p of
            Pending \<Rightarrow> (Pending, k\<lparr>sf_shrink := 0\<rparr>, hdl\<lparr>hd_window := hd_window hdl - sf_shrink k\<rparr>, set_chan (to_stream hdl) c h)
          | Ready (Inl e) \<Rightarrow> (Ready (if sf_is_fin k then Ok () else Err StreamClosed), k\<lparr>sf_shrink := 0\<rparr>,
              hdl\<lparr>hd_window := hd_window hdl - sf_shrink k\<rparr>, set_chan (to_stream hdl) c h)
          | _ \<Rightarrow> (Ready (case q of Inr _ \<Rightarrow> Ok () | Inl _ \<Rightarrow> if sf_is_fin k then Ok () else Err StreamClosed),
              k\<lparr>sf_shrink := 0, sf_frame := None\<rparr>, hdl\<lparr>hd_window := hd_window hdl - sf_shrink k\<rparr>, set_chan (to_stream hdl) c2 h))
       else (Ready (Err FlowControl), k, hdl, h))"
      using False f(1) pr ps c(2)
      by (cases p rule: poll_result_cases; cases "frame_body f";
        simp add: fut_handle_frame_def Let_def on_chan_def set_chan_def split: sum.splits)
    with fh have e0: "hdl1 = hdl\<lparr>hd_window := hd_window hdl1\<rparr>" "r1 = Pending \<longrightarrow> k1 = k\<lparr>sf_shrink := 0\<rparr>" "r1 \<noteq> Panicked"
      "h1 = h \<or> h1 = set_chan (to_stream hdl) c h \<or> h1 = set_chan (to_stream hdl) c2 h"
      by (auto split: if_splits poll.splits sum.splits)
    have "to_stream hdl1 = to_stream hdl" "sink_closer hdl1 = sink_closer hdl" "needs_fin hdl1 = needs_fin hdl"
      by (subst e0(1), simp)+
    moreover have "\<forall>i. i \<noteq> to_stream hdl \<longrightarrow> chans h1 i = chans h i" "codes h1 = codes h"
      using e0(4) by auto
    moreover have "\<forall>g \<in> set (queue h1 (to_stream hdl)). stream_frame g \<or> g \<in> set (queue h (to_stream hdl))"
      using e0(4) c c2 sf by auto
    moreover have "r1 = Pending \<longrightarrow> fut_known sid k1"
      using e0(2) f by (auto simp: fut_known_def)
    ultimately have e1: "to_stream hdl1 = to_stream hdl" "sink_closer hdl1 = sink_closer hdl" "needs_fin hdl1 = needs_fin hdl"
      "\<forall>i. i \<noteq> to_stream hdl \<longrightarrow> chans h1 i = chans h i" "codes h1 = codes h"
      "\<forall>g \<in> set (queue h1 (to_stream hdl)). stream_frame g \<or> g \<in> set (queue h (to_stream hdl))"
      "r1 = Pending \<longrightarrow> fut_known sid k1" "r1 \<noteq> Panicked" using e0(3) by simp_all
    have nr: "\<not> is_rst k" using False f(1) by (auto split: body.splits)
    show thesis
    proof (cases "\<exists>e. r = Ready (Err e)")
      case True
      with assms(1,2) fh have "m' = put_stream (sf_id k) (hdl1\<lparr>data_write_closed := True, needs_fin := False\<rparr>) m"
        "h' = close_with (sink_closer hdl1) StreamClosed h1"
        by (auto simp: send_to_stream_poll_def split: poll.splits sum.splits if_splits)
      with True e1 nr show thesis
        by (intro that [of "hdl1\<lparr>data_write_closed := True, needs_fin := False\<rparr>"]) (auto simp del: is_rst.simps)
    next
      case False
      with assms(1,2) fh e1(8) have "m' = put_stream (sf_id k) hdl1 m" "h' = h1" "r = Pending \<longrightarrow> r1 = Pending \<and> k' = k1"
        by (auto simp: send_to_stream_poll_def split: poll.splits sum.splits if_splits)
      with False e1 nr show thesis
        by (intro that [of hdl1]) (auto simp del: is_rst.simps)
    qed
  qed
qed

lemma deliver_life:
  assumes "life_ok sid l" "lf_fut l = Some k" "send_to_stream_poll M w k (lf_m l) (lf_h l) = (r, k', m', h')"
  shows "life_ok sid (l\<lparr>lf_m := (if r = Ready (Ok ()) then frame_delivered (lf_close l) sid m' else m'), lf_h := h',
    lf_fut := (if r = Pending then Some k' else None), lf_reset := lf_reset l \<or> is_rst k \<or> (\<exists>e. r = Ready (Err e))\<rparr>)"
proof -
  have known: "fut_known sid k" and id: "sf_id k = sid" using assms(1,2) by (auto simp: life_ok_def fut_known_def)
  show ?thesis
  proof (cases "get_stream sid (lf_m l)")
    case (Inl e)
    with assms(3) id have "m' = lf_m l" "h' = lf_h l" "r \<noteq> Pending"
      by (auto simp: send_to_stream_poll_def split: if_splits)
    with Inl assms(1) show ?thesis
      by (auto simp: life_ok_def removed_ok_def frame_delivered_def simp del: is_rst.simps)
  next
    case (Inr hdl)
    obtain hdl' where e: "m' = put_stream (sf_id k) hdl' (lf_m l)" "to_stream hdl' = to_stream hdl" "sink_closer hdl' = sink_closer hdl"
      "needs_fin hdl' = (needs_fin hdl \<and> \<not> is_rst k \<and> (\<forall>e. r \<noteq> Ready (Err e)))"
      "\<forall>i. i \<noteq> to_stream hdl \<longrightarrow> chans h' i = chans (lf_h l) i"
      "\<not> is_rst k \<and> (\<forall>e. r \<noteq> Ready (Err e)) \<longrightarrow> codes h' = codes (lf_h l)"
      "\<forall>f \<in> set (queue h' (to_stream hdl)). stream_frame f \<or> f \<in> set (queue (lf_h l) (to_stream hdl))"
      "r = Pending \<longrightarrow> fut_known sid k'"
      by (rule delivery_effect [OF assms(3) _ known]) (use Inr id that in auto)
    obtain hdl2 where g: "get_stream sid (if r = Ready (Ok ()) then frame_delivered (lf_close l) sid m' else m') = Ok hdl2"
      and h2: "to_stream hdl2 = to_stream hdl" "sink_closer hdl2 = sink_closer hdl" "needs_fin hdl2 = needs_fin hdl'"
      using e(1-3) id frame_delivered_get [of sid m' hdl' "lf_close l"] by (cases "r = Ready (Ok ())") auto
    have k: "known_ok (lf_s l) (lf_h l) (lf_alive l) (lf_out l) (lf_sent l) (lf_reset l) hdl"
      and ne: "sink_of (lf_s l) \<noteq> st_fin (lf_s l)" using assms(1) Inr by (simp_all add: life_ok_def)
    then have to: "to_stream hdl = st_fin (lf_s l)" by (simp add: known_ok_def Let_def)
    have sink: "chans h' (sink_of (lf_s l)) = chans (lf_h l) (sink_of (lf_s l))" using e(5) to ne by simp
    have "known_ok (lf_s l) h' (lf_alive l) (lf_out l) (lf_sent l) (lf_reset l \<or> is_rst k \<or> (\<exists>e. r = Ready (Err e))) hdl2"
      using k h2 e(4) sink by (auto simp: known_ok_def Let_def simp del: is_rst.simps)
    moreover have "\<forall>f \<in> set (queue h' (st_fin (lf_s l))). stream_frame f"
      using assms(1) e(7) to by (auto simp: life_ok_def)
    moreover have "\<not> (lf_reset l \<or> is_rst k \<or> (\<exists>e. r = Ready (Err e))) \<longrightarrow>
        codes h' (snd_closer (st_fout (lf_s l))) = 0 \<and> (lf_alive l \<longrightarrow> sink_live (lf_s l) h')"
      using assms(1) e(6) sink by (auto simp: life_ok_def sink_live_def simp del: is_rst.simps)
    ultimately show ?thesis
      using g ne e(8) by (simp add: life_ok_def del: is_rst.simps)
  qed
qed

text \<open>The task of the stream gives its next frame, or its end.\<close>

lemma get_stream_simps [simp]:
  "get_stream sid (push_task i c m) = get_stream sid m"
  "get_stream sid (fst (remove_stream M sid m h)) = Err StreamClosed"
  by (simp_all add: get_stream_def push_task_def remove_stream_def delete_conv)

lemma remove_stream_heap:
  assumes "remove_stream M sid m h = (m1, h1)"
  shows "queue h1 i = queue h i" "codes h1 = codes h" "get_stream sid m1 = Err StreamClosed"
  using assms get_stream_simps(2) [where sid = sid and m = m and h = h]
  by (auto simp: remove_stream_def drop_handle_def chan_laws split: option.splits)

lemma output_frame:
  assumes "get_stream sid m = Ok hdl" "handle_task_item M w sid (Some f) rest m h = (r, m', h')"
  obtains (removed) "codes h (sink_closer hdl) \<noteq> 0" "\<not> needs_fin hdl" "r = Pending" "get_stream sid m' = Err StreamClosed"
      "\<forall>i. i \<noteq> rest \<longrightarrow> queue h' i = queue h i" "codes h' = codes h"
  | (passed) hdl' where "codes h (sink_closer hdl) = 0 \<or> needs_fin hdl" "r = Ready (Some (frame_stream_id sid f))" "h' = h"
      "get_stream sid m' = Ok hdl'" "to_stream hdl' = to_stream hdl" "sink_closer hdl' = sink_closer hdl"
      "needs_fin hdl' = (needs_fin hdl \<and> \<not> is_fin f)"
proof (cases "codes h (sink_closer hdl) \<noteq> 0 \<and> \<not> needs_fin hdl")
  case True
  obtain m1 h1 where rm: "remove_stream M sid m h = (m1, h1)" by fastforce
  with True assms have "r = Pending" "m' = m1" "h' = drop_rx M rest (wake w h1)"
    by (simp_all add: handle_task_item_def)
  with True remove_stream_heap [OF rm] show thesis
    by (intro removed) (auto simp: drop_rx_def)
next
  case False
  define hdl1 where "hdl1 = (case frame_body f of
    WndInc inc \<Rightarrow> hdl\<lparr>hd_window := usize_add (hd_window hdl) (unat inc)\<rparr> | _ \<Rightarrow> hdl)"
  define hdl2 where "hdl2 = (if is_fin f then hdl1\<lparr>needs_fin := False\<rparr> else hdl1)"
  have same: "to_stream hdl2 = to_stream hdl" "sink_closer hdl2 = sink_closer hdl"
    "needs_fin hdl2 = (needs_fin hdl \<and> \<not> is_fin f)"
    by (auto simp: hdl2_def hdl1_def split: body.splits)
  have "handle_task_item M w sid (Some f) rest m h =
      (Ready (Some (frame_stream_id sid f)), push_task sid rest (put_stream sid hdl2 m), h)"
    using assms(1) False by (auto simp: handle_task_item_def hdl2_def hdl1_def Let_def)
  with assms(2) have "r = Ready (Some (frame_stream_id sid f))" "h' = h" "get_stream sid m' = Ok hdl2"
    by auto
  with False same show thesis by (intro passed [of hdl2]) auto
qed

lemma output_end:
  assumes "get_stream sid m = Ok hdl" "handle_task_item M w sid None rest m h = (r, m', h')"
  shows "get_stream sid m' = Err StreamClosed" "\<forall>i. i \<noteq> rest \<longrightarrow> queue h' i = queue h i" "codes h' = codes h"
    "r = (if needs_fin hdl then Ready (Some (frame_stream_id sid fin_frame)) else Pending)"
proof -
  obtain m1 h1 where rm: "remove_stream M sid m h = (m1, h1)" by fastforce
  note eff = remove_stream_heap [OF rm]
  show "get_stream sid m' = Err StreamClosed" "\<forall>i. i \<noteq> rest \<longrightarrow> queue h' i = queue h i" "codes h' = codes h"
    "r = (if needs_fin hdl then Ready (Some (frame_stream_id sid fin_frame)) else Pending)"
    using assms rm eff by (auto simp: handle_task_item_def drop_rx_def split: if_splits)
qed

lemma output_life:
  assumes inv: "life_ok sid l" and hdl: "get_stream sid (lf_m l) = Ok hdl"
    and pop: "rx_poll_next M w (chans (lf_h l) (sink_of (lf_s l))) = (Ready item, c)"
    and out: "handle_task_item M w sid item (sink_of (lf_s l)) (lf_m l) (set_chan (sink_of (lf_s l)) c (lf_h l)) = (r, m', h')"
  shows "life_ok sid (l\<lparr>lf_m := m', lf_h := h', lf_out := lf_out l @ (case r of Ready (Some f) \<Rightarrow> [f] | _ \<Rightarrow> [])\<rparr>)"
proof -
  let ?s = "lf_s l" and ?h1 = "set_chan (sink_of (lf_s l)) c (lf_h l)"
  have k: "known_ok ?s (lf_h l) (lf_alive l) (lf_out l) (lf_sent l) (lf_reset l) hdl" and ne: "sink_of ?s \<noteq> st_fin ?s"
    and code: "\<not> lf_reset l \<longrightarrow> codes (lf_h l) (snd_closer (st_fout ?s)) = 0 \<and> (lf_alive l \<longrightarrow> sink_live ?s (lf_h l))"
    and fin: "\<forall>f \<in> set (queue (lf_h l) (st_fin ?s)). stream_frame f"
    using inv hdl by (simp_all add: life_ok_def)
  have live: "\<not> lf_reset l \<and> lf_alive l \<longrightarrow> chan_open c \<and> item \<noteq> None"
    using next_open [OF pop] code by (auto simp: sink_live_def)
  have ended: "\<not> lf_alive l \<longrightarrow> chan_ended c"
    using next_ended [OF pop] k by (auto simp: known_ok_def Let_def)
  show ?thesis
  proof (cases item)
    case (Some f)
    have q: "queue (lf_h l) (sink_of ?s) = f # contents c" using next_pops pop Some by simp
    have closer: "sink_closer hdl = snd_closer (st_fout ?s)" using k by (simp add: known_ok_def Let_def)
    from hdl out [unfolded Some] show ?thesis
    proof (cases rule: output_frame)
      case removed
      then have "lf_reset l" using code closer by auto
      with removed inv k q ne fin show ?thesis
        by (auto simp: life_ok_def removed_ok_def known_ok_def Let_def quiet_append)
    next
      case (passed hdl')
      have "known_ok ?s h' (lf_alive l) (lf_out l @ [frame_stream_id sid f]) (lf_sent l) (lf_reset l) hdl'"
        using k passed q ended by (auto simp: known_ok_def Let_def quiet_append)
      with passed inv code live ne fin show ?thesis
        by (auto simp: life_ok_def sink_live_def)
    qed
  next
    case None
    have q: "queue (lf_h l) (sink_of ?s) = []" using next_empty pop None by blast
    note e = output_end [OF hdl out [unfolded None]]
    have gone: "\<not> lf_reset l \<longrightarrow> \<not> lf_alive l" using live None by blast
    have "removed_ok ?s (lf_alive l) (lf_out l @ (case r of Ready (Some f) \<Rightarrow> [f] | _ \<Rightarrow> [])) (lf_sent l) (lf_reset l)"
      using k q e(4) gone by (auto simp: removed_ok_def known_ok_def Let_def quiet_append plain_fin_frame)
    with e(1-3) inv code gone ne fin show ?thesis
      by (auto simp: life_ok_def)
  qed
qed

section \<open>Every life\<close>

lemma open_req_shape:
  assumes "open_req_create M W syn h0 = ((req, s), h)"
  shows "sink_of s \<noteq> st_fin s" "fst (req_channel req) = st_fin s" "snd (req_channel req) = sink_of s"
    "req_closer req = snd_closer (st_fout s)" "queue h (sink_of s) = []" "queue h (st_fin s) = []" "sink_live s h"
  using assms new_open
  by (auto simp: open_req_create_def new_chan_def sender_wrap_def new_code_def Let_def stream_new_def sink_live_def chan_laws)

lemma init_life:
  assumes "life_init M sid l"
  shows "life_ok sid l"
proof -
  obtain W syn h0 req h1 origin m where i: "open_req_create M W syn h0 = ((req, lf_s l), h1)" "sid \<notin> fst ` set (streams m)"
    "create_stream M origin req m h1 = (Ok sid, lf_m l, lf_h l)"
    "lf_alive l" "lf_fut l = None" "lf_out l = []" "lf_sent l = []" "\<not> lf_reset l"
    using assms unfolding life_init_def by blast
  note sh = open_req_shape [OF i(1)] and c = create_fresh_effect [OF i(3,2)]
  from i(4-) sh c show ?thesis
    by (simp add: life_ok_def known_ok_def sink_live_def)
qed

lemma step_life:
  assumes "life_step M sid l l'" "life_ok sid l"
  shows "life_ok sid l'"
proof -
  have ne: "sink_of (lf_s l) \<noteq> st_fin (lf_s l)" and sf: "\<forall>f \<in> set (queue (lf_h l) (st_fin (lf_s l))). stream_frame f"
    using assms(2) by (simp_all add: life_ok_def)
  have quiet_op: "life_ok sid (l\<lparr>lf_s := s', lf_h := h'\<rparr>)"
    if "lf_alive l" "sink_op (lf_s l) (lf_h l) fs s' h'" "data_of fs = []" for fs s' h'
    using op_life [OF assms(2) that(1,2)] that(3) by simp
  from assms(1) show ?thesis
  proof cases
    case (writes w buf r s' h')
    obtain fs where "sink_op (lf_s l) (lf_h l) fs s' h'" "data_of fs = written r buf"
      by (rule write_sink [OF ne sf writes(3)])
    with op_life [OF assms(2) writes(2)] writes(1) show ?thesis by metis
  next
    case (reads w room r got s' h')
    obtain fs where "sink_op (lf_s l) (lf_h l) fs s' h'" "data_of fs = []"
      by (rule read_op [OF ne sf reads(3)])
    with quiet_op reads(1,2) show ?thesis by simp
  next
    case (shuts w r s' h')
    obtain fs where "sink_op (lf_s l) (lf_h l) fs s' h'" "data_of fs = []"
      by (rule shutdown_sink [OF ne shuts(3)])
    with quiet_op shuts(1,2) show ?thesis by simp
  next
    case drops
    with drop_life [OF assms(2)] show ?thesis by simp
  next
    case (arrives f k)
    with arrive_life [OF assms(2)] show ?thesis by simp
  next
    case (delivers k w r k' m' h')
    with deliver_life [OF assms(2)] show ?thesis by simp
  next
    case (polled w)
    then show ?thesis by cases (use output_life [OF assms(2)] in simp)
  qed
qed

lemma life_machine:
  assumes "reach (life_init M sid) (life_step M sid) l"
  shows "life_ok sid l"
proof -
  have "machine_inv (life_init M sid) (life_step M sid) (life_ok sid)"
    by unfold_locales (auto intro: init_life step_life)
  from machine_inv.inv_reach [OF this assms] show ?thesis .
qed

text \<open>
  After the drop the task of the stream gives what is queued, frame by frame, and then
  its end.
\<close>

lemma dropped_drains:
  assumes "life_ok sid l" "get_stream sid (lf_m l) = Ok hdl" "\<not> lf_alive l" "\<not> lf_reset l"
  shows "\<exists>l'. (output_step M w sid ^^ Suc (length (queue (lf_h l) (sink_of (lf_s l))))) l l' \<and>
    get_stream sid (lf_m l') = Err StreamClosed \<and> \<not> lf_reset l' \<and> lf_sent l' = lf_sent l"
  using assms
proof (induction "queue (lf_h l) (sink_of (lf_s l))" arbitrary: l hdl)
  case Nil
  let ?i = "sink_of (lf_s l)"
  obtain p c where pop: "rx_poll_next M w (chans (lf_h l) ?i) = (p, c)" by fastforce
  have "p \<noteq> Pending" using next_ended [OF pop] Nil.prems by (simp add: life_ok_def known_ok_def Let_def)
  moreover have "p \<noteq> Panicked" using no_panic(4) [of w "chans (lf_h l) ?i"] pop by simp
  moreover have "\<not> (\<exists>x. p = Ready (Some x))" using next_Some_iff [of w "chans (lf_h l) ?i"] pop Nil.hyps by simp
  ultimately have p: "p = Ready None" by (cases p) (auto simp: not_None_eq)
  obtain r m' h' where out: "handle_task_item M w sid None ?i (lf_m l) (set_chan ?i c (lf_h l)) = (r, m', h')"
    by (metis surj_pair)
  let ?l = "l\<lparr>lf_m := m', lf_h := h', lf_out := lf_out l @ (case r of Ready (Some f) \<Rightarrow> [f] | _ \<Rightarrow> [])\<rparr>"
  have "output_step M w sid l ?l" by (rule output_step.outputs [OF Nil.prems(2) pop [unfolded p] out])
  then have "(output_step M w sid ^^ Suc (length (queue (lf_h l) ?i))) l ?l"
    by (auto simp: Nil.hyps [symmetric] eq_OO)
  moreover have "get_stream sid (lf_m ?l) = Err StreamClosed" "\<not> lf_reset ?l" "lf_sent ?l = lf_sent l"
    using output_end(1) [OF Nil.prems(2) out] Nil.prems(4) by simp_all
  ultimately show ?case by blast
next
  case (Cons f q)
  let ?i = "sink_of (lf_s l)"
  obtain c where pop: "rx_poll_next M w (chans (lf_h l) ?i) = (Ready (Some f), c)"
    using contents_next_cases [of "chans (lf_h l) ?i" w] Cons.hyps(2)
    by (cases "rx_poll_next M w (chans (lf_h l) ?i)") (auto split: poll.splits option.splits)
  then have q: "contents c = q" using next_pops Cons.hyps(2) by fastforce
  obtain r m' h' where out: "handle_task_item M w sid (Some f) ?i (lf_m l) (set_chan ?i c (lf_h l)) = (r, m', h')"
    by (metis surj_pair)
  let ?l = "l\<lparr>lf_m := m', lf_h := h', lf_out := lf_out l @ (case r of Ready (Some f) \<Rightarrow> [f] | _ \<Rightarrow> [])\<rparr>"
  have step: "output_step M w sid l ?l" by (rule output_step.outputs [OF Cons.prems(2) pop out])
  have "codes (lf_h l) (sink_closer hdl) = 0"
    using Cons.prems by (simp add: life_ok_def known_ok_def Let_def)
  then obtain hdl' where o: "h' = set_chan ?i c (lf_h l)" "get_stream sid m' = Ok hdl'"
    using output_frame [OF Cons.prems(2) out] by auto
  have ok: "life_ok sid ?l" using step_life [OF life_step.polled [OF step] Cons.prems(1)] .
  have q': "q = queue (lf_h ?l) (sink_of (lf_s ?l))" using o(1) q by simp
  have l: "get_stream sid (lf_m ?l) = Ok hdl'" "\<not> lf_alive ?l" "\<not> lf_reset ?l" and sent: "lf_sent ?l = lf_sent l"
    using o(2) Cons.prems(3,4) by simp_all
  from Cons.hyps(1) [OF q' ok l, folded q', unfolded sent] obtain l' where
    l': "(output_step M w sid ^^ Suc (length q)) ?l l'" "get_stream sid (lf_m l') = Err StreamClosed" "\<not> lf_reset l'"
      "lf_sent l' = lf_sent l"
    by blast
  have len: "length (queue (lf_h l) ?i) = Suc (length q)" using Cons.hyps(2) [symmetric] by simp
  show ?case unfolding len
    by (intro exI [of _ l'] conjI relpowp_Suc_I2 [OF step l'(1)] l'(2-4))
qed

lemma polls_life:
  assumes "(output_step M w sid ^^ n) l l'" "life_ok sid l"
  shows "life_ok sid l' \<and> lf_alive l' = lf_alive l \<and> (\<exists>more. lf_out l' = lf_out l @ more)"
  using assms(1)
proof (induction n arbitrary: l')
  case 0
  with assms(2) show ?case by simp
next
  case (Suc n)
  then obtain l1 where "(output_step M w sid ^^ n) l l1" and s: "output_step M w sid l1 l'" by auto
  with Suc.IH have one: "life_ok sid l1" "lf_alive l1 = lf_alive l" "\<exists>more. lf_out l1 = lf_out l @ more" by blast+
  from s have "lf_alive l' = lf_alive l1" "\<exists>more. lf_out l' = lf_out l1 @ more" by (cases; simp)+
  with one step_life [OF life_step.polled [OF s]] show ?case by auto
qed

end

interpretation bounded_drop: drop_chan bounded_mpsc bc_queue bc_open "\<lambda>c. \<not> bc_open c"
  by unfold_locales (auto simp: bounded_mpsc_def split: if_splits list.splits)

section \<open>Properties\<close>

text \<open>
  C29. However the life of a stream goes, with writes, reads, a shutdown, the drop, frames
  and resets of the remote in any order: the remote is sent at most one FIN and no data
  after it, and a FIN only when the writer was shut down or the stream was dropped; the data sent is
  the beginning of what was written; and when the manager has removed the stream, it
  was reset, or it was dropped, all that was written was sent, and exactly one FIN.
\<close>

theorem one_fin_per_stream:
  assumes "drop_chan M contents chan_open chan_ended" "reach (life_init M sid) (life_step M sid) l"
  shows "length (filter is_fin (lf_out l)) \<le> 1 \<and> quiet (lf_out l) \<and>
    (list_ex is_fin (lf_out l) \<longrightarrow> write_closed (lf_s l) \<noteq> None \<or> \<not> lf_alive l) \<and>
    (\<exists>rest. lf_sent l = data_of (lf_out l) @ rest) \<and>
    (get_stream sid (lf_m l) = Err StreamClosed \<longrightarrow> lf_reset l \<or>
       \<not> lf_alive l \<and> lf_sent l = data_of (lf_out l) \<and> length (filter is_fin (lf_out l)) = 1)"
proof -
  have ok: "drop_chan.life_ok contents chan_open chan_ended sid l"
    by (rule drop_chan.life_machine [OF assms])
  note defs = drop_chan.life_ok_def [OF assms(1)] drop_chan.known_ok_def [OF assms(1)] drop_chan.removed_ok_def [OF assms(1)]
  show ?thesis
  proof (cases "get_stream sid (lf_m l)")
    case (Inl e)
    with ok have q: "quiet (lf_out l)" by (simp add: defs)
    from Inl ok show ?thesis unfolding quiet_one_fin [OF q] by (auto simp: defs)
  next
    case (Inr hdl)
    with ok have q: "quiet (lf_out l)" by (simp add: defs Let_def quiet_append)
    from Inr ok show ?thesis unfolding quiet_one_fin [OF q] by (auto simp: defs Let_def quiet_append)
  qed
qed

text \<open>
  C7. A stream that was dropped and not reset is not forgotten: when its task has been polled
  once for each frame that is queued and once more, the remote was sent all that was
  written before the drop, every byte of it, and exactly one FIN, whether or not the
  stream had been shut down, and the stream is removed.
\<close>

theorem dropped_stream_drains:
  assumes "drop_chan M contents chan_open chan_ended" "reach (life_init M sid) (life_step M sid) l"
    "\<not> lf_alive l" "\<not> lf_reset l" "get_stream sid (lf_m l) = Ok hdl"
  shows "\<exists>l'. (output_step M w sid ^^ Suc (length (contents (chans (lf_h l) (sink_of (lf_s l)))))) l l' \<and>
    get_stream sid (lf_m l') = Err StreamClosed \<and> (\<exists>more. lf_out l' = lf_out l @ more) \<and>
    data_of (lf_out l') = lf_sent l \<and> length (filter is_fin (lf_out l')) = 1"
proof -
  have ok: "drop_chan.life_ok contents chan_open chan_ended sid l"
    by (rule drop_chan.life_machine [OF assms(1,2)])
  from drop_chan.dropped_drains [OF assms(1) ok assms(5,3,4)] obtain l' where
    d: "(output_step M w sid ^^ Suc (length (contents (chans (lf_h l) (sink_of (lf_s l)))))) l l'"
      "get_stream sid (lf_m l') = Err StreamClosed" "\<not> lf_reset l'" "lf_sent l' = lf_sent l" by blast
  from drop_chan.polls_life [OF assms(1) d(1) ok] have
    "drop_chan.life_ok contents chan_open chan_ended sid l'" and more: "\<exists>more. lf_out l' = lf_out l @ more" by blast+
  with d(2,3) have "drop_chan.removed_ok (lf_s l') (lf_alive l') (lf_out l') (lf_sent l') False"
    by (simp add: drop_chan.life_ok_def [OF assms(1)])
  then have "quiet (lf_out l')" "list_ex is_fin (lf_out l')" "lf_sent l' = data_of (lf_out l')"
    by (simp_all add: drop_chan.removed_ok_def [OF assms(1)])
  with d more show ?thesis by (intro exI [of _ l'] conjI) (simp_all only: quiet_one_fin if_True)
qed

text \<open>A stream that takes two bytes and is dropped before its manager was polled.\<close>

definition demo_life :: "frame bounded_chan life" where
  "demo_life = \<lparr>lf_s = lk_r demo_link, lf_alive = True, lf_m = lk_m demo_link, lf_h = lk_rh demo_link, lf_fut = None,
     lf_close = False, lf_out = [], lf_sent = [], lf_reset = False\<rparr>"

lemma demo_life_init: "life_init bounded_mpsc 5 demo_life"
proof -
  obtain h1 req2 h2 m where "open_req_create bounded_mpsc 8 False h1 = ((req2, lk_r demo_link), h2)"
      "5 \<notin> fst ` set (streams m)"
      "create_stream bounded_mpsc (Some 5) req2 m h2 = (Ok 5, lk_m demo_link, lk_rh demo_link)"
    using demo_link_init unfolding link_init_def by blast
  then show ?thesis
    unfolding life_init_def by (intro exI conjI) (assumption | simp add: demo_life_def)+
qed

lemma demo_life_writes:
  "\<exists>s h. poll_write bounded_mpsc 7 [1, 2] (lk_r demo_link) (lk_rh demo_link) = Some (Ready (Ok 2), s, h)"
proof -
  have "unat (Length_clamp (as_u32 (Suc (Suc 0)))) = 2"
    by (simp add: Length_clamp_def clamp_def LENGTH_MAX_def as_u32_def)
  then show ?thesis
    by (simp add: demo_eval poll_write_def poll_write_send_def sender_poll_ready_def sender_start_send_def)
qed

lemma demo_dropped:
  obtains l where "reach (life_init bounded_mpsc 5) (life_step bounded_mpsc 5) l" "\<not> lf_alive l" "\<not> lf_reset l"
    "lf_sent l = [1, 2]" "lf_out l = []" "get_stream 5 (lf_m l) = get_stream 5 (lk_m demo_link)"
proof -
  obtain s h where "poll_write bounded_mpsc 7 [1, 2] (lk_r demo_link) (lk_rh demo_link) = Some (Ready (Ok 2), s, h)"
    using demo_life_writes by blast
  then have w: "life_step bounded_mpsc 5 demo_life
      (demo_life\<lparr>lf_s := s, lf_h := h, lf_sent := lf_sent demo_life @ written (Ready (Ok 2)) [1, 2]\<rparr>)" (is "life_step _ _ _ ?l")
    by (intro life_step.writes) (simp_all add: demo_life_def)
  have d: "life_step bounded_mpsc 5 ?l (?l\<lparr>lf_alive := False, lf_h := stream_drop bounded_mpsc (lf_s ?l) (lf_h ?l)\<rparr>)"
    by (rule life_step.drops) (simp add: demo_life_def)
  have "reach (life_init bounded_mpsc 5) (life_step bounded_mpsc 5)
      (?l\<lparr>lf_alive := False, lf_h := stream_drop bounded_mpsc (lf_s ?l) (lf_h ?l)\<rparr>)"
    by (rule reach_step, rule reach_step, rule reach_init, rule demo_life_init, rule w, rule d)
  then show thesis by (rule that) (simp_all add: demo_life_def)
qed

theorem one_fin_per_stream_witness:
  "\<exists>l. reach (life_init bounded_mpsc 5) (life_step bounded_mpsc 5) l \<and> \<not> lf_alive l \<and> lf_sent l = [1, 2] \<and>
    length (filter is_fin (lf_out l)) \<le> 1"
proof -
  obtain l where l: "reach (life_init bounded_mpsc 5) (life_step bounded_mpsc 5) l" "\<not> lf_alive l" "lf_sent l = [1, 2]"
    by (rule demo_dropped) (rule that; assumption)
  with one_fin_per_stream [OF bounded_drop.drop_chan_axioms l(1)] show ?thesis by blast
qed

theorem dropped_stream_drains_witness:
  "\<exists>l l' n. \<not> lf_alive l \<and> lf_out l = [] \<and> (output_step bounded_mpsc 3 5 ^^ n) l l' \<and> data_of (lf_out l') = [1, 2] \<and>
    length (filter is_fin (lf_out l')) = 1"
proof -
  obtain l where l: "reach (life_init bounded_mpsc 5) (life_step bounded_mpsc 5) l" "\<not> lf_alive l" "\<not> lf_reset l"
    "lf_sent l = [1, 2]" "lf_out l = []" "get_stream 5 (lf_m l) = get_stream 5 (lk_m demo_link)"
    by (rule demo_dropped) (rule that; assumption)
  obtain hdl where "get_stream 5 (lk_m demo_link) = Ok hdl"
    by (simp add: demo_eval get_stream_def)
  with l(6) have "get_stream 5 (lf_m l) = Ok hdl" by simp
  from dropped_stream_drains [OF bounded_drop.drop_chan_axioms l(1-3) this, of 3] l(2,4,5) show ?thesis by metis
qed

end
