(* ===== verification/Typed_Stream.thy ===== *)
theory Typed_Stream
  imports Stream_Props Codec_Props
begin

text \<open>
  \<open>muxado/src/typed.rs\<close>: streams that start with a 32-bit type. The functions are
  generic in the session they wrap, whose \<open>open\<close> and \<open>accept\<close> are arguments, and
  await the reads and writes of a stream. An awaited operation returns an option:
  \<open>None\<close> when it never completes.
\<close>

section \<open>Awaited reads and writes\<close>

record 'x byte_io =
  io_read :: "usize \<Rightarrow> 'x \<Rightarrow> ((io_error, bytes) result \<times> 'x) option"
  io_write :: "bytes \<Rightarrow> 'x \<Rightarrow> ((io_error, usize) result \<times> 'x) option"

text \<open>
  What \<open>AsyncRead\<close> and \<open>AsyncWrite\<close> promise: a read takes bytes from the front of
  what arrives, a write appends a prefix of its buffer to what is sent.
\<close>

locale byte_stream =
  fixes io :: "'x byte_io" and ok :: "'x \<Rightarrow> bool" and incoming outgoing :: "'x \<Rightarrow> bytes"
  assumes read_law: "ok x \<Longrightarrow> io_read io n x = Some (Ok bs, x') \<Longrightarrow>
      length bs \<le> n \<and> (\<exists>rest. incoming x = bs @ rest \<and> incoming x' = rest) \<and> ok x'"
    and write_law: "ok x \<Longrightarrow> io_write io buf x = Some (Ok k, x') \<Longrightarrow>
      k \<le> length buf \<and> outgoing x' = outgoing x @ take k buf \<and> ok x'"

text \<open>
  \<open>AsyncReadExt::read_exact\<close> and \<open>AsyncWriteExt::write_all\<close>, which the code
  takes from tokio: they repeat the operation until all bytes are moved; a read of
  nothing is an unexpected end, a write of nothing the error \<open>WriteZero\<close>.
\<close>

function read_exact :: "'x byte_io \<Rightarrow> usize \<Rightarrow> 'x \<Rightarrow> ((io_error, bytes) result \<times> 'x) option" where
  "read_exact io n x =
     (if n = 0 then Some (Ok [], x)
      else case io_read io n x of
        None \<Rightarrow> None
      | Some (Inl e, x') \<Rightarrow> Some (Err e, x')
      | Some (Inr bs, x') \<Rightarrow>
        if bs = [] then Some (Err (IoError UnexpectedEof SrcNone), x')
        else map_option (\<lambda>(r, y). (and_then r (\<lambda>more. Ok (bs @ more)), y)) (read_exact io (n - length bs) x'))"
  by pat_completeness auto
termination
  by (relation "measure (\<lambda>(io, n, x). n)") auto

function write_all :: "'x byte_io \<Rightarrow> bytes \<Rightarrow> 'x \<Rightarrow> ((io_error, unit) result \<times> 'x) option" where
  "write_all io buf x =
     (if buf = [] then Some (Ok (), x)
      else case io_write io buf x of
        None \<Rightarrow> None
      | Some (Inl e, x') \<Rightarrow> Some (Err e, x')
      | Some (Inr k, x') \<Rightarrow>
        if k = 0 then Some (Err (IoError WriteZero SrcNone), x') else write_all io (drop k buf) x')"
  by pat_completeness auto
termination
  by (relation "measure (\<lambda>(io, buf, x). length buf)") auto

declare read_exact.simps [simp del] write_all.simps [simp del]

section \<open>Typed streams\<close>

definition StreamType_clamp :: "u32 \<Rightarrow> u32" where
  "StreamType_clamp = clamp 0 ERROR_MAX"

record 'x typed_stream =
  ts_typ :: u32
  ts_inner :: 'x

definition accept_typed ::
  "buf_ops \<Rightarrow> 'x byte_io \<Rightarrow> 'x option \<Rightarrow> (mux_error, 'x typed_stream) result option" where
  "accept_typed B io accepted =
     (case accepted of
        None \<Rightarrow> Some (Err SessionClosed)
      | Some stream \<Rightarrow>
        (case read_exact io 4 stream of
           None \<Rightarrow> None
         | Some (Inl _, _) \<Rightarrow> Some (Err StreamClosed)
         | Some (Inr buf, stream') \<Rightarrow>
           (case get_u32 B buf of
              None \<Rightarrow> None
            | Some (v, _) \<Rightarrow> Some (Ok \<lparr>ts_typ = StreamType_clamp v, ts_inner = stream'\<rparr>))))"

definition open_typed ::
  "buf_ops \<Rightarrow> 'x byte_io \<Rightarrow> (mux_error, 'x) result \<Rightarrow> u32 \<Rightarrow> (mux_error, 'x typed_stream) result option" where
  "open_typed B io opened typ =
     (case opened of
        Inl e \<Rightarrow> Some (Err e)
      | Inr stream \<Rightarrow>
        (case io_write io (put_u32 B typ []) stream of
           None \<Rightarrow> None
         | Some (Inl _, _) \<Rightarrow> Some (Err StreamReset)
         | Some (Inr _, stream') \<Rightarrow> Some (Ok \<lparr>ts_typ = typ, ts_inner = stream'\<rparr>)))"

section \<open>Reading and writing all of it\<close>

context byte_stream
begin

lemma read_exact_law:
  "ok x \<Longrightarrow> read_exact io n x = Some (Ok bs, x') \<Longrightarrow>
    length bs = n \<and> incoming x = bs @ incoming x' \<and> ok x'"
proof (induction n arbitrary: x bs rule: less_induct)
  case (less n)
  show ?case
  proof (cases "n = 0")
    case True
    with less.prems show ?thesis by (simp add: read_exact.simps)
  next
    case False
    with less.prems(2) obtain b1 x1 b2 where
      r: "io_read io n x = Some (Ok b1, x1)" "b1 \<noteq> []" "read_exact io (n - length b1) x1 = Some (Ok b2, x')"
        "bs = b1 @ b2"
      by (subst (asm) read_exact.simps) (auto split: option.splits sum.splits prod.splits if_splits)
    from read_law [OF less.prems(1) r(1)] have 1: "length b1 \<le> n" "incoming x = b1 @ incoming x1" "ok x1" by auto
    have "n - length b1 < n" using False r(2) by simp
    from less.IH [OF this 1(3) r(3)] 1 r(4) show ?thesis by simp
  qed
qed

lemma write_all_law:
  "ok x \<Longrightarrow> write_all io buf x = Some (Ok (), x') \<Longrightarrow> outgoing x' = outgoing x @ buf \<and> ok x'"
proof (induction "length buf" arbitrary: x buf rule: less_induct)
  case less
  show ?case
  proof (cases "buf = []")
    case True
    with less.prems show ?thesis by (simp add: write_all.simps)
  next
    case False
    with less.prems(2) obtain k x1 where
      r: "io_write io buf x = Some (Ok k, x1)" "0 < k" "write_all io (drop k buf) x1 = Some (Ok (), x')"
      by (subst (asm) write_all.simps) (auto split: option.splits sum.splits prod.splits if_splits)
    from write_law [OF less.prems(1) r(1)] have 1: "outgoing x1 = outgoing x @ take k buf" "ok x1" by auto
    have "length (drop k buf) < length buf" using False r(2) by simp
    from less.hyps [OF this 1(2) r(3)] 1(1) show ?thesis by simp
  qed
qed

end

section \<open>A muxado stream is such a stream\<close>

definition mux_io :: "(frame, 'c) mpsc \<Rightarrow> waker \<Rightarrow> (mux_stream \<times> 'c heap) byte_io" where
  "mux_io M w = \<lparr>
     io_read = (\<lambda>n (s, h). case poll_read M w n s h of
        Some (Ready (Inr _), out, s', h') \<Rightarrow> Some (Ok out, (s', h'))
      | Some (Ready (Inl e), out, s', h') \<Rightarrow> Some (Err e, (s', h'))
      | _ \<Rightarrow> None),
     io_write = (\<lambda>buf (s, h). case poll_write M w buf s h of
        Some (Ready (Inr n), s', h') \<Rightarrow> Some (Ok n, (s', h'))
      | Some (Ready (Inl e), s', h') \<Rightarrow> Some (Err e, (s', h'))
      | _ \<Rightarrow> None)\<rparr>"

context frame_chan
begin

definition mux_ok :: "mux_stream \<times> 'c heap \<Rightarrow> bool" where
  "mux_ok x \<longleftrightarrow> (case x of (s, h) \<Rightarrow> snd_sink (st_fout s) \<noteq> st_fin s \<and>
     (\<forall>f \<in> set (queue h (st_fin s)). stream_frame f) \<and>
     length (read_buf s @ data_of (queue h (st_fin s))) < 2 ^ 32)"

definition mux_in :: "mux_stream \<times> 'c heap \<Rightarrow> bytes" where
  "mux_in x = (case x of (s, h) \<Rightarrow> read_buf s @ data_of (queue h (st_fin s)))"

definition mux_out :: "mux_stream \<times> 'c heap \<Rightarrow> bytes" where
  "mux_out x = (case x of (s, h) \<Rightarrow> data_of (queue h (snd_sink (st_fout s))))"

lemma frame_data_prefix:
  "n \<le> unat LENGTH_MAX \<Longrightarrow> frame_data (data_frame syn (take n buf)) = take n buf"
  by (cases "n \<le> length buf") (simp_all add: data_frame_def frame_syn_def frame_from_body_def Let_def min_def)

lemma mux_read_law:
  assumes "mux_ok x" "io_read (mux_io M w) n x = Some (Ok bs, x')"
  shows "length bs \<le> n \<and> (\<exists>rest. mux_in x = bs @ rest \<and> mux_in x' = rest) \<and> mux_ok x'"
proof -
  obtain s h where x: "x = (s, h)" by fastforce
  from assms(2) obtain u s' h' where p: "poll_read M w n s h = Some (Ready (Inr u), bs, s', h')" "x' = (s', h')"
    by (auto simp: x mux_io_def split: option.splits poll.splits sum.splits)
  have ok: "snd_sink (st_fout s) \<noteq> st_fin s" "\<forall>f \<in> set (queue h (st_fin s)). stream_frame f"
      "length (read_buf s @ data_of (queue h (st_fin s))) < 2 ^ 32"
    using assms(1) by (simp_all add: mux_ok_def x)
  from read_post [OF ok, of w n] obtain used where
    q: "queue h (st_fin s) = used @ queue h' (st_fin s)" "read_buf s @ data_of used = bs @ read_buf s'"
      "length bs \<le> n" "st_fin s' = st_fin s" "st_fout s' = st_fout s"
    unfolding read_spec_def p by auto
  have "read_buf s @ data_of (queue h (st_fin s)) = bs @ read_buf s' @ data_of (queue h' (st_fin s))"
    using q(1,2) by (metis append_assoc data_of_simps(3))
  moreover from arg_cong [OF this, of length]
  have "length (read_buf s' @ data_of (queue h' (st_fin s))) \<le> length (read_buf s @ data_of (queue h (st_fin s)))"
    by simp
  ultimately show ?thesis using ok q p(2)
    by (auto simp: mux_ok_def mux_in_def x simp del: stream_frame.simps)
qed

lemma mux_write_law:
  assumes "mux_ok x" "io_write (mux_io M w) buf x = Some (Ok k, x')"
  shows "k \<le> length buf \<and> mux_out x' = mux_out x @ take k buf \<and> mux_ok x'"
proof -
  obtain s h where x: "x = (s, h)" by fastforce
  from assms(2) obtain s' h' where p: "poll_write M w buf s h = Some (Ready (Inr k), s', h')" "x' = (s', h')"
    by (auto simp: x mux_io_def split: option.splits poll.splits sum.splits)
  have ok: "snd_sink (st_fout s) \<noteq> st_fin s" "\<forall>f \<in> set (queue h (st_fin s)). stream_frame f"
      "length (read_buf s @ data_of (queue h (st_fin s))) < 2 ^ 32"
    using assms(1) by (simp_all add: mux_ok_def x)
  have open_: "write_closed s = None"
    using p(1) by (auto simp: poll_write_def split: option.splits)
  from write_post [OF open_ ok(1,2), of w buf] obtain used where
    q: "queue h (st_fin s) = used @ queue h' (st_fin s)" "read_buf s' = read_buf s @ data_of used"
      "st_fin s' = st_fin s" "st_fout s' = st_fout s" "k = write_len (window_after used (st_window s)) buf"
      "queue h' (snd_sink (st_fout s)) = queue h (snd_sink (st_fout s)) @ [data_frame (needs_syn s) (take k buf)]"
    unfolding p(1) by auto
  note b = write_len_bounds [of "window_after used (st_window s)" buf, folded q(5)]
  from ok q b p(2) frame_data_prefix [OF b(3), of "needs_syn s" buf] show ?thesis
    by (auto simp: mux_ok_def mux_out_def x simp del: stream_frame.simps frame_data.simps)
qed

sublocale mux: byte_stream "mux_io M w" mux_ok mux_in mux_out for w
  by unfold_locales (use mux_read_law mux_write_law in blast)+

lemmas mux_byte_stream = mux.byte_stream_axioms

end

section \<open>Properties\<close>

text \<open>
  A muxado stream whose first four bytes are the bytes of a type is accepted with
  that type once those bytes can be read, in however many pieces they arrive, and
  the bytes behind them are left to the reader.
\<close>

theorem accept_typed_reads_type:
  assumes "frame_chan M contents" "be_buf B" "frame_chan.mux_ok contents x"
    "frame_chan.mux_in contents x = u32_to_be_bytes t @ rest" "read_exact (mux_io M w) 4 x = Some (Ok buf, y)"
  shows "accept_typed B (mux_io M w) (Some x) = Some (Ok \<lparr>ts_typ = t, ts_inner = y\<rparr>) \<and>
    frame_chan.mux_in contents y = rest"
proof -
  from byte_stream.read_exact_law [OF frame_chan.mux_byte_stream [OF assms(1)] assms(3,5)]
  have b: "buf = u32_to_be_bytes t" "frame_chan.mux_in contents y = rest"
    using assms(4) by (auto simp: append_eq_append_conv)
  have "StreamType_clamp t = t"
    by (simp add: StreamType_clamp_def clamp_def ERROR_MAX_top)
  with b be_buf.get_u32_append [OF assms(2), of t "[]"] show ?thesis
    by (simp add: accept_typed_def assms(5))
qed

theorem accept_typed_reads_type_witness:
  "\<exists>y. accept_typed std_buf (mux_io bounded_mpsc 0) (Some (demo_stream\<lparr>read_buf := [0, 0, 1, 2, 9]\<rparr>, demo_heap)) =
    Some (Ok \<lparr>ts_typ = 258, ts_inner = y\<rparr>)"
proof -
  let ?x = "(demo_stream\<lparr>read_buf := [0, 0, 1, 2, 9]\<rparr>, demo_heap)"
  have t: "u32_to_be_bytes 258 = [0, 0, 1, 2]" by (simp add: u32_to_be_bytes_def)
  have ok: "bounded_frames.mux_ok ?x"
    by (simp add: bounded_frames.mux_ok_def demo_facts)
  have i: "bounded_frames.mux_in ?x = u32_to_be_bytes 258 @ [9]"
    by (simp add: bounded_frames.mux_in_def demo_facts t)
  have "\<exists>h. poll_send_wndinc bounded_mpsc 0 (WndInc_clamp (as_u32 4)) (demo_stream\<lparr>read_buf := [0, 0, 1, 2, 9]\<rparr>) demo_heap = (Ready (), h)"
    by (simp add: poll_send_wndinc_def sender_poll_ready_def sender_start_send_def check_closed_def demo_stream_def
        stream_new_def demo_heap_def bounded_mpsc_def on_chan_def Let_def)
  then obtain h where ps: "poll_send_wndinc bounded_mpsc 0 (WndInc_clamp (as_u32 4))
      (demo_stream\<lparr>read_buf := [0, 0, 1, 2, 9]\<rparr>) demo_heap = (Ready (), h)" by blast
  have n: "unat (WndInc_clamp (as_u32 4)) = 4"
    by (simp add: WndInc_clamp_def clamp_def as_u32_def WNDINC_MAX_def)
  have four: "Suc (Suc (Suc (Suc 0))) = (4 :: nat)" by simp
  have "poll_read bounded_mpsc 0 4 (demo_stream\<lparr>read_buf := [0, 0, 1, 2, 9]\<rparr>) demo_heap =
      Some (Ready (Ok ()), [0, 0, 1, 2], demo_stream\<lparr>read_buf := [9]\<rparr>, h)"
    by (subst poll_read.simps) (simp add: ps n Let_def four)
  then have "read_exact (mux_io bounded_mpsc 0) 4 ?x = Some (Ok [0, 0, 1, 2], (demo_stream\<lparr>read_buf := [9]\<rparr>, h))"
    by (simp add: read_exact.simps mux_io_def)
  from accept_typed_reads_type [OF bounded_frames.frame_chan_axioms std_buf.be_buf_axioms ok i this] show ?thesis
    by blast
qed

text \<open>
  Opening a typed stream sends the type with a single write. When the window has
  room for one to three bytes only, the stream is reported open although just that
  many bytes of its type were sent, and the rest is lost.
\<close>

theorem open_typed_truncates_type:
  assumes "frame_chan M contents" "be_buf B" "frame_chan.mux_ok contents (s, h)"
    "0 < window_capacity (st_window s)" "open_typed B (mux_io M w) (Ok (s, h)) t = Some (Ok ts)"
  shows "ts_typ ts = t \<and> frame_chan.mux_out contents (ts_inner ts) =
    frame_chan.mux_out contents (s, h) @ take (min (window_capacity (st_window s)) 4) (u32_to_be_bytes t)"
proof -
  from assms(5) obtain k x' where wr: "io_write (mux_io M w) (u32_to_be_bytes t) (s, h) = Some (Ok k, x')"
      "ts = \<lparr>ts_typ = t, ts_inner = x'\<rparr>"
    using be_buf.put_u32_appends [OF assms(2)]
    by (auto simp: open_typed_def split: option.splits sum.splits)
  then have p: "\<exists>s' h'. poll_write M w (u32_to_be_bytes t) s h = Some (Ready (Inr k), s', h')"
    by (auto simp: mux_io_def split: option.splits poll.splits sum.splits)
  then have "write_closed s = None"
    by (auto simp: poll_write_def split: option.splits)
  with p assms(3,4) frame_chan.write_post [OF assms(1), of s h w "u32_to_be_bytes t"]
  have "k = write_len (st_window s) (u32_to_be_bytes t)"
    by (auto simp: frame_chan.mux_ok_def [OF assms(1)])
  also have "\<dots> = min (window_capacity (st_window s)) 4"
    by (simp add: write_len_def unat_Length_clamp_exact)
  finally have "k = min (window_capacity (st_window s)) 4" .
  with frame_chan.mux_write_law [OF assms(1,3) wr(1)] wr(2) show ?thesis by auto
qed

theorem open_typed_truncates_type_witness:
  "\<exists>ts. open_typed std_buf (mux_io bounded_mpsc 0) (Ok (demo_stream\<lparr>st_window := window_new 2\<rparr>, demo_heap)) 258 = Some (Ok ts) \<and>
    bounded_frames.mux_out (ts_inner ts) = [0, 0]"
proof -
  let ?s = "demo_stream\<lparr>st_window := window_new 2\<rparr>"
  have ok: "bounded_frames.mux_ok (?s, demo_heap)" and o: "bounded_frames.mux_out (?s, demo_heap) = []"
    by (simp_all add: bounded_frames.mux_ok_def bounded_frames.mux_out_def demo_facts)
  have "\<exists>ts. open_typed std_buf (mux_io bounded_mpsc 0) (Ok (?s, demo_heap)) 258 = Some (Ok ts)"
    by (simp add: open_typed_def mux_io_def poll_write_def poll_write_send_def sender_poll_ready_def
        sender_start_send_def check_closed_def demo_stream_def stream_new_def demo_heap_def bounded_mpsc_def
        on_chan_def Let_def split_beta split: if_splits)
  then obtain ts where ts: "open_typed std_buf (mux_io bounded_mpsc 0) (Ok (?s, demo_heap)) 258 = Some (Ok ts)" by blast
  have t: "u32_to_be_bytes 258 = [0, 0, 1, 2]" by (simp add: u32_to_be_bytes_def)
  from open_typed_truncates_type [OF bounded_frames.frame_chan_axioms std_buf.be_buf_axioms ok _ ts] ts o show ?thesis
    by (simp add: t numeral_2_eq_2)
qed

end
