(* ===== verification/Heartbeat.thy ===== *)
theory Heartbeat
  imports Typed_Stream
begin

text \<open>
  \<open>muxado/src/heartbeat.rs\<close>: heartbeats over a dedicated typed stream. A
  \<open>Duration\<close> is its number of nanoseconds. Each of the three tasks is the step its
  loop repeats; the time of a tick or of a deadline and the random identifier of a
  beat are arguments. The wrapper is generic in the session it wraps, whose
  operations are arguments too.
\<close>

section \<open>Configuration and control\<close>

definition HEARTBEAT_TYPE :: u32 where
  "HEARTBEAT_TYPE = StreamType_clamp 0xFFFFFFFF"

definition from_secs :: "nat \<Rightarrow> nat" where
  "from_secs n = n * 1000000000"

record 'h heartbeat_config =
  hc_interval :: nat
  hc_tolerance :: nat
  hc_handler :: "'h option"

definition heartbeat_config_default :: "'h heartbeat_config" where
  "heartbeat_config_default = \<lparr>hc_interval = from_secs 10, hc_tolerance = from_secs 15, hc_handler = None\<rparr>"

text \<open>The pair of atomics; the cast \<open>as u64\<close> keeps the low 64 bits.\<close>

record hb_durations =
  du_interval :: u64
  du_tolerance :: u64

definition durations_new :: "'h heartbeat_config \<Rightarrow> hb_durations" where
  "durations_new cfg = \<lparr>du_interval = word_of_nat (hc_interval cfg), du_tolerance = word_of_nat (hc_tolerance cfg)\<rparr>"

definition set_interval :: "nat \<Rightarrow> hb_durations \<Rightarrow> hb_durations" where
  "set_interval d du = du\<lparr>du_interval := word_of_nat d\<rparr>"

definition set_tolerance :: "nat \<Rightarrow> hb_durations \<Rightarrow> hb_durations" where
  "set_tolerance d du = du\<lparr>du_tolerance := word_of_nat d\<rparr>"

definition get_durations :: "hb_durations \<Rightarrow> nat \<times> nat" where
  "get_durations du = (unat (du_interval du), unat (du_tolerance du))"

text \<open>
  \<open>HeartbeatCtl::beat\<close>: whether the request could be sent, and the latency that came
  back, if any did.
\<close>

definition ctl_beat :: "bool \<Rightarrow> nat option \<Rightarrow> (io_error, nat) result" where
  "ctl_beat sent answer =
     (if \<not> sent then Err (IoError NotConnected SrcNone)
      else case answer of None \<Rightarrow> Err (IoError ConnectionReset SrcNone) | Some d \<Rightarrow> Ok d)"

section \<open>The tasks\<close>

text \<open>
  The check task. A handler is given the latency, \<open>None\<close> at a timeout, and
  returns whether it succeeded. The result lists the calls made and says whether
  the task goes on and until which deadline it waits next.
\<close>

datatype check_event = CTimeout | CLatency nat | CClosed

datatype check_next = CheckUntil nat | CheckExit

definition check_start :: "nat \<Rightarrow> hb_durations \<Rightarrow> nat" where
  "check_start now du = (case get_durations du of (i, t) \<Rightarrow> now + i + t)"

definition check_step ::
  "(nat option \<Rightarrow> bool) option \<Rightarrow> hb_durations \<Rightarrow> nat \<Rightarrow> check_event \<Rightarrow> nat option list \<times> check_next" where
  "check_step cb du now ev =
     (let goes_on = CheckUntil (case get_durations du of (i, t) \<Rightarrow> now + i + t);
          call = (\<lambda>lat. case cb of
             Some handler \<Rightarrow> ([lat], if handler lat then goes_on else CheckExit)
           | None \<Rightarrow> ([], goes_on)) in
      case ev of
        CTimeout \<Rightarrow> call None
      | CLatency lat \<Rightarrow> call (Some lat)
      | CClosed \<Rightarrow> ([], CheckExit))"

text \<open>
  The requester. \<open>on_demand\<close> says whether the beat was asked for; its latency goes
  to the caller then and to the check task otherwise.
\<close>

datatype request_result = RequestExit | ToCaller | ToCheck

definition requester_step ::
  "'x byte_io \<Rightarrow> u32 \<Rightarrow> bool \<Rightarrow> 'x \<Rightarrow> (request_result \<times> 'x) option" where
  "requester_step io hb_id on_demand x =
     (case write_all io (u32_to_be_bytes hb_id) x of
        None \<Rightarrow> None
      | Some (Inl _, x1) \<Rightarrow> Some (RequestExit, x1)
      | Some (Inr _, x1) \<Rightarrow>
        (case read_exact io 4 x1 of
           None \<Rightarrow> None
         | Some (Inl _, x2) \<Rightarrow> Some (RequestExit, x2)
         | Some (Inr resp_bytes, x2) \<Rightarrow>
           if hb_id \<noteq> u32_from_be_bytes resp_bytes then Some (RequestExit, x2)
           else Some (if on_demand then ToCaller else ToCheck, x2)))"

text \<open>The responder: the four bytes of its buffer are zero before each read.\<close>

definition responder_step :: "'x byte_io \<Rightarrow> 'x \<Rightarrow> (bool \<times> 'x) option" where
  "responder_step io x =
     (case io_read io 4 x of
        None \<Rightarrow> None
      | Some (Inl _, x1) \<Rightarrow> Some (False, x1)
      | Some (Inr bs, x1) \<Rightarrow>
        (let buf = bs @ drop (length bs) [0, 0, 0, 0] in
         case write_all io buf x1 of
           None \<Rightarrow> None
         | Some (Inl _, x2) \<Rightarrow> Some (False, x2)
         | Some (Inr _, x2) \<Rightarrow> Some (True, x2)))"

section \<open>The session wrapper\<close>

text \<open>
  \<open>accept_typed\<close>: the streams for which a responder was started are part of the
  result. \<open>acc\<close> is the inner session's \<open>accept_typed\<close>.
\<close>

partial_function (option) hb_accept_typed ::
  "u32 \<Rightarrow> ('i \<Rightarrow> ((mux_error, 'x typed_stream) result \<times> 'i) option) \<Rightarrow> 'x typed_stream list \<Rightarrow> 'i
     \<Rightarrow> ((mux_error, 'x typed_stream) result \<times> 'x typed_stream list \<times> 'i) option" where
  "hb_accept_typed typ acc started i =
     Option.bind (acc i) (\<lambda>(r, i').
       case r of
         Inl e \<Rightarrow> Some (Err e, started, i')
       | Inr stream \<Rightarrow>
         if ts_typ stream = typ then hb_accept_typed typ acc (started @ [stream]) i'
         else Some (Ok stream, started, i'))"

definition hb_open_typed :: "u32 \<Rightarrow> (u32 \<Rightarrow> (mux_error, 'x) result) \<Rightarrow> u32 \<Rightarrow> (mux_error, 'x) result" where
  "hb_open_typed typ inner_open t = (if t = typ then Err StreamRefused else inner_open t)"

definition hb_start ::
  "'h heartbeat_config \<Rightarrow> (mux_error, 'x typed_stream) result
     \<Rightarrow> (io_error, 'x typed_stream \<times> hb_durations) result" where
  "hb_start cfg opened =
     (case opened of
        Inl _ \<Rightarrow> Err (IoError ConnectionReset SrcNone)
      | Inr stream \<Rightarrow> Ok (stream, durations_new cfg))"

section \<open>Facts\<close>

lemma get_set_durations:
  "i < 2 ^ 64 \<Longrightarrow> get_durations (set_interval i du) = (i, snd (get_durations du))"
  "t < 2 ^ 64 \<Longrightarrow> get_durations (set_tolerance t du) = (fst (get_durations du), t)"
  by (simp_all add: get_durations_def set_interval_def set_tolerance_def unat_of_nat)

context byte_stream
begin

lemma responder_spec:
  assumes "ok x" "io_read io 4 x = Some (Ok bs, x1)" "responder_step io x = Some (True, x2)"
  shows "outgoing x2 = outgoing x1 @ bs @ replicate (4 - length bs) 0 \<and> incoming x = bs @ incoming x1 \<and> ok x2"
proof -
  from read_law [OF assms(1,2)] have 1: "length bs \<le> 4" "incoming x = bs @ incoming x1" "ok x1" by auto
  from assms(2,3) have "write_all io (bs @ drop (length bs) [0, 0, 0, 0]) x1 = Some (Ok (), x2)"
    by (auto simp: responder_step_def Let_def split: option.splits sum.splits)
  from write_all_law [OF 1(3) this] have "outgoing x2 = outgoing x1 @ bs @ drop (length bs) [0, 0, 0, 0]" "ok x2" by auto
  moreover have "drop (length bs) [0, 0, 0, 0 :: byte] = replicate (4 - length bs) 0"
    using drop_replicate [of "length bs" 4 "0 :: byte"] by (simp add: numeral_eq_Suc)
  ultimately show ?thesis using 1(2) by simp
qed

lemma requester_answered:
  assumes "ok x" "requester_step io hb_id on_demand x = Some (r, x2)" "r \<noteq> RequestExit"
  shows "\<exists>x1. write_all io (u32_to_be_bytes hb_id) x = Some (Ok (), x1) \<and> outgoing x1 = outgoing x @ u32_to_be_bytes hb_id \<and>
    (\<exists>resp. length resp = 4 \<and> incoming x1 = resp @ incoming x2 \<and> u32_from_be_bytes resp = hb_id) \<and>
    r = (if on_demand then ToCaller else ToCheck)"
proof -
  from assms(2,3) obtain x1 resp where
    w: "write_all io (u32_to_be_bytes hb_id) x = Some (Ok (), x1)" and
    r: "read_exact io 4 x1 = Some (Ok resp, x2)" "u32_from_be_bytes resp = hb_id" "r = (if on_demand then ToCaller else ToCheck)"
    by (auto simp: requester_step_def split: option.splits sum.splits if_splits)
  from write_all_law [OF assms(1) w] have o: "outgoing x1 = outgoing x @ u32_to_be_bytes hb_id" "ok x1" by auto
  from read_exact_law [OF o(2) r(1)] w o r show ?thesis by blast
qed

end

lemma hb_accept_spec:
  assumes "hb_accept_typed t acc started i = Some (r, started', i')"
  shows "\<exists>hs. started' = started @ hs \<and> list_all (\<lambda>s. ts_typ s = t) hs \<and>
    (\<forall>s. r = Ok s \<longrightarrow> ts_typ s \<noteq> t)"
proof -
  let ?P = "\<lambda>t acc started i y. \<exists>hs. fst (snd y) = started @ hs \<and> list_all (\<lambda>s. ts_typ s = t) hs \<and>
      (\<forall>s. fst y = Ok s \<longrightarrow> ts_typ s \<noteq> t)"
  have "?P t acc started i (r, started', i')"
  proof (rule hb_accept_typed.raw_induct [where P = ?P, OF _ assms])
    fix f t acc started i y
    assume ih: "\<And>t acc started i y. f t acc started i = Some y \<Longrightarrow> ?P t acc started i y"
      and eq: "Option.bind (acc i) (\<lambda>(r, i'). case r of Inl e \<Rightarrow> Some (Err e, started, i')
        | Inr stream \<Rightarrow> if ts_typ stream = t then f t acc (started @ [stream]) i' else Some (Ok stream, started, i')) = Some y"
    from eq show "?P t acc started i y"
      by (auto split: Option.bind_splits sum.splits if_splits prod.splits dest!: ih)
  qed
  then show ?thesis by simp
qed

section \<open>Properties\<close>



text \<open>
  The responder answers with what it read, filled up with zero bytes to four: a
  read that returns fewer than four bytes, or none at the end of the stream, is
  answered with bytes that were never received.
\<close>

theorem responder_pads_with_zeros:
  assumes "frame_chan M contents" "frame_chan.mux_ok contents x"
    "io_read (mux_io M w) 4 x = Some (Ok bs, x1)" "responder_step (mux_io M w) x = Some (True, x2)"
  shows "frame_chan.mux_out contents x2 = frame_chan.mux_out contents x1 @ bs @ replicate (4 - length bs) 0"
  using byte_stream.responder_spec [OF frame_chan.mux_byte_stream [OF assms(1)] assms(2-4)] by simp

lemma eof_read:
  assumes "read_buf s = []" "data_read_closed s"
  shows "io_read (mux_io M w) 4 (s, h) = Some (Ok [], (s, h))"
  using assms by (simp add: mux_io_def) (subst poll_read.simps, simp)

theorem responder_pads_with_zeros_witness:
  "\<exists>x2. responder_step (mux_io bounded_mpsc 0) (demo_stream\<lparr>data_read_closed := True\<rparr>, demo_heap) = Some (True, x2) \<and>
    bounded_frames.mux_out x2 = [0, 0, 0, 0]"
proof -
  let ?x = "(demo_stream\<lparr>data_read_closed := True\<rparr>, demo_heap)"
  have ok: "bounded_frames.mux_ok ?x" and o0: "bounded_frames.mux_out ?x = []"
    by (simp_all add: bounded_frames.mux_ok_def bounded_frames.mux_out_def demo_facts)
  have rd: "io_read (mux_io bounded_mpsc 0) 4 ?x = Some (Ok [], ?x)"
    by (rule eof_read) (simp_all add: demo_facts)
  have "\<exists>x2. write_all (mux_io bounded_mpsc 0) [0, 0, 0, 0] ?x = Some (Ok (), x2)"
    by (simp add: write_all.simps mux_io_def poll_write_def poll_write_send_def sender_poll_ready_def
        sender_start_send_def check_closed_def demo_stream_def stream_new_def demo_heap_def bounded_mpsc_def
        on_chan_def Let_def split_beta window_capacity_def window_new_def Length_clamp_def clamp_def as_u32_def
        LENGTH_MAX_def)
  then obtain x2 where "responder_step (mux_io bounded_mpsc 0) ?x = Some (True, x2)"
    by (auto simp: responder_step_def rd)
  with responder_pads_with_zeros [OF bounded_frames.frame_chan_axioms ok rd this] o0 show ?thesis
    by (auto simp: numeral_eq_Suc)
qed

text \<open>
  Accepting through the wrapper never returns a heartbeat stream; every stream
  that arrived before the one returned was a heartbeat stream and was given a
  responder.
\<close>

theorem accept_skips_heartbeats:
  assumes "hb_accept_typed HEARTBEAT_TYPE acc [] i = Some (Ok s, started, i')"
  shows "ts_typ s \<noteq> HEARTBEAT_TYPE \<and> list_all (\<lambda>s. ts_typ s = HEARTBEAT_TYPE) started"
  using hb_accept_spec [OF assms] by auto

definition demo_accept :: "u32 list \<Rightarrow> ((mux_error, unit typed_stream) result \<times> u32 list) option" where
  "demo_accept ts = (case ts of [] \<Rightarrow> Some (Err SessionClosed, []) | t # ts' \<Rightarrow> Some (Ok \<lparr>ts_typ = t, ts_inner = ()\<rparr>, ts'))"

theorem accept_skips_heartbeats_witness:
  "\<exists>s started. hb_accept_typed HEARTBEAT_TYPE demo_accept [] [0xFFFFFFFF, 7] = Some (Ok s, started, []) \<and>
    ts_typ s \<noteq> HEARTBEAT_TYPE"
proof -
  have t: "HEARTBEAT_TYPE = 0xFFFFFFFF"
    by (simp add: HEARTBEAT_TYPE_def StreamType_clamp_def clamp_def ERROR_MAX_def)
  have e: "hb_accept_typed HEARTBEAT_TYPE demo_accept [] [0xFFFFFFFF, 7] =
      Some (Ok \<lparr>ts_typ = 7, ts_inner = ()\<rparr>, [\<lparr>ts_typ = 0xFFFFFFFF, ts_inner = ()\<rparr>], [])"
    by (simp add: hb_accept_typed.simps demo_accept_def t)
  from accept_skips_heartbeats [OF e] e show ?thesis by blast
qed

end
