(* ===== verification/Proxy_Proto.thy ===== *)
theory Proxy_Proto
  imports Mux_Errors
begin

text \<open>
  \<open>ngrok/src/proxy_proto.rs\<close>: a stream that strips a PROXY protocol header from what
  it reads, or writes one before what it writes. The parser and the encoder of the
  crate \<open>proxy_protocol\<close> and the wrapped stream are parameters. A poll returns an
  option: \<open>None\<close> when its loop never ends or the parser panics.
\<close>

section \<open>The parameters\<close>

record 'x poll_io =
  pi_read :: "usize \<Rightarrow> 'x \<Rightarrow> ((io_error, unit) result poll \<times> bytes \<times> 'x) option"
  pi_write :: "bytes \<Rightarrow> 'x \<Rightarrow> ((io_error, usize) result poll \<times> 'x) option"
  pi_flush :: "'x \<Rightarrow> (io_error, unit) result poll \<times> 'x"
  pi_shutdown :: "'x \<Rightarrow> (io_error, unit) result poll \<times> 'x"

datatype 'e parse_error = NotProxyHeader | ParseOther 'e

type_synonym ('e, 'h) parser = "bytes \<Rightarrow> ('e parse_error, 'h \<times> bytes) result option"

text \<open>
  What the wrapped stream promises: its polls return; a read gives bytes from the front
  of what arrives, no more than there is room for; a write appends a prefix of its
  buffer to what is sent.
\<close>

locale poll_stream =
  fixes io :: "'x poll_io" and ok :: "'x \<Rightarrow> bool" and incoming outgoing :: "'x \<Rightarrow> bytes"
  assumes read_returns: "ok x \<Longrightarrow> \<exists>r bs x'. pi_read io n x = Some (r, bs, x') \<and> r \<noteq> Panicked \<and>
      length bs \<le> n \<and> incoming x = bs @ incoming x' \<and> ok x'"
    and write_returns: "ok x \<Longrightarrow> \<exists>q x'. pi_write io buf x = Some (q, x') \<and> q \<noteq> Panicked \<and> ok x' \<and>
      (case q of Ready (Inr k) \<Rightarrow> k \<le> length buf \<and> outgoing x' = outgoing x @ take k buf
       | _ \<Rightarrow> outgoing x' = outgoing x)"

text \<open>
  What the parser promises: it leaves a suffix of its input, and it does not panic on
  an input that does not end in a carriage return.
\<close>

definition header_parser :: "('e, 'h) parser \<Rightarrow> bool" where
  "header_parser parse \<longleftrightarrow>
     (\<forall>bs h rest. parse bs = Some (Ok (h, rest)) \<longrightarrow> (\<exists>skip. bs = skip @ rest)) \<and>
     (\<forall>bs. bs \<noteq> [] \<longrightarrow> last bs \<noteq> 13 \<longrightarrow> parse bs \<noteq> None)"

section \<open>Reading\<close>

definition MAX_HEADER_LEN :: usize where "MAX_HEADER_LEN = 536"
definition MIN_HEADER_LEN :: usize where "MIN_HEADER_LEN = 16"

datatype ('e, 'h) read_state =
    Reading "'e parse_error option" bytes
  | RsError "'e parse_error" bytes
  | RsHeader "'h option" bytes
  | RsNone

definition read_state_new :: "('e, 'h) read_state" where
  "read_state_new = Reading None []"

fun rs_header :: "('e, 'h) read_state \<Rightarrow> ('e parse_error, 'h option) result" where
  "rs_header (RsError err _) = Err err"
| "rs_header (Reading (Some err) _) = Err err"
| "rs_header RsNone = Ok None"
| "rs_header (Reading None _) = Ok None"
| "rs_header (RsHeader hdr _) = Ok hdr"

text \<open>
  A round of the loop ends with \<open>continue\<close> or with \<open>return\<close>. Its first half reads
  while the buffer, made with room for \<open>MAX_HEADER_LEN\<close> bytes, is not full; its second
  half parses what is in the buffer.
\<close>

datatype ('e, 'h, 'x) round =
    Continue "('e, 'h) read_state" 'x
  | Return "(io_error, unit) result poll" "('e, 'h) read_state" 'x

definition parse_buf ::
  "('e, 'h) parser \<Rightarrow> 'e parse_error option \<Rightarrow> bytes \<Rightarrow> 'x \<Rightarrow> ('e, 'h, 'x) round option" where
  "parse_buf parse last_err hdr_buf x =
     (if length hdr_buf < MIN_HEADER_LEN \<or> (hdr_buf \<noteq> [] \<and> last hdr_buf = 13)
      then Some (Continue (Reading last_err hdr_buf) x)
      else case parse hdr_buf of
        None \<Rightarrow> None
      | Some (Inr (hdr, rest)) \<Rightarrow>
        Some (Return (Ready (Ok ())) (RsHeader (Some hdr) (drop (length hdr_buf - length rest) hdr_buf)) x)
      | Some (Inl NotProxyHeader) \<Rightarrow> Some (Return (Ready (Ok ())) (RsHeader None hdr_buf) x)
      | Some (Inl err) \<Rightarrow>
        Some (Continue (if MAX_HEADER_LEN \<le> length hdr_buf then RsError err hdr_buf else Reading (Some err) hdr_buf) x))"

definition header_round ::
  "'x poll_io \<Rightarrow> ('e, 'h) parser \<Rightarrow> 'e parse_error option \<Rightarrow> bytes \<Rightarrow> 'x \<Rightarrow> ('e, 'h, 'x) round option" where
  "header_round io parse last_err hdr_buf x =
     (if length hdr_buf < MAX_HEADER_LEN then
        Option.bind (pi_read io (MAX_HEADER_LEN - length hdr_buf) x) (\<lambda>(read_res, filled, x').
          case read_res of
            Ready res \<Rightarrow>
              if res \<noteq> Ok () \<or> filled = [] then
                Some (Return read_res (case last_err of Some err \<Rightarrow> RsError err (hdr_buf @ filled)
                  | None \<Rightarrow> RsHeader None (hdr_buf @ filled)) x')
              else parse_buf parse last_err (hdr_buf @ filled) x'
          | _ \<Rightarrow> Some (Return read_res (Reading last_err (hdr_buf @ filled)) x'))
      else parse_buf parse last_err hdr_buf x)"

partial_function (option) poll_read_header_once ::
  "'x poll_io \<Rightarrow> ('e, 'h) parser \<Rightarrow> ('e, 'h) read_state \<Rightarrow> 'x
     \<Rightarrow> ((io_error, unit) result poll \<times> ('e, 'h) read_state \<times> 'x) option" where
  "poll_read_header_once io parse st x =
     (case st of
        Reading last_err hdr_buf \<Rightarrow>
          (case header_round io parse last_err hdr_buf x of
             None \<Rightarrow> None
           | Some (Return r st' x') \<Rightarrow> Some (r, st', x')
           | Some (Continue st' x') \<Rightarrow> poll_read_header_once io parse st' x')
      | _ \<Rightarrow> Some (Ready (Ok ()), st, x))"

section \<open>Writing\<close>

datatype write_state = Writing bytes | WsNone

definition write_state_new :: "('h \<Rightarrow> ('n, bytes) result) \<Rightarrow> 'h \<Rightarrow> ('n, write_state) result" where
  "write_state_new encode hdr = (case encode hdr of Inl e \<Rightarrow> Err e | Inr bs \<Rightarrow> Ok (Writing bs))"

partial_function (option) poll_write_header_once ::
  "'x poll_io \<Rightarrow> write_state \<Rightarrow> 'x \<Rightarrow> ((io_error, unit) result poll \<times> write_state \<times> 'x) option" where
  "poll_write_header_once io st x =
     (case st of
        WsNone \<Rightarrow> Some (Ready (Ok ()), WsNone, x)
      | Writing buf \<Rightarrow>
        (case pi_write io buf x of
           None \<Rightarrow> None
         | Some (Pending, x') \<Rightarrow> Some (Pending, Writing buf, x')
         | Some (Panicked, x') \<Rightarrow> Some (Panicked, Writing buf, x')
         | Some (Ready (Inl e), x') \<Rightarrow> Some (Ready (Err e), Writing buf, x')
         | Some (Ready (Inr written), x') \<Rightarrow>
           if drop written buf \<noteq> [] then poll_write_header_once io (Writing (drop written buf)) x'
           else Some (Ready (Ok ()), WsNone, x')))"

section \<open>The stream\<close>

record ('e, 'h, 'x) proxy_stream =
  read_st :: "('e, 'h) read_state"
  write_st :: write_state
  ps_inner :: 'x

definition proxy_outgoing ::
  "('h \<Rightarrow> ('n, bytes) result) \<Rightarrow> 'x \<Rightarrow> 'h \<Rightarrow> ('n, ('e, 'h, 'x) proxy_stream) result" where
  "proxy_outgoing encode stream hdr =
     and_then (write_state_new encode hdr)
       (\<lambda>ws. Ok \<lparr>read_st = RsNone, write_st = ws, ps_inner = stream\<rparr>)"

definition proxy_incoming :: "'x \<Rightarrow> ('e, 'h, 'x) proxy_stream" where
  "proxy_incoming stream = \<lparr>read_st = read_state_new, write_st = WsNone, ps_inner = stream\<rparr>"

definition proxy_disabled :: "'x \<Rightarrow> ('e, 'h, 'x) proxy_stream" where
  "proxy_disabled stream = \<lparr>read_st = RsNone, write_st = WsNone, ps_inner = stream\<rparr>"

definition proxy_header_poll ::
  "'x poll_io \<Rightarrow> ('e, 'h) parser \<Rightarrow> ('e, 'h, 'x) proxy_stream
     \<Rightarrow> ((io_error, ('e parse_error, 'h option) result) result poll \<times> ('e, 'h, 'x) proxy_stream) option" where
  "proxy_header_poll io parse s =
     Option.bind (poll_read_header_once io parse (read_st s) (ps_inner s)) (\<lambda>(r, st, x).
       let s' = s\<lparr>read_st := st, ps_inner := x\<rparr> in
       Some (case r of Pending \<Rightarrow> Pending | Panicked \<Rightarrow> Panicked
         | Ready (Inl e) \<Rightarrow> Ready (Err e) | Ready (Inr _) \<Rightarrow> Ready (Ok (rs_header st)), s'))"

definition proxy_poll_read ::
  "'x poll_io \<Rightarrow> ('e, 'h) parser \<Rightarrow> usize \<Rightarrow> ('e, 'h, 'x) proxy_stream
     \<Rightarrow> ((io_error, unit) result poll \<times> bytes \<times> ('e, 'h, 'x) proxy_stream) option" where
  "proxy_poll_read io parse room s =
     Option.bind (poll_read_header_once io parse (read_st s) (ps_inner s)) (\<lambda>(r, st, x).
       let s' = s\<lparr>read_st := st, ps_inner := x\<rparr>;
           inner = map_option (\<lambda>(r', bs, x'). (r', bs, s'\<lparr>ps_inner := x'\<rparr>)) (pi_read io room x) in
       case r of
         Pending \<Rightarrow> Some (Pending, [], s')
       | Panicked \<Rightarrow> Some (Panicked, [], s')
       | Ready (Inl e) \<Rightarrow> Some (Ready (Err e), [], s')
       | Ready (Inr _) \<Rightarrow>
         (case st of
            RsError err rem \<Rightarrow>
              if rem \<noteq> [] then Some (Ready (Ok ()), take (min (length rem) room) rem,
                s'\<lparr>read_st := RsError err (drop (min (length rem) room) rem)\<rparr>)
              else inner
          | RsHeader hdr rem \<Rightarrow>
              if rem \<noteq> [] then Some (Ready (Ok ()), take (min (length rem) room) rem,
                s'\<lparr>read_st := RsHeader hdr (drop (min (length rem) room) rem)\<rparr>)
              else inner
          | RsNone \<Rightarrow> inner
          | Reading _ _ \<Rightarrow> Some (Panicked, [], s')))"

definition proxy_poll_write ::
  "'x poll_io \<Rightarrow> bytes \<Rightarrow> ('e, 'h, 'x) proxy_stream
     \<Rightarrow> ((io_error, usize) result poll \<times> ('e, 'h, 'x) proxy_stream) option" where
  "proxy_poll_write io buf s =
     Option.bind (poll_write_header_once io (write_st s) (ps_inner s)) (\<lambda>(r, st, x).
       let s' = s\<lparr>write_st := st, ps_inner := x\<rparr> in
       case r of
         Pending \<Rightarrow> Some (Pending, s')
       | Panicked \<Rightarrow> Some (Panicked, s')
       | Ready (Inl e) \<Rightarrow> Some (Ready (Err e), s')
       | Ready (Inr _) \<Rightarrow> map_option (\<lambda>(r', x'). (r', s'\<lparr>ps_inner := x'\<rparr>)) (pi_write io buf x))"

definition proxy_poll_flush ::
  "'x poll_io \<Rightarrow> ('e, 'h, 'x) proxy_stream \<Rightarrow> (io_error, unit) result poll \<times> ('e, 'h, 'x) proxy_stream" where
  "proxy_poll_flush io s = (case pi_flush io (ps_inner s) of (r, x) \<Rightarrow> (r, s\<lparr>ps_inner := x\<rparr>))"

definition proxy_poll_shutdown ::
  "'x poll_io \<Rightarrow> ('e, 'h, 'x) proxy_stream \<Rightarrow> (io_error, unit) result poll \<times> ('e, 'h, 'x) proxy_stream" where
  "proxy_poll_shutdown io s = (case pi_shutdown io (ps_inner s) of (r, x) \<Rightarrow> (r, s\<lparr>ps_inner := x\<rparr>))"

section \<open>The header is read once\<close>

fun buffered :: "('e, 'h) read_state \<Rightarrow> bytes" where
  "buffered (Reading _ b) = b"
| "buffered (RsError _ b) = b"
| "buffered (RsHeader _ b) = b"
| "buffered RsNone = []"

fun settled :: "('e, 'h) read_state \<Rightarrow> bool" where
  "settled (Reading _ _) = False"
| "settled _ = True"

definition cr_at_limit :: "bytes \<Rightarrow> bool" where
  "cr_at_limit bs \<longleftrightarrow> MAX_HEADER_LEN \<le> length bs \<and> bs ! (MAX_HEADER_LEN - 1) = 13"

definition skipped_header :: "bytes \<Rightarrow> ('e, 'h) read_state \<Rightarrow> bool" where
  "skipped_header skip st \<longleftrightarrow> skip = [] \<or> (\<exists>h b. st = RsHeader (Some h) b)"

lemma settled_header_once [simp]:
  "settled st \<Longrightarrow> poll_read_header_once io parse st x = Some (Ready (Ok ()), st, x)"
  by (subst poll_read_header_once.simps) (cases st, auto)

lemma cr_at_limit_full:
  "length buf = MAX_HEADER_LEN \<Longrightarrow> last buf = 13 \<Longrightarrow> cr_at_limit (buf @ rest)"
  by (cases buf rule: rev_cases) (auto simp: cr_at_limit_def nth_append MAX_HEADER_LEN_def)

lemma parser_suffix:
  assumes "header_parser parse" "parse bs = Some (Ok (h, rest))"
  obtains skip where "bs = skip @ rest" "drop (length bs - length rest) bs = rest"
  using assms by (fastforce simp: header_parser_def)

text \<open>The second half of a round keeps the bytes and never panics.\<close>

lemma parse_buf_post:
  assumes "header_parser parse" "length buf \<le> MAX_HEADER_LEN"
  shows "\<exists>rd. parse_buf parse last_err buf x = Some rd \<and>
    (case rd of
       Continue st x' \<Rightarrow> x' = x \<and> buffered st = buf \<and> (settled st \<or> length buf < MAX_HEADER_LEN \<or> last buf = 13)
     | Return r st x' \<Rightarrow> x' = x \<and> r = Ready (Ok ()) \<and> settled st \<and>
         (\<exists>skip. buf = skip @ buffered st \<and> skipped_header skip st))"
proof (cases "length buf < MIN_HEADER_LEN \<or> (buf \<noteq> [] \<and> last buf = 13)")
  case True
  then show ?thesis by (auto simp: parse_buf_def MIN_HEADER_LEN_def MAX_HEADER_LEN_def)
next
  case False
  then have "parse buf \<noteq> None"
    using assms(1) by (cases buf) (auto simp: header_parser_def MIN_HEADER_LEN_def)
  then obtain p where p: "parse buf = Some p" by blast
  show ?thesis
  proof (cases p)
    case (Inl err)
    with False p show ?thesis by (cases err) (auto simp: parse_buf_def skipped_header_def)
  next
    case (Inr hr)
    then obtain h rest where "p = Ok (h, rest)" by (metis surj_pair)
    with p parser_suffix [OF assms(1), of buf h rest] obtain skip where
      "parse buf = Some (Ok (h, rest))" "buf = skip @ rest" "drop (length buf - length rest) buf = rest" by auto
    then show ?thesis
      using False by (intro exI [of _ "Return (Ready (Ok ())) (RsHeader (Some h) rest) x"])
        (simp add: parse_buf_def skipped_header_def, blast?)
  qed
qed

context poll_stream
begin

definition round_spec :: "bytes \<Rightarrow> 'x \<Rightarrow> ('e, 'h, 'x) round \<Rightarrow> bool" where
  "round_spec buf x rd \<longleftrightarrow> (case rd of
     Continue st x' \<Rightarrow> ok x' \<and> buffered st @ incoming x' = buf @ incoming x \<and> length (buffered st) \<le> MAX_HEADER_LEN \<and>
       (settled st \<or> length buf < length (buffered st) \<or> length buf = MAX_HEADER_LEN \<and> last buf = 13)
   | Return r st x' \<Rightarrow> ok x' \<and> r \<noteq> Panicked \<and> (settled st \<longleftrightarrow> r \<noteq> Pending) \<and>
       length (buffered st) \<le> MAX_HEADER_LEN \<and>
       (\<exists>skip. buf @ incoming x = skip @ buffered st @ incoming x' \<and> skipped_header skip st))"

lemma parse_round_spec:
  assumes "ok x'" "header_parser parse" "length (buf @ bs) \<le> MAX_HEADER_LEN" "incoming x = bs @ incoming x'"
    "bs \<noteq> [] \<or> length buf = MAX_HEADER_LEN"
  shows "\<exists>rd. parse_buf parse last_err (buf @ bs) x' = Some rd \<and> round_spec buf x rd"
proof -
  from parse_buf_post [OF assms(2,3), of last_err x'] obtain rd where rd: "parse_buf parse last_err (buf @ bs) x' = Some rd"
    "case rd of
       Continue st y \<Rightarrow> y = x' \<and> buffered st = buf @ bs \<and>
         (settled st \<or> length (buf @ bs) < MAX_HEADER_LEN \<or> last (buf @ bs) = 13)
     | Return r st y \<Rightarrow> y = x' \<and> r = Ready (Ok ()) \<and> settled st \<and>
         (\<exists>skip. buf @ bs = skip @ buffered st \<and> skipped_header skip st)" by blast
  have "round_spec buf x rd"
  proof (cases rd)
    case (Continue st y)
    with rd(2) assms show ?thesis by (auto simp: round_spec_def)
  next
    case (Return r st y)
    with rd(2) obtain skip where "buf @ bs = skip @ buffered st" "skipped_header skip st" by auto
    moreover from this(1) have "length (buffered st) \<le> length (buf @ bs)" by simp
    moreover from calculation(1) assms(4) have "buf @ incoming x = skip @ buffered st @ incoming x'"
      by (metis append.assoc)
    ultimately show ?thesis using Return rd(2) assms by (auto simp: round_spec_def simp del: length_append)
  qed
  with rd(1) show ?thesis by blast
qed

lemma header_round_post:
  assumes "ok x" "header_parser parse" "length buf \<le> MAX_HEADER_LEN"
  shows "\<exists>rd. header_round io parse last_err buf x = Some rd \<and> round_spec buf x rd"
proof (cases "length buf < MAX_HEADER_LEN")
  case False
  with parse_round_spec [of x parse buf "[]" x last_err] assms show ?thesis by (simp add: header_round_def)
next
  case True
  from read_returns [OF assms(1), of "MAX_HEADER_LEN - length buf"] obtain r bs x' where
    r: "pi_read io (MAX_HEADER_LEN - length buf) x = Some (r, bs, x')" "r \<noteq> Panicked"
      "length (buf @ bs) \<le> MAX_HEADER_LEN" "incoming x = bs @ incoming x'" "ok x'"
    using True by auto
  show ?thesis
  proof (cases "r \<noteq> Ready (Ok ()) \<or> bs = []")
    case True
    with \<open>length buf < MAX_HEADER_LEN\<close> r show ?thesis
      by (cases r) (auto simp: header_round_def round_spec_def skipped_header_def split: option.splits)
  next
    case False
    with parse_round_spec [OF r(5) assms(2) r(3,4), of last_err] True r show ?thesis
      by (simp add: header_round_def)
  qed
qed

lemma header_once_post:
  assumes "ok x" "header_parser parse" "length (buffered st) \<le> MAX_HEADER_LEN"
    "\<not> settled st \<longrightarrow> \<not> cr_at_limit (buffered st @ incoming x)"
  shows "\<exists>r st' x' skip. poll_read_header_once io parse st x = Some (r, st', x') \<and> ok x' \<and> r \<noteq> Panicked \<and>
    (settled st' \<longleftrightarrow> r \<noteq> Pending) \<and> length (buffered st') \<le> MAX_HEADER_LEN \<and>
    buffered st @ incoming x = skip @ buffered st' @ incoming x' \<and> skipped_header skip st' \<and>
    (settled st \<longrightarrow> st' = st \<and> x' = x)"
  using assms
proof (induction "MAX_HEADER_LEN - length (buffered st)" arbitrary: st x rule: less_induct)
  case less
  show ?case
  proof (cases st)
    case (Reading e buf)
    with less.prems have len: "length buf \<le> MAX_HEADER_LEN" and ncr: "\<not> cr_at_limit (buf @ incoming x)" by simp_all
    from header_round_post [OF less.prems(1,2) len, of e] obtain rd where
      rd: "header_round io parse e buf x = Some rd" and post: "round_spec buf x rd" by blast
    show ?thesis
    proof (cases rd)
      case (Return r st' x')
      with rd Reading have "poll_read_header_once io parse st x = Some (r, st', x')"
        by (subst poll_read_header_once.simps) simp
      with post Return Reading show ?thesis by (auto simp: round_spec_def)
    next
      case (Continue st' x')
      with rd Reading have eq: "poll_read_header_once io parse st x = poll_read_header_once io parse st' x'"
        by (subst poll_read_header_once.simps) simp
      have st': "ok x'" "buffered st' @ incoming x' = buf @ incoming x" "length (buffered st') \<le> MAX_HEADER_LEN"
        using post Continue by (simp_all add: round_spec_def)
      have prog: "settled st' \<or> length buf < length (buffered st')"
        using post Continue ncr cr_at_limit_full [of buf] by (auto simp: round_spec_def)
      show ?thesis
      proof (cases "settled st'")
        case True
        with eq st' Reading show ?thesis by (auto simp: skipped_header_def)
      next
        case False
        with prog st'(3) have "MAX_HEADER_LEN - length (buffered st') < MAX_HEADER_LEN - length (buffered st)"
          using Reading by auto
        from less.hyps [OF this st'(1) less.prems(2) st'(3)] ncr st'(2) Reading eq False show ?thesis by simp
      qed
    qed
  qed (use less.prems in \<open>auto simp: skipped_header_def\<close>)
qed

end

end
