(* ===== verification/Proxy_Props.thy ===== *)
theory Proxy_Props
  imports Typed_Stream Proxy_Proto
begin

text \<open>
  The properties of the PROXY protocol stream: the bytes behind the header reach the
  reader unchanged, the header is written once and before everything else, and the
  input on which the reading loop never ends. A muxado stream is a stream it can wrap.
\<close>

section \<open>Reads of the wrapping stream\<close>

context poll_stream
begin

definition unread :: "('e, 'h, 'x) proxy_stream \<Rightarrow> bytes" where
  "unread s = buffered (read_st s) @ incoming (ps_inner s)"

definition readable :: "('e, 'h, 'x) proxy_stream \<Rightarrow> bool" where
  "readable s \<longleftrightarrow> ok (ps_inner s) \<and> length (buffered (read_st s)) \<le> MAX_HEADER_LEN \<and>
     (\<not> settled (read_st s) \<longrightarrow> \<not> cr_at_limit (unread s))"

fun same_header :: "('e, 'h) read_state \<Rightarrow> ('e, 'h) read_state \<Rightarrow> bool" where
  "same_header (RsHeader h _) st \<longleftrightarrow> (\<exists>b. st = RsHeader h b)"
| "same_header (RsError e _) st \<longleftrightarrow> (\<exists>b. st = RsError e b)"
| "same_header RsNone st \<longleftrightarrow> st = RsNone"
| "same_header (Reading _ _) st \<longleftrightarrow> True"

lemma deliver_post:
  fixes s :: "('e, 'h, 'x) proxy_stream"
  assumes "ok (ps_inner s)" "settled (read_st s)" "length (buffered (read_st s)) \<le> MAX_HEADER_LEN"
  shows "\<exists>r out s'. proxy_poll_read io parse room s = Some (r, out, s') \<and> r \<noteq> Panicked \<and> readable s' \<and>
    length out \<le> room \<and> unread s = out @ unread s' \<and> settled (read_st s') \<and> same_header (read_st s) (read_st s')"
proof -
  from read_returns [OF assms(1), of room] obtain r bs x' where
    "pi_read io room (ps_inner s) = Some (r, bs, x')" "r \<noteq> Panicked" "length bs \<le> room"
    "incoming (ps_inner s) = bs @ incoming x'" "ok x'" by blast
  with assms show ?thesis
    by (cases "read_st s") (auto simp: proxy_poll_read_def readable_def unread_def)
qed

lemma proxy_read_post:
  fixes s :: "('e, 'h, 'x) proxy_stream"
  assumes "header_parser parse" "readable s"
  shows "\<exists>r out s' skip. proxy_poll_read io parse room s = Some (r, out, s') \<and> r \<noteq> Panicked \<and> readable s' \<and>
    length out \<le> room \<and> unread s = skip @ out @ unread s' \<and> skipped_header skip (read_st s') \<and>
    (settled (read_st s) \<longrightarrow> skip = [] \<and> settled (read_st s') \<and> same_header (read_st s) (read_st s')) \<and>
    (out \<noteq> [] \<longrightarrow> settled (read_st s'))"
proof -
  from header_once_post [OF _ assms(1), of "ps_inner s" "read_st s"] assms(2) obtain q st x skip where
    h: "poll_read_header_once io parse (read_st s) (ps_inner s) = Some (q, st, x)" "ok x" "q \<noteq> Panicked"
      "settled st \<longleftrightarrow> q \<noteq> Pending" "length (buffered st) \<le> MAX_HEADER_LEN"
      "unread s = skip @ buffered st @ incoming x" "skipped_header skip st"
      "settled (read_st s) \<longrightarrow> st = read_st s \<and> x = ps_inner s"
    unfolding readable_def unread_def by blast
  define s1 where "s1 = s\<lparr>read_st := st, ps_inner := x\<rparr>"
  have s1: "read_st s1 = st" "ps_inner s1 = x" "unread s1 = buffered st @ incoming x"
    by (simp_all add: s1_def unread_def)
  have settled_skip: "settled (read_st s) \<Longrightarrow> skip = []"
    using h(6,8) by (auto simp: unread_def)
  have same: "settled (read_st s) \<Longrightarrow> same_header (read_st s) st"
    using h(8) by (cases "read_st s") auto
  show ?thesis
  proof (cases rule: poll_result_cases [of q])
    case pending
    then have skip: "skip = []"
      using h(4,7) by (auto simp: skipped_header_def)
    have "\<not> settled (read_st s)"
      using h(4,8) pending by auto
    then have "\<not> cr_at_limit (unread s1)"
      using assms(2) h(6) skip by (simp add: readable_def s1)
    then have "readable s1"
      using h by (simp add: readable_def s1)
    moreover have "proxy_poll_read io parse room s = Some (Pending, [], s1)"
      using h(1) pending by (simp add: proxy_poll_read_def s1_def)
    ultimately show ?thesis
      using h pending skip \<open>\<not> settled (read_st s)\<close> by (auto simp: s1)
  next
    case panicked
    with h(3) show ?thesis by simp
  next
    case (err e)
    then have "proxy_poll_read io parse room s = Some (Ready (Err e), [], s1)"
      using h(1) by (simp add: proxy_poll_read_def s1_def)
    moreover have "readable s1"
      using h err by (simp add: readable_def s1)
    ultimately show ?thesis
      using h err settled_skip same by (auto simp: s1)
  next
    case (ok u)
    then have "settled st" using h(4) by simp
    then have eq: "proxy_poll_read io parse room s = proxy_poll_read io parse room s1"
      using h(1) ok by (simp add: proxy_poll_read_def s1 s1_def)
    from deliver_post [of s1 parse room] \<open>settled st\<close> h(2,5) obtain r out s' where
      d: "proxy_poll_read io parse room s1 = Some (r, out, s')" "r \<noteq> Panicked" "readable s'" "length out \<le> room"
        "unread s1 = out @ unread s'" "settled (read_st s')" "same_header st (read_st s')"
      by (auto simp: s1)
    have "skipped_header skip (read_st s')"
      using h(7) d(7) by (auto simp: skipped_header_def)
    with d eq h(6,8) settled_skip s1 show ?thesis
      by (intro exI [of _ r] exI [of _ out] exI [of _ s'] exI [of _ skip]) auto
  qed
qed

end

section \<open>Writes of the wrapping stream\<close>

fun unwritten :: "write_state \<Rightarrow> bytes" where
  "unwritten (Writing b) = b"
| "unwritten WsNone = []"

context poll_stream
begin

lemma header_write_post:
  assumes "poll_write_header_once io ws x = Some (r, ws', x')" "ok x"
  shows "ok x' \<and> r \<noteq> Panicked \<and> outgoing x @ unwritten ws = outgoing x' @ unwritten ws' \<and>
    (\<forall>u. r = Ready (Ok u) \<longrightarrow> ws' = WsNone)"
proof -
  let ?P = "\<lambda>i ws x res. i = io \<longrightarrow> ok x \<longrightarrow> (case res of (r, ws', x') \<Rightarrow> ok x' \<and> r \<noteq> Panicked \<and>
      outgoing x @ unwritten ws = outgoing x' @ unwritten ws' \<and> (\<forall>u. r = Ready (Ok u) \<longrightarrow> ws' = WsNone))"
  have "?P io ws x (r, ws', x')"
  proof (rule poll_write_header_once.raw_induct
      [where P = ?P and xa = "((io, ws), x)", simplified prod.case, OF _ assms(1)])
    fix f i ws x res
    assume ih: "\<And>i ws x res. f i ws x = Some res \<Longrightarrow> ?P i ws x res"
      and eq: "(case ws of
        WsNone \<Rightarrow> Some (Ready (Ok ()), WsNone, x)
      | Writing buf \<Rightarrow>
        (case pi_write i buf x of
           None \<Rightarrow> None
         | Some (Pending, x') \<Rightarrow> Some (Pending, Writing buf, x')
         | Some (Panicked, x') \<Rightarrow> Some (Panicked, Writing buf, x')
         | Some (Ready (Inl e), x') \<Rightarrow> Some (Ready (Err e), Writing buf, x')
         | Some (Ready (Inr written), x') \<Rightarrow>
           if drop written buf \<noteq> [] then f i (Writing (drop written buf)) x'
           else Some (Ready (Ok ()), WsNone, x'))) = Some res"
    show "?P i ws x res"
    proof (intro impI)
      assume a: "i = io" "ok x"
      show "case res of (r, ws', x') \<Rightarrow> ok x' \<and> r \<noteq> Panicked \<and>
        outgoing x @ unwritten ws = outgoing x' @ unwritten ws' \<and> (\<forall>u. r = Ready (Ok u) \<longrightarrow> ws' = WsNone)"
      proof (cases ws)
        case WsNone
        with eq a show ?thesis by auto
      next
        case (Writing buf)
        from write_returns [OF a(2), of buf] obtain q x1 where
          q: "pi_write io buf x = Some (q, x1)" "q \<noteq> Panicked" "ok x1"
            "case q of Ready (Inr k) \<Rightarrow> k \<le> length buf \<and> outgoing x1 = outgoing x @ take k buf
             | _ \<Rightarrow> outgoing x1 = outgoing x" by blast
        show ?thesis
        proof (cases rule: poll_result_cases [of q])
          case (ok k)
          have buf: "take k buf @ drop k buf = buf" by simp
          show ?thesis
          proof (cases "drop k buf = []")
            case True
            with eq a Writing q ok buf show ?thesis by auto
          next
            case False
            with eq a Writing q ok have "f io (Writing (drop k buf)) x1 = Some res" by simp
            from ih [OF this] q ok Writing buf show ?thesis by (auto split: prod.splits)
          qed
        qed (use eq a Writing q in auto)
      qed
    qed
  qed
  with assms(2) show ?thesis by simp
qed

end

section \<open>Sequences of reads and of writes\<close>

fun proxy_reads ::
  "'x poll_io \<Rightarrow> ('e, 'h) parser \<Rightarrow> usize list \<Rightarrow> ('e, 'h, 'x) proxy_stream \<Rightarrow> (bytes \<times> ('e, 'h, 'x) proxy_stream) option" where
  "proxy_reads io parse [] s = Some ([], s)"
| "proxy_reads io parse (room # rooms) s =
     Option.bind (proxy_poll_read io parse room s) (\<lambda>(_, out, s1).
       map_option (\<lambda>(outs, s2). (out @ outs, s2)) (proxy_reads io parse rooms s1))"

text \<open>What the polls of a caller report as written.\<close>

fun accepted :: "(io_error, usize) result poll \<Rightarrow> bytes \<Rightarrow> bytes" where
  "accepted (Ready (Inr n)) buf = take n buf"
| "accepted _ buf = []"

fun proxy_writes ::
  "'x poll_io \<Rightarrow> bytes list \<Rightarrow> ('e, 'h, 'x) proxy_stream \<Rightarrow> (bytes \<times> ('e, 'h, 'x) proxy_stream) option" where
  "proxy_writes io [] s = Some ([], s)"
| "proxy_writes io (buf # bufs) s =
     Option.bind (proxy_poll_write io buf s) (\<lambda>(r, s1).
       map_option (\<lambda>(acc, s2). (accepted r buf @ acc, s2)) (proxy_writes io bufs s1))"

context poll_stream
begin

lemma proxy_reads_post:
  assumes "header_parser parse" "readable s"
  shows "\<exists>out s' skip. proxy_reads io parse rooms s = Some (out, s') \<and> readable s' \<and>
    unread s = skip @ out @ unread s' \<and> skipped_header skip (read_st s') \<and>
    (settled (read_st s) \<longrightarrow> skip = [] \<and> same_header (read_st s) (read_st s'))"
  using assms(2)
proof (induction rooms arbitrary: s)
  case Nil
  then show ?case by (cases "read_st s") (auto simp: skipped_header_def)
next
  case (Cons room rooms)
  from proxy_read_post [OF assms(1) Cons.prems, of room] obtain r out s1 skip where
    one: "proxy_poll_read io parse room s = Some (r, out, s1)" "readable s1" "unread s = skip @ out @ unread s1"
      "skipped_header skip (read_st s1)"
      "settled (read_st s) \<longrightarrow> skip = [] \<and> settled (read_st s1) \<and> same_header (read_st s) (read_st s1)"
      "out \<noteq> [] \<longrightarrow> settled (read_st s1)" by blast
  from Cons.IH [OF one(2)] obtain outs s2 skip2 where
    two: "proxy_reads io parse rooms s1 = Some (outs, s2)" "readable s2" "unread s1 = skip2 @ outs @ unread s2"
      "skipped_header skip2 (read_st s2)" "settled (read_st s1) \<longrightarrow> skip2 = [] \<and> same_header (read_st s1) (read_st s2)" by blast
  have run: "proxy_reads io parse (room # rooms) s = Some (out @ outs, s2)"
    using one(1) two(1) by simp
  show ?case
  proof (cases "settled (read_st s1)")
    case True
    then have "skip2 = []" "same_header (read_st s1) (read_st s2)" using two(5) by auto
    moreover from this(2) have "skipped_header skip (read_st s2)"
      using one(4) by (auto simp: skipped_header_def)
    moreover have "settled (read_st s) \<Longrightarrow> same_header (read_st s) (read_st s2)"
      using one(5) \<open>same_header (read_st s1) (read_st s2)\<close> by (cases "read_st s") auto
    ultimately show ?thesis
      using run one(3,5) two by (intro exI [of _ "out @ outs"] exI [of _ s2] exI [of _ skip]) auto
  next
    case False
    then have "skip = []" "out = []"
      using one(4,6) by (auto simp: skipped_header_def)
    then show ?thesis
      using run one two False by (intro exI [of _ "out @ outs"] exI [of _ s2] exI [of _ skip2]) auto
  qed
qed

lemma header_write_returns:
  assumes "ok x" "poll_write_header_once io ws x = None"
  shows "\<exists>b y y'. ok y \<and> b \<noteq> [] \<and> pi_write io b y = Some (Ready (Ok 0), y')"
proof (rule ccontr)
  assume no: "\<not> (\<exists>b y y'. ok y \<and> b \<noteq> [] \<and> pi_write io b y = Some (Ready (Ok 0), y'))"
  have "poll_write_header_once io ws x \<noteq> None"
    using assms(1)
  proof (induction "length (unwritten ws)" arbitrary: ws x rule: less_induct)
    case less
    show ?case
    proof (cases ws)
      case WsNone
      then show ?thesis by (subst poll_write_header_once.simps) simp
    next
      case (Writing buf)
      from write_returns [OF less.prems, of buf] obtain q x1 where
        q: "pi_write io buf x = Some (q, x1)" "ok x1" by blast
      show ?thesis
      proof (cases "\<exists>k. q = Ready (Ok k) \<and> drop k buf \<noteq> []")
        case True
        then obtain k where k: "q = Ready (Ok k)" "drop k buf \<noteq> []" by blast
        then have "k \<noteq> 0" using no q(1) less.prems by (metis drop_0)
        with k(2) have "length (unwritten (Writing (drop k buf))) < length (unwritten ws)"
          using Writing by simp
        note again = less.hyps [OF this q(2)]
        show ?thesis
          by (subst poll_write_header_once.simps) (use again q k Writing in simp)
      next
        case False
        show ?thesis
          by (cases rule: poll_result_cases [of q]; subst poll_write_header_once.simps)
            (use False q Writing in simp_all)
      qed
    qed
  qed
  with assms(2) show False by contradiction
qed

lemma proxy_write_post:
  assumes "ok (ps_inner s)" "proxy_poll_write io buf s = Some (r, s')"
  shows "ok (ps_inner s') \<and>
    outgoing (ps_inner s) @ unwritten (write_st s) @ accepted r buf = outgoing (ps_inner s') @ unwritten (write_st s') \<and>
    (write_st s = WsNone \<or> (\<exists>n. r = Ready (Ok n)) \<longrightarrow> write_st s' = WsNone)"
proof -
  from assms(2) obtain q ws x where
    h: "poll_write_header_once io (write_st s) (ps_inner s) = Some (q, ws, x)"
    by (auto simp: proxy_poll_write_def split: Option.bind_splits)
  note post = header_write_post [OF h assms(1)]
  have none: "write_st s = WsNone \<Longrightarrow> q = Ready (Ok ()) \<and> ws = WsNone"
    using h by (subst (asm) poll_write_header_once.simps) simp
  show ?thesis
  proof (cases rule: poll_result_cases [of q])
    case (ok u)
    from write_returns [of x buf] post obtain r' x' where
      "pi_write io buf x = Some (r', x')" "r' \<noteq> Panicked" "ok x'"
      "case r' of Ready (Inr k) \<Rightarrow> k \<le> length buf \<and> outgoing x' = outgoing x @ take k buf
       | _ \<Rightarrow> outgoing x' = outgoing x" by blast
    with assms(2) h ok post show ?thesis
      by (cases rule: poll_result_cases [of r']) (auto simp: proxy_poll_write_def)
  qed (use assms(2) h post none in \<open>auto simp: proxy_poll_write_def\<close>)
qed

lemma proxy_write_returns:
  assumes "ok (ps_inner s)" "proxy_poll_write io buf s = None"
  shows "\<exists>b y y'. ok y \<and> b \<noteq> [] \<and> pi_write io b y = Some (Ready (Ok 0), y')"
proof (cases "poll_write_header_once io (write_st s) (ps_inner s)")
  case None
  with header_write_returns [OF assms(1)] show ?thesis by blast
next
  case (Some p)
  obtain q ws x where p: "p = (q, ws, x)" by (metis surj_pair)
  from header_write_post [OF Some [unfolded p] assms(1)] write_returns [of x buf]
  have "\<exists>q x'. pi_write io buf x = Some (q, x')" by blast
  with assms(2) Some p show ?thesis
    by (cases rule: poll_result_cases [of q]) (auto simp: proxy_poll_write_def)
qed

lemma proxy_writes_post:
  assumes "ok (ps_inner s)"
  shows "case proxy_writes io bufs s of
      None \<Rightarrow> \<exists>b y y'. ok y \<and> b \<noteq> [] \<and> pi_write io b y = Some (Ready (Ok 0), y')
    | Some (acc, s') \<Rightarrow>
        outgoing (ps_inner s) @ unwritten (write_st s) @ acc = outgoing (ps_inner s') @ unwritten (write_st s') \<and>
        (write_st s = WsNone \<or> acc \<noteq> [] \<longrightarrow> write_st s' = WsNone)"
  using assms
proof (induction bufs arbitrary: s)
  case Nil
  then show ?case by simp
next
  case (Cons buf bufs)
  show ?case
  proof (cases "proxy_poll_write io buf s")
    case None
    with proxy_write_returns [OF Cons.prems] show ?thesis by simp
  next
    case (Some p)
    obtain r s1 where p: "p = (r, s1)" by fastforce
    note one = proxy_write_post [OF Cons.prems Some [unfolded p]]
    have acc: "accepted r buf \<noteq> [] \<Longrightarrow> write_st s1 = WsNone"
      using one by (cases rule: poll_result_cases [of r]) auto
    show ?thesis
    proof (cases "proxy_writes io bufs s1")
      case None
      with Cons.IH [of s1] one Some p show ?thesis by simp
    next
      case run: (Some res)
      obtain more s2 where res: "res = (more, s2)" by fastforce
      with Cons.IH [of s1] one run have two:
        "(outgoing (ps_inner s1) @ unwritten (write_st s1)) @ more = outgoing (ps_inner s2) @ unwritten (write_st s2)"
        "write_st s1 = WsNone \<or> more \<noteq> [] \<longrightarrow> write_st s2 = WsNone" by simp_all
      have "outgoing (ps_inner s) @ unwritten (write_st s) @ accepted r buf @ more =
          (outgoing (ps_inner s1) @ unwritten (write_st s1)) @ more"
        using one by (metis append.assoc)
      with two one acc Some p run res show ?thesis by (auto simp del: append_assoc)
    qed
  qed
qed

end

section \<open>A muxado stream can be wrapped\<close>

definition mux_poll_io :: "(frame, 'c) mpsc \<Rightarrow> waker \<Rightarrow> (mux_stream \<times> 'c heap) poll_io" where
  "mux_poll_io M w = \<lparr>
     pi_read = (\<lambda>n (s, h). map_option (\<lambda>(r, out, s', h'). (r, out, (s', h'))) (poll_read M w n s h)),
     pi_write = (\<lambda>buf (s, h). map_option (\<lambda>(r, s', h'). (r, (s', h'))) (poll_write M w buf s h)),
     pi_flush = (\<lambda>(s, h). case stream_poll_flush M w s h of (r, s', h') \<Rightarrow> (r, (s', h'))),
     pi_shutdown = (\<lambda>(s, h). case poll_shutdown M w s h of (r, s', h') \<Rightarrow> (r, (s', h')))\<rparr>"

context frame_chan
begin

lemma mux_poll_read:
  assumes "mux_ok x"
  shows "\<exists>r bs x'. pi_read (mux_poll_io M w) n x = Some (r, bs, x') \<and> r \<noteq> Panicked \<and>
    length bs \<le> n \<and> mux_in x = bs @ mux_in x' \<and> mux_ok x'"
proof -
  obtain s h where x: "x = (s, h)" by fastforce
  have ok: "snd_sink (st_fout s) \<noteq> st_fin s" "\<forall>f \<in> set (queue h (st_fin s)). stream_frame f"
      "length (read_buf s @ data_of (queue h (st_fin s))) < 2 ^ 32"
    using assms by (simp_all add: mux_ok_def x)
  from read_post [OF ok, of w n] obtain used r bs s' h' where
    q: "poll_read M w n s h = Some (r, bs, s', h')" "r \<noteq> Panicked"
      "queue h (st_fin s) = used @ queue h' (st_fin s)" "read_buf s @ data_of used = bs @ read_buf s'"
      "length bs \<le> n" "st_fin s' = st_fin s" "st_fout s' = st_fout s"
    unfolding read_spec_def by auto
  have "read_buf s @ data_of (queue h (st_fin s)) = bs @ read_buf s' @ data_of (queue h' (st_fin s))"
    using q(3,4) by (metis append_assoc data_of_simps(3))
  moreover from arg_cong [OF this, of length]
  have "length (read_buf s' @ data_of (queue h' (st_fin s))) \<le> length (read_buf s @ data_of (queue h (st_fin s)))"
    by simp
  ultimately show ?thesis using ok q
    by (auto simp: mux_ok_def mux_in_def x mux_poll_io_def simp del: stream_frame.simps)
qed

lemma mux_poll_write:
  assumes "mux_ok x"
  shows "\<exists>q x'. pi_write (mux_poll_io M w) buf x = Some (q, x') \<and> q \<noteq> Panicked \<and> mux_ok x' \<and>
    (case q of Ready (Inr k) \<Rightarrow> k \<le> length buf \<and> mux_out x' = mux_out x @ take k buf
     | _ \<Rightarrow> mux_out x' = mux_out x)"
proof -
  obtain s h where x: "x = (s, h)" by fastforce
  have ok: "snd_sink (st_fout s) \<noteq> st_fin s" "\<forall>f \<in> set (queue h (st_fin s)). stream_frame f"
      "length (read_buf s @ data_of (queue h (st_fin s))) < 2 ^ 32"
    using assms by (simp_all add: mux_ok_def x)
  show ?thesis
  proof (cases "write_closed s")
    case (Some code)
    with assms show ?thesis
      by (simp add: x mux_poll_io_def poll_write_def)
  next
    case None
    from write_post [OF None ok(1,2), of w buf] obtain r s' h' used where
      q: "poll_write M w buf s h = Some (r, s', h')"
        "queue h (st_fin s) = used @ queue h' (st_fin s)" "read_buf s' = read_buf s @ data_of used"
        "st_fin s' = st_fin s" "st_fout s' = st_fout s" and
      r: "case r of
       Ready (Inr n) \<Rightarrow> n = write_len (window_after used (st_window s)) buf \<and> \<not> needs_syn s' \<and>
         write_closed s' = None \<and> st_window s' = snd (window_dec n (window_after used (st_window s))) \<and>
         queue h' (snd_sink (st_fout s)) = queue h (snd_sink (st_fout s)) @ [data_frame (needs_syn s) (take n buf)]
     | Ready (Inl e) \<Rightarrow> queue h' (snd_sink (st_fout s)) = queue h (snd_sink (st_fout s)) \<and>
         st_window s' = window_after used (st_window s) \<and>
         (\<exists>code. e = IoError ConnectionReset (SrcMux code) \<and> write_closed s' = Some code)
     | Pending \<Rightarrow> queue h' (snd_sink (st_fout s)) = queue h (snd_sink (st_fout s)) \<and> needs_syn s' = needs_syn s \<and>
         st_window s' = window_after used (st_window s) \<and> write_closed s' = None
     | Panicked \<Rightarrow> False" by blast
    have ok': "mux_ok (s', h')"
      using ok q by (auto simp: mux_ok_def simp del: stream_frame.simps)
    note b = write_len_bounds [of "window_after used (st_window s)" buf]
    from q(1,5) r ok' b frame_data_prefix [OF b(3), of "needs_syn s" buf] show ?thesis
      by (cases rule: poll_result_cases [of r])
        (auto simp: mux_out_def x mux_poll_io_def simp del: stream_frame.simps frame_data.simps)
  qed
qed

sublocale muxp: poll_stream "mux_poll_io M w" mux_ok mux_in mux_out for w
  by unfold_locales (rule mux_poll_read mux_poll_write, assumption)+

lemmas mux_poll_stream = muxp.poll_stream_axioms

end

section \<open>Properties\<close>


definition demo_parser :: "(unit, unit) parser" where
  "demo_parser bs = Some (Err NotProxyHeader)"

lemma demo_parser_ok: "header_parser demo_parser"
  by (simp add: header_parser_def demo_parser_def)


text \<open>
  C39. An incoming stream whose first read fills the whole buffer with 536 bytes that
  end in a carriage return is never read: the loop neither reads nor parses any more,
  and the poll does not return.
\<close>

theorem carriage_return_spins_forever:
  fixes parse :: "('e, 'h) parser"
  assumes "pi_read io MAX_HEADER_LEN x = Some (Ready (Ok ()), bs, y)"
    "length bs = MAX_HEADER_LEN" "last bs = 13"
  shows "proxy_poll_read io parse room (proxy_incoming x) = None"
proof -
  have stuck: "header_round io parse e bs z = Some (Continue (Reading e bs) z)" for e z
    using assms(2,3) by (auto simp: header_round_def parse_buf_def MAX_HEADER_LEN_def)
  have spin: "poll_read_header_once io parse (Reading e bs) z \<noteq> Some res" for e z res
  proof
    assume eq: "poll_read_header_once io parse (Reading e bs) z = Some res"
    let ?P = "\<lambda>i p st z res. i = io \<longrightarrow> p = parse \<longrightarrow> st \<noteq> (Reading e bs :: ('e, 'h) read_state)"
    have "?P io parse (Reading e bs) z res"
    proof (rule poll_read_header_once.raw_induct
        [where P = ?P and xa = "(((io, parse), Reading e bs), z)", unfolded prod.case, OF _ eq])
      fix f i p st z res
      assume ih: "\<And>i p st z res. f i p st z = Some res \<Longrightarrow> ?P i p st z res"
        and one: "(case st of
          Reading last_err hdr_buf \<Rightarrow>
            (case header_round i p last_err hdr_buf z of
               None \<Rightarrow> None
             | Some (Return r st' x') \<Rightarrow> Some (r, st', x')
             | Some (Continue st' x') \<Rightarrow> f i p st' x')
        | _ \<Rightarrow> Some (Ready (Ok ()), st, z)) = Some res"
      show "?P i p st z res"
        using one ih [of io parse "Reading e bs" z res] by (auto simp: stuck)
    qed
    then show False by simp
  qed
  have bs: "bs \<noteq> []"
    using assms(2) by (auto simp: MAX_HEADER_LEN_def)
  have "header_round io parse None [] x = Some (Continue (Reading None bs) y)"
    using assms bs by (simp add: header_round_def parse_buf_def MAX_HEADER_LEN_def)
  then have "poll_read_header_once io parse (Reading None []) x = poll_read_header_once io parse (Reading None bs) y"
    by (subst poll_read_header_once.simps) simp
  with spin have "poll_read_header_once io parse (Reading None []) x = None"
    by (metis not_Some_eq)
  then show ?thesis
    by (simp add: proxy_poll_read_def proxy_incoming_def read_state_new_def)
qed

theorem carriage_return_spins_forever_witness:
  "proxy_poll_read (mux_poll_io bounded_mpsc 0) demo_parser 1
    (proxy_incoming (demo_stream\<lparr>read_buf := replicate 535 0 @ [13]\<rparr>, demo_heap)) = None"
proof -
  let ?s = "demo_stream\<lparr>read_buf := replicate 535 0 @ [13]\<rparr>"
  have "\<exists>h. poll_send_wndinc bounded_mpsc 0 (WndInc_clamp (as_u32 536)) ?s demo_heap = (Ready (), h)"
    by (simp add: poll_send_wndinc_def sender_poll_ready_def sender_start_send_def check_closed_def demo_stream_def
        stream_new_def demo_heap_def bounded_mpsc_def on_chan_def Let_def)
  then obtain h where ps: "poll_send_wndinc bounded_mpsc 0 (WndInc_clamp (as_u32 536)) ?s demo_heap = (Ready (), h)" by blast
  have n: "unat (WndInc_clamp (as_u32 536)) = 536"
    by (simp add: WndInc_clamp_def clamp_def as_u32_def WNDINC_MAX_def)
  have "poll_read bounded_mpsc 0 536 ?s demo_heap =
      Some (Ready (Ok ()), replicate 535 0 @ [13], ?s\<lparr>read_buf := []\<rparr>, h)"
    by (subst poll_read.simps) (simp add: ps n Let_def)
  then have "pi_read (mux_poll_io bounded_mpsc 0) MAX_HEADER_LEN (?s, demo_heap) =
      Some (Ready (Ok ()), replicate 535 0 @ [13], (?s\<lparr>read_buf := []\<rparr>, h))"
    by (simp add: mux_poll_io_def MAX_HEADER_LEN_def)
  from carriage_return_spins_forever [OF this] show ?thesis by (simp add: MAX_HEADER_LEN_def)
qed

text \<open>
  C28. An outgoing stream sends the encoded header first and once: whatever its polls
  accept is sent behind the whole header, and a poll accepts bytes only when the header
  is out. The polls return unless the wrapped stream reports a write of nothing.
\<close>

theorem proxy_header_sent_first:
  assumes "poll_stream io ok incoming outgoing" "ok x" "encode hdr = Ok hb" "proxy_outgoing encode x hdr = Ok s"
  shows "case proxy_writes io bufs s of
      Some (acc, s') \<Rightarrow> outgoing x @ hb @ acc = outgoing (ps_inner s') @ unwritten (write_st s') \<and>
        (acc \<noteq> [] \<longrightarrow> write_st s' = WsNone)
    | None \<Rightarrow> \<exists>b y y'. ok y \<and> b \<noteq> [] \<and> pi_write io b y = Some (Ready (Ok 0), y')"
proof -
  have s: "ps_inner s = x" "write_st s = Writing hb"
    using assms(3,4) by (auto simp: proxy_outgoing_def write_state_new_def)
  from poll_stream.proxy_writes_post [OF assms(1), of s bufs] assms(2) s show ?thesis
    by (auto split: option.splits)
qed

definition demo_outgoing :: "(unit, unit, mux_stream \<times> frame bounded_chan heap) proxy_stream" where
  "demo_outgoing = \<lparr>read_st = RsNone, write_st = Writing [80, 82], ps_inner = (demo_stream, demo_heap)\<rparr>"

theorem proxy_header_sent_first_witness:
  "case proxy_writes (mux_poll_io bounded_mpsc 0) [[7, 8]] demo_outgoing of
      Some (acc, s') \<Rightarrow> [80, 82] @ acc = bounded_frames.mux_out (ps_inner s') @ unwritten (write_st s')
    | None \<Rightarrow> \<exists>b y y'. b \<noteq> [] \<and> pi_write (mux_poll_io bounded_mpsc 0) b y = Some (Ready (Ok 0), y')"
proof -
  have o: "bounded_frames.mux_out (demo_stream, demo_heap) = []" and ok: "bounded_frames.mux_ok (demo_stream, demo_heap)"
    by (simp_all add: bounded_frames.mux_out_def bounded_frames.mux_ok_def demo_facts)
  have "proxy_outgoing (\<lambda>_. Ok [80, 82]) (demo_stream, demo_heap) () =
      Ok demo_outgoing"
    by (simp add: demo_outgoing_def proxy_outgoing_def write_state_new_def)
  note sent = proxy_header_sent_first [OF bounded_frames.mux_poll_stream ok refl this, of 0 "[[7, 8]]"]
  show ?thesis
  proof (cases "proxy_writes (mux_poll_io bounded_mpsc 0) [[7, 8]] demo_outgoing")
    case None
    with sent show ?thesis by (simp only: option.case) blast
  next
    case (Some p)
    with sent show ?thesis by (cases p) (simp only: option.case prod.case o append_Nil simp_thms)
  qed
qed

text \<open>
  A disabled stream is the wrapped stream: its reads, writes, flushes and shutdowns
  are those of the stream inside, with the same results.
\<close>

theorem proxy_disabled_is_transparent:
  "proxy_poll_read io parse room (proxy_disabled x :: ('e, 'h, 'x) proxy_stream) =
     map_option (\<lambda>(r, bs, y). (r, bs, proxy_disabled y)) (pi_read io room x) \<and>
   proxy_poll_write io buf (proxy_disabled x :: ('e, 'h, 'x) proxy_stream) =
     map_option (\<lambda>(r, y). (r, proxy_disabled y)) (pi_write io buf x) \<and>
   proxy_poll_flush io (proxy_disabled x :: ('e, 'h, 'x) proxy_stream) =
     (case pi_flush io x of (r, y) \<Rightarrow> (r, proxy_disabled y)) \<and>
   proxy_poll_shutdown io (proxy_disabled x :: ('e, 'h, 'x) proxy_stream) =
     (case pi_shutdown io x of (r, y) \<Rightarrow> (r, proxy_disabled y)) \<and>
   proxy_header_poll io parse (proxy_disabled x :: ('e, 'h, 'x) proxy_stream) =
     Some (Ready (Ok (Ok None)), proxy_disabled x)"
proof -
  have w: "poll_write_header_once io WsNone x = Some (Ready (Ok ()), WsNone, x)"
    by (subst poll_write_header_once.simps) simp
  show ?thesis
    by (simp add: proxy_disabled_def proxy_poll_read_def proxy_poll_write_def proxy_poll_flush_def
        proxy_poll_shutdown_def proxy_header_poll_def w split: prod.splits)
qed


end
