(* ===== verification/Rust_Text.thy ===== *)
theory Rust_Text
  imports Prelude
begin

text \<open>
  Strings of the \<open>ngrok\<close> crate and the operations of the standard library that the
  crate applies to them. A string is the list of its Unicode scalar values. The case
  mappings of Unicode are a parameter where the code uses them; the code relies on them
  for ASCII only. \<open>async\<close> is the result of awaiting: \<open>None\<close> when the operation
  never completes, or a value, or a panic.
\<close>

section \<open>Strings\<close>

type_synonym rstring = "nat list"

definition str :: "string \<Rightarrow> rstring" where
  "str = map of_char"

text \<open>\<open>str::lines\<close>: a line ends at a line feed, and a carriage return right before it is dropped.\<close>

definition strip_cr :: "rstring \<Rightarrow> rstring" where
  "strip_cr l = (if l \<noteq> [] \<and> last l = 13 then butlast l else l)"

fun lines_from :: "rstring \<Rightarrow> rstring \<Rightarrow> rstring list" where
  "lines_from cur [] = (if cur = [] then [] else [cur])"
| "lines_from cur (c # cs) =
     (if c = 10 then strip_cr cur # lines_from [] cs else lines_from (cur @ [c]) cs)"

definition str_lines :: "rstring \<Rightarrow> rstring list" where
  "str_lines s = lines_from [] s"

text \<open>\<open>char::is_whitespace\<close>, the property \<open>White_Space\<close>, and \<open>str::trim\<close>.\<close>

definition white_space :: "nat \<Rightarrow> bool" where
  "white_space c \<longleftrightarrow> 9 \<le> c \<and> c \<le> 13 \<or> c = 32 \<or> c = 0x85 \<or> c = 0xA0 \<or> c = 0x1680 \<or>
     0x2000 \<le> c \<and> c \<le> 0x200A \<or> c = 0x2028 \<or> c = 0x2029 \<or> c = 0x202F \<or> c = 0x205F \<or> c = 0x3000"

definition str_trim :: "rstring \<Rightarrow> rstring" where
  "str_trim s = rev (dropWhile white_space (rev (dropWhile white_space s)))"

definition starts_with :: "rstring \<Rightarrow> rstring \<Rightarrow> bool" where
  "starts_with p s \<longleftrightarrow> take (length p) s = p"

text \<open>\<open>[String]::join\<close>.\<close>

fun join :: "rstring \<Rightarrow> rstring list \<Rightarrow> rstring" where
  "join sep [] = []"
| "join sep [l] = l"
| "join sep (l # m # ls) = l @ sep @ join sep (m # ls)"

text \<open>\<open>Display\<close> of an unsigned number.\<close>

fun decimal :: "nat \<Rightarrow> rstring" where
  "decimal n = (if n < 10 then [] else decimal (n div 10)) @ [48 + n mod 10]"

declare decimal.simps [simp del]

text \<open>
  The Unicode case mappings agree with ASCII on ASCII letters and map every other ASCII
  character to itself.
\<close>

definition ascii :: "rstring \<Rightarrow> bool" where
  "ascii s \<longleftrightarrow> (\<forall>c \<in> set s. c < 128)"

definition ascii_lower :: "nat \<Rightarrow> nat" where
  "ascii_lower c = (if 65 \<le> c \<and> c \<le> 90 then c + 32 else c)"

definition ascii_upper :: "nat \<Rightarrow> nat" where
  "ascii_upper c = (if 97 \<le> c \<and> c \<le> 122 then c - 32 else c)"

definition lowercase :: "(rstring \<Rightarrow> rstring) \<Rightarrow> bool" where
  "lowercase lc \<longleftrightarrow> (\<forall>s. ascii s \<longrightarrow> lc s = map ascii_lower s)"

definition uppercase :: "(rstring \<Rightarrow> rstring) \<Rightarrow> bool" where
  "uppercase uc \<longleftrightarrow> (\<forall>s. ascii s \<longrightarrow> uc s = map ascii_upper s)"

section \<open>Awaiting\<close>

datatype 'a ran = Value 'a | Panic

type_synonym 'a async = "'a ran option"

fun and_await :: "'a async \<Rightarrow> ('a \<Rightarrow> 'b async) \<Rightarrow> 'b async" where
  "and_await None f = None"
| "and_await (Some Panic) f = Some Panic"
| "and_await (Some (Value a)) f = f a"

abbreviation ready :: "'a \<Rightarrow> 'a async" where
  "ready a \<equiv> Some (Value a)"

definition awaiting :: "'a option \<Rightarrow> 'a async" where
  "awaiting = map_option Value"

lemma awaiting_simps [simp]: "awaiting None = None" "awaiting (Some a) = ready a"
  by (simp_all add: awaiting_def)

lemma and_await_Value_iff [simp]:
  "and_await m f = Some (Value b) \<longleftrightarrow> (\<exists>a. m = Some (Value a) \<and> f a = Some (Value b))"
  by (cases "(m, f)" rule: and_await.cases) auto

lemma and_await_None_iff:
  "and_await m f = None \<longleftrightarrow> m = None \<or> (\<exists>a. m = Some (Value a) \<and> f a = None)"
  by (cases "(m, f)" rule: and_await.cases) auto

lemma and_await_Panic_iff:
  "and_await m f = Some Panic \<longleftrightarrow> m = Some Panic \<or> (\<exists>a. m = Some (Value a) \<and> f a = Some Panic)"
  by (cases "(m, f)" rule: and_await.cases) auto

section \<open>Lines\<close>

definition no_newline :: "rstring \<Rightarrow> bool" where
  "no_newline l \<longleftrightarrow> 10 \<notin> set l"

lemma strip_cr_id [simp]: "13 \<notin> set l \<Longrightarrow> strip_cr l = l"
  by (auto simp: strip_cr_def dest: last_in_set)

lemma set_strip_cr: "set (strip_cr l) \<subseteq> set l"
  by (auto simp: strip_cr_def dest: in_set_butlastD)

lemma lines_from_no_newline:
  "no_newline cur \<Longrightarrow> l \<in> set (lines_from cur s) \<Longrightarrow> no_newline l"
  using set_strip_cr
  by (induction cur s rule: lines_from.induct) (auto simp: no_newline_def split: if_splits)

lemma lines_from_no_cr:
  "13 \<notin> set cur \<Longrightarrow> 13 \<notin> set s \<Longrightarrow> l \<in> set (lines_from cur s) \<Longrightarrow> 13 \<notin> set l"
  by (induction cur s rule: lines_from.induct) (auto split: if_splits)

lemma lines_from_append:
  "no_newline l \<Longrightarrow> lines_from cur (l @ s) = lines_from (cur @ l) s"
  by (induction l arbitrary: cur) (auto simp: no_newline_def)

lemma lines_join:
  "\<forall>l \<in> set ls. no_newline l \<and> 13 \<notin> set l \<and> l \<noteq> [] \<Longrightarrow> str_lines (join [10] ls) = ls"
proof (induction ls rule: induct_list012)
  case 1
  then show ?case by (simp add: str_lines_def)
next
  case (2 l)
  then show ?case
    using lines_from_append [of l "[]" "[]"] by (simp add: str_lines_def)
next
  case (3 l m ls)
  then show ?case
    using lines_from_append [of l "[]" "10 # join [10] (m # ls)"] by (simp add: str_lines_def)
qed

end
