(* ===== verification/Utf8.thy ===== *)
theory Utf8
  imports Rust_Text
begin

text \<open>
  \<open>String::as_bytes\<close> and \<open>String::from_utf8\<close> of the standard library: the UTF-8
  encoding of a string, and the decoding that refuses overlong forms, surrogates,
  values above \<open>0x10FFFF\<close> and truncated or stray continuation bytes.
\<close>

definition scalar :: "nat \<Rightarrow> bool" where
  "scalar c \<longleftrightarrow> c < 0xD800 \<or> 0xDFFF < c \<and> c < 0x110000"

definition utf8_char :: "nat \<Rightarrow> nat list" where
  "utf8_char c =
     (if c < 0x80 then [c]
      else if c < 0x800 then [0xC0 + c div 64, 0x80 + c mod 64]
      else if c < 0x10000 then [0xE0 + c div 4096, 0x80 + c div 64 mod 64, 0x80 + c mod 64]
      else [0xF0 + c div 262144, 0x80 + c div 4096 mod 64, 0x80 + c div 64 mod 64, 0x80 + c mod 64])"

definition as_bytes :: "rstring \<Rightarrow> bytes" where
  "as_bytes s = map word_of_nat (concat (map utf8_char s))"

definition cont :: "nat \<Rightarrow> bool" where
  "cont b \<longleftrightarrow> 0x80 \<le> b \<and> b < 0xC0"

text \<open>The first character and what is behind it.\<close>

definition next_char :: "nat list \<Rightarrow> (nat \<times> nat list) option" where
  "next_char bs = (case bs of
     [] \<Rightarrow> None
   | a # bs1 \<Rightarrow>
     if a < 0x80 then Some (a, bs1)
     else case bs1 of
       [] \<Rightarrow> None
     | b # bs2 \<Rightarrow>
       if \<not> cont b then None
       else if 0xC2 \<le> a \<and> a < 0xE0 then Some ((a - 0xC0) * 64 + (b - 0x80), bs2)
       else case bs2 of
         [] \<Rightarrow> None
       | c # bs3 \<Rightarrow>
         if \<not> cont c then None
         else if 0xE0 \<le> a \<and> a < 0xF0 then
           let v = (a - 0xE0) * 4096 + (b - 0x80) * 64 + (c - 0x80) in
           if 0x800 \<le> v \<and> scalar v then Some (v, bs3) else None
         else case bs3 of
           [] \<Rightarrow> None
         | d # bs4 \<Rightarrow>
           if cont d \<and> 0xF0 \<le> a \<and> a < 0xF5 then
             let v = (a - 0xF0) * 262144 + (b - 0x80) * 4096 + (c - 0x80) * 64 + (d - 0x80) in
             if 0x10000 \<le> v \<and> scalar v then Some (v, bs4) else None
           else None)"

lemma next_char_shorter: "next_char bs = Some (c, rest) \<Longrightarrow> length rest < length bs"
  by (auto simp: next_char_def Let_def split: list.splits if_splits)

function utf8_decode :: "nat list \<Rightarrow> rstring option" where
  "utf8_decode bs =
     (if bs = [] then Some []
      else case next_char bs of
        None \<Rightarrow> None
      | Some (c, rest) \<Rightarrow> map_option (Cons c) (utf8_decode rest))"
  by pat_completeness auto
termination
  by (relation "measure length") (auto dest: next_char_shorter)

declare utf8_decode.simps [simp del]

definition from_utf8 :: "bytes \<Rightarrow> rstring option" where
  "from_utf8 bs = utf8_decode (map unat bs)"

section \<open>The round trip\<close>

lemma div_64: "c div 4096 = c div 64 div (64 :: nat)" "c div 262144 = c div 64 div 64 div (64 :: nat)"
  by (simp_all add: div_mult2_eq [symmetric])

lemma cont_add: "cont (128 + n) \<longleftrightarrow> n < 64" for n
  by (simp add: cont_def)

lemma next_char_encode:
  assumes "scalar c"
  shows "next_char (utf8_char c @ rest) = Some (c, rest)"
proof -
  define q where "q = c div 64"
  define r where "r = q div 64"
  have c: "c = q * 64 + c mod 64" and q: "q = r * 64 + q mod 64" and r: "r = r div 64 * 64 + r mod 64"
    by (simp_all add: q_def r_def)
  have d: "c div 4096 = r" "c div 262144 = r div 64"
    by (simp_all add: q_def r_def div_mult2_eq [symmetric])
  consider "c < 0x80" | "0x80 \<le> c" "c < 0x800" | "0x800 \<le> c" "c < 0x10000" | "0x10000 \<le> c" by linarith
  then show ?thesis
  proof cases
    case 1
    then show ?thesis by (simp add: utf8_char_def next_char_def)
  next
    case 2
    then have "2 \<le> q" "q < 32" by (simp_all add: q_def)
    with 2 c show ?thesis
      by (simp add: utf8_char_def next_char_def cont_add q_def [symmetric])
  next
    case 3
    then have "r < 16" by (simp add: q_def r_def div_mult2_eq [symmetric])
    moreover have "r * 4096 + q mod 64 * 64 + c mod 64 = c" using c q by linarith
    ultimately show ?thesis
      using 3 assms by (simp add: utf8_char_def next_char_def cont_add d q_def [symmetric])
  next
    case 4
    have "r div 64 < 5"
      using 4 assms by (simp add: q_def r_def div_mult2_eq [symmetric] scalar_def)
    moreover have "r div 64 * 262144 + r mod 64 * 4096 + q mod 64 * 64 + c mod 64 = c" using c q r by linarith
    ultimately show ?thesis
      using 4 assms by (simp add: utf8_char_def next_char_def cont_add d q_def [symmetric])
  qed
qed

lemma utf8_char_byte: "scalar c \<Longrightarrow> b \<in> set (utf8_char c) \<Longrightarrow> b < 256"
  by (auto simp: utf8_char_def scalar_def split: if_splits)

lemma utf8_char_nonempty: "utf8_char c \<noteq> []"
  by (simp add: utf8_char_def)

lemma utf8_decode_encode:
  "\<forall>c \<in> set s. scalar c \<Longrightarrow> utf8_decode (concat (map utf8_char s)) = Some s"
proof (induction s)
  case Nil
  then show ?case by (simp add: utf8_decode.simps)
next
  case (Cons c s)
  then show ?case
    by (subst utf8_decode.simps) (simp add: next_char_encode utf8_char_nonempty)
qed

lemma from_utf8_as_bytes: "\<forall>c \<in> set s. scalar c \<Longrightarrow> from_utf8 (as_bytes s) = Some s"
proof -
  assume s: "\<forall>c \<in> set s. scalar c"
  then have "map (unat \<circ> (word_of_nat :: nat \<Rightarrow> 8 word)) (concat (map utf8_char s)) = concat (map utf8_char s)"
    by (intro map_idI) (auto simp: unat_of_nat dest!: utf8_char_byte)
  with s show ?thesis
    by (simp add: from_utf8_def as_bytes_def utf8_decode_encode)
qed

end
