(* ===== verification/Proto.thy ===== *)
theory Proto
  imports Utf8 Typed_Stream
begin

text \<open>
  \<open>ngrok/src/internals/proto.rs\<close>: the messages of the tunneling protocol. A message is
  a record with the fields of its struct; the JSON text of a message, which
  \<open>serde\<close> derives, and base64 are parameters. An \<open>i64\<close> is a 64-bit word read as
  signed, an \<open>f64\<close> its bit pattern.
\<close>

type_synonym i64 = "64 word"
type_synonym f64 = "64 word"
type_synonym json_error = rstring

section \<open>Stream types\<close>

definition AUTH_REQ :: u32 where "AUTH_REQ = StreamType_clamp 0"
definition BIND_REQ :: u32 where "BIND_REQ = StreamType_clamp 1"
definition UNBIND_REQ :: u32 where "UNBIND_REQ = StreamType_clamp 2"
definition PROXY_REQ :: u32 where "PROXY_REQ = StreamType_clamp 3"
definition RESTART_REQ :: u32 where "RESTART_REQ = StreamType_clamp 4"
definition STOP_REQ :: u32 where "STOP_REQ = StreamType_clamp 5"
definition UPDATE_REQ :: u32 where "UPDATE_REQ = StreamType_clamp 6"
definition BIND_LABELED_REQ :: u32 where "BIND_LABELED_REQ = StreamType_clamp 7"
definition STOP_TUNNEL_REQ :: u32 where "STOP_TUNNEL_REQ = StreamType_clamp 9"

lemmas req_types = AUTH_REQ_def BIND_REQ_def UNBIND_REQ_def PROXY_REQ_def RESTART_REQ_def STOP_REQ_def
  UPDATE_REQ_def BIND_LABELED_REQ_def STOP_TUNNEL_REQ_def

definition PROTO_VERSION :: "rstring list" where
  "PROTO_VERSION = [str ''3'', str ''2'']"

section \<open>Error responses\<close>

record err_resp =
  er_msg :: rstring
  er_code :: "rstring option"

definition ERR_PREFIX :: rstring where
  "ERR_PREFIX = str ''ERR_NGROK_''"

fun err_line :: "rstring \<Rightarrow> rstring option \<times> rstring list \<Rightarrow> rstring option \<times> rstring list" where
  "err_line line (error_code, msg_lines) =
     (if starts_with ERR_PREFIX line then (Some (str_trim line), msg_lines)
      else (error_code, msg_lines @ [line]))"

definition err_resp_from :: "rstring \<Rightarrow> err_resp" where
  "err_resp_from v =
     (case fold err_line (filter (\<lambda>l. l \<noteq> []) (str_lines v)) (None, []) of
        (error_code, msg_lines) \<Rightarrow> \<lparr>er_msg = join [10] msg_lines, er_code = error_code\<rparr>)"

definition ERR_URL :: rstring where
  "ERR_URL = str ''https://ngrok.com/docs/errors''"

definition err_resp_display :: "(rstring \<Rightarrow> rstring) \<Rightarrow> err_resp \<Rightarrow> rstring" where
  "err_resp_display lc r = er_msg r @
     (case map_option lc (er_code r) of None \<Rightarrow> [] | Some code \<Rightarrow> [10, 10] @ ERR_URL @ str ''/'' @ code)"

section \<open>Secrets\<close>

datatype secret_string = SecretString rstring

fun secret_deref :: "secret_string \<Rightarrow> rstring" where
  "secret_deref (SecretString s) = s"

definition secret_string_display :: "secret_string \<Rightarrow> rstring" where
  "secret_string_display s = str ''********''"

definition secret_string_debug :: "secret_string \<Rightarrow> rstring" where
  "secret_string_debug s = str ''********''"

definition secret_string_default :: secret_string where
  "secret_string_default = SecretString []"

datatype secret_bytes = SecretBytes bytes

fun secret_bytes_deref :: "secret_bytes \<Rightarrow> bytes" where
  "secret_bytes_deref (SecretBytes b) = b"

definition secret_bytes_display :: "secret_bytes \<Rightarrow> rstring" where
  "secret_bytes_display s = str ''********''"

definition secret_bytes_debug :: "secret_bytes \<Rightarrow> rstring" where
  "secret_bytes_debug s = str ''********''"

section \<open>Authentication\<close>

record auth_extra =
  ax_os :: rstring
  ax_arch :: rstring
  ax_auth_token :: secret_string
  ax_version :: rstring
  ax_hostname :: rstring
  ax_user_agent :: rstring
  ax_metadata :: rstring
  ax_cookie :: secret_string
  ax_heartbeat_interval :: i64
  ax_heartbeat_tolerance :: i64
  ax_update_unsupported_error :: "rstring option"
  ax_stop_unsupported_error :: "rstring option"
  ax_restart_unsupported_error :: "rstring option"
  ax_proxy_type :: rstring
  ax_mutual_tls :: bool
  ax_service_run :: bool
  ax_config_version :: rstring
  ax_custom_interface :: bool
  ax_custom_cas :: bool
  ax_client_type :: rstring

definition auth_extra_default :: auth_extra where
  "auth_extra_default = \<lparr>ax_os = [], ax_arch = [], ax_auth_token = secret_string_default, ax_version = [],
     ax_hostname = [], ax_user_agent = [], ax_metadata = [], ax_cookie = secret_string_default,
     ax_heartbeat_interval = 0, ax_heartbeat_tolerance = 0, ax_update_unsupported_error = None,
     ax_stop_unsupported_error = None, ax_restart_unsupported_error = None, ax_proxy_type = [],
     ax_mutual_tls = False, ax_service_run = False, ax_config_version = [], ax_custom_interface = False,
     ax_custom_cas = False, ax_client_type = []\<rparr>"

record auth =
  au_version :: "rstring list"
  au_client_id :: rstring
  au_extra :: auth_extra

record auth_resp_extra =
  rx_version :: "rstring option"
  rx_region :: "rstring option"
  rx_cookie :: "secret_string option"
  rx_account_name :: "rstring option"
  rx_session_duration :: "i64 option"
  rx_plan_name :: "rstring option"
  rx_banner :: "rstring option"

record auth_resp =
  ar_version :: rstring
  ar_client_id :: rstring
  ar_extra :: auth_resp_extra

section \<open>Edge types and PROXY protocol versions\<close>

datatype edge_type = EdgeUndefined | EdgeTcp | EdgeTls | EdgeHttps

definition edge_type_from_str :: "rstring \<Rightarrow> (unit, edge_type) result" where
  "edge_type_from_str s =
     Ok (if s = str ''1'' then EdgeTcp else if s = str ''2'' then EdgeTls
         else if s = str ''3'' then EdgeHttps else EdgeUndefined)"

fun edge_type_as_str :: "edge_type \<Rightarrow> rstring" where
  "edge_type_as_str EdgeUndefined = str ''0''"
| "edge_type_as_str EdgeTcp = str ''1''"
| "edge_type_as_str EdgeTls = str ''2''"
| "edge_type_as_str EdgeHttps = str ''3''"

definition edge_type_serialize :: "edge_type \<Rightarrow> rstring" where
  "edge_type_serialize t = edge_type_as_str t"

text \<open>The visitor unwraps the parsed value; \<open>None\<close> is its panic.\<close>

definition edge_type_visit_str :: "rstring \<Rightarrow> edge_type option" where
  "edge_type_visit_str v = (case edge_type_from_str v of Inl _ \<Rightarrow> None | Inr t \<Rightarrow> Some t)"

datatype proxy_proto = PpNone | PpV1 | PpV2

fun proxy_proto_to_i64 :: "proxy_proto \<Rightarrow> i64" where
  "proxy_proto_to_i64 PpNone = 0"
| "proxy_proto_to_i64 PpV1 = 1"
| "proxy_proto_to_i64 PpV2 = 2"

definition proxy_proto_from_i64 :: "i64 \<Rightarrow> proxy_proto" where
  "proxy_proto_from_i64 v = (if v = 1 then PpV1 else if v = 2 then PpV2 else PpNone)"

datatype invalid_proxy_proto = InvalidProxyProtoString rstring

definition proxy_proto_from_str :: "rstring \<Rightarrow> (invalid_proxy_proto, proxy_proto) result" where
  "proxy_proto_from_str s =
     (if s = [] then Ok PpNone else if s = str ''1'' then Ok PpV1 else if s = str ''2'' then Ok PpV2
      else Err (InvalidProxyProtoString s))"

definition proxy_proto_serialize :: "proxy_proto \<Rightarrow> i64" where
  "proxy_proto_serialize p = proxy_proto_to_i64 p"

definition proxy_proto_visit_i64 :: "i64 \<Rightarrow> proxy_proto" where
  "proxy_proto_visit_i64 v = proxy_proto_from_i64 v"

definition proxy_proto_visit_u64 :: "u64 \<Rightarrow> proxy_proto" where
  "proxy_proto_visit_u64 v = proxy_proto_from_i64 v"

section \<open>Endpoint options\<close>

definition is_default :: "'a \<Rightarrow> 'a \<Rightarrow> bool" where
  "is_default dflt v \<longleftrightarrow> dflt = v"

datatype compression = Compression

record circuit_breaker =
  cb_error_threshold :: f64

record basic_auth_credential =
  bc_username :: rstring
  bc_cleartext_password :: rstring
  bc_hashed_password :: bytes

record basic_auth =
  ba_credentials :: "basic_auth_credential list"

record ip_restriction =
  ir_allow_cidrs :: "rstring list"
  ir_deny_cidrs :: "rstring list"

record oauth =
  oa_provider :: rstring
  oa_client_id :: rstring
  oa_client_secret :: secret_string
  oa_sealed_client_secret :: bytes
  oa_allow_emails :: "rstring list"
  oa_allow_domains :: "rstring list"
  oa_scopes :: "rstring list"

record oidc =
  oi_issuer_url :: rstring
  oi_client_id :: rstring
  oi_client_secret :: secret_string
  oi_sealed_client_secret :: bytes
  oi_allow_emails :: "rstring list"
  oi_allow_domains :: "rstring list"
  oi_scopes :: "rstring list"

record webhook_verification_proto =
  wv_provider :: rstring
  wv_secret :: secret_string
  wv_sealed_secret :: bytes

record mutual_tls =
  mt_mutual_tls_ca :: bytes

record headers_proto =
  hp_add :: "rstring list"
  hp_remove :: "rstring list"
  hp_add_parsed :: "rstring \<rightharpoonup> rstring"

datatype websocket_tcp_converter = WebsocketTcpConverter

record user_agent_filter =
  uf_allow :: "rstring list"
  uf_deny :: "rstring list"

record action_proto =
  pa_type :: rstring
  pa_config :: bytes

record rule_proto =
  pr_name :: rstring
  pr_expressions :: "rstring list"
  pr_actions :: "action_proto list"

record policy_proto =
  pp_inbound :: "rule_proto list"
  pp_outbound :: "rule_proto list"

datatype policy_wrapper = PwPolicy policy_proto | PwString rstring

definition policy_wrapper_from_string :: "rstring \<Rightarrow> policy_wrapper" where
  "policy_wrapper_from_string v = PwString v"

record http_endpoint =
  he_domain :: rstring
  he_hostname :: rstring
  he_auth :: rstring
  he_subdomain :: rstring
  he_host_header_rewrite :: bool
  he_local_url_scheme :: "rstring option"
  he_proxy_proto :: proxy_proto
  he_compression :: "compression option"
  he_circuit_breaker :: "circuit_breaker option"
  he_ip_restriction :: "ip_restriction option"
  he_basic_auth :: "basic_auth option"
  he_oauth :: "oauth option"
  he_oidc :: "oidc option"
  he_webhook_verification :: "webhook_verification_proto option"
  he_mutual_tls_ca :: "mutual_tls option"
  he_request_headers :: "headers_proto option"
  he_response_headers :: "headers_proto option"
  he_websocket_tcp_converter :: "websocket_tcp_converter option"
  he_user_agent_filter :: "user_agent_filter option"
  he_traffic_policy :: "policy_wrapper option"

definition http_endpoint_default :: http_endpoint where
  "http_endpoint_default = \<lparr>he_domain = [], he_hostname = [], he_auth = [], he_subdomain = [],
     he_host_header_rewrite = False, he_local_url_scheme = None, he_proxy_proto = PpNone,
     he_compression = None, he_circuit_breaker = None, he_ip_restriction = None, he_basic_auth = None,
     he_oauth = None, he_oidc = None, he_webhook_verification = None, he_mutual_tls_ca = None,
     he_request_headers = None, he_response_headers = None, he_websocket_tcp_converter = None,
     he_user_agent_filter = None, he_traffic_policy = None\<rparr>"

record tcp_endpoint =
  te_addr :: rstring
  te_proxy_proto :: proxy_proto
  te_ip_restriction :: "ip_restriction option"
  te_traffic_policy :: "policy_wrapper option"

definition tcp_endpoint_default :: tcp_endpoint where
  "tcp_endpoint_default = \<lparr>te_addr = [], te_proxy_proto = PpNone, te_ip_restriction = None, te_traffic_policy = None\<rparr>"

record tls_termination =
  tt_cert :: bytes
  tt_key :: secret_bytes
  tt_sealed_key :: bytes

record tls_endpoint =
  tl_domain :: rstring
  tl_hostname :: rstring
  tl_subdomain :: rstring
  tl_proxy_proto :: proxy_proto
  tl_mutual_tls_at_agent :: bool
  tl_mutual_tls_at_edge :: "mutual_tls option"
  tl_tls_termination :: "tls_termination option"
  tl_ip_restriction :: "ip_restriction option"
  tl_traffic_policy :: "policy_wrapper option"

definition tls_endpoint_default :: tls_endpoint where
  "tls_endpoint_default = \<lparr>tl_domain = [], tl_hostname = [], tl_subdomain = [], tl_proxy_proto = PpNone,
     tl_mutual_tls_at_agent = False, tl_mutual_tls_at_edge = None, tl_tls_termination = None,
     tl_ip_restriction = None, tl_traffic_policy = None\<rparr>"

section \<open>Binding tunnels\<close>

datatype bind_opts = BoHttp http_endpoint | BoTcp tcp_endpoint | BoTls tls_endpoint

record bind_extra =
  be_token :: secret_string
  be_ip_policy_ref :: rstring
  be_metadata :: rstring
  be_bindings :: "rstring list"
  be_pooling_enabled :: bool

record 'o bind_req =
  bi_client_id :: rstring
  bi_proto :: rstring
  bi_forwards_to :: rstring
  bi_forwards_proto :: rstring
  bi_opts :: 'o
  bi_extra :: bind_extra

record 'o bind_resp =
  br_client_id :: rstring
  br_url :: rstring
  br_proto :: rstring
  br_bind_opts :: 'o
  br_extra_token :: secret_string

record start_tunnel_with_label =
  sl_labels :: "rstring \<rightharpoonup> rstring"
  sl_forwards_to :: rstring
  sl_forwards_proto :: rstring
  sl_metadata :: rstring

section \<open>Requests of the server\<close>

record proxy_header =
  ph_id :: rstring
  ph_client_addr :: rstring
  ph_proto :: rstring
  ph_edge_type :: edge_type
  ph_passthrough_tls :: bool

record update_req =
  up_version :: rstring
  up_permit_major_version :: bool

record stop_tunnel =
  sp_client_id :: rstring
  sp_message :: rstring
  sp_error_code :: "rstring option"

record command_resp =
  cr_error :: "rstring option"

datatype read_header_error = RhIo io_error | RhInvalidUtf8 | RhInvalidHeader json_error

text \<open>
  \<open>read_i64_le\<close> takes eight bytes, the least significant first. The buffer of
  \<open>vec![0u8; size as usize]\<close> is larger than any allocation may be, and the code
  panics, when the size is negative.
\<close>

definition i64_from_le_bytes :: "bytes \<Rightarrow> i64" where
  "i64_from_le_bytes bs = foldr (\<lambda>b acc. ucast b + 256 * acc) bs 0"

definition read_proxy_header ::
  "'x byte_io \<Rightarrow> (rstring \<Rightarrow> (json_error, proxy_header) result) \<Rightarrow> 'x
     \<Rightarrow> ((read_header_error, proxy_header) result \<times> 'x) async" where
  "read_proxy_header io parse stream =
     and_await (awaiting (read_exact io 8 stream)) (\<lambda>(r, x1).
       case r of
         Inl e \<Rightarrow> ready (Err (RhIo e), x1)
       | Inr b \<Rightarrow>
         if sint (i64_from_le_bytes b) < 0 then Some Panic
         else and_await (awaiting (read_exact io (unat (i64_from_le_bytes b)) x1)) (\<lambda>(r2, x2).
           case r2 of
             Inl e \<Rightarrow> ready (Err (RhIo e), x2)
           | Inr buf \<Rightarrow>
             (case from_utf8 buf of
                None \<Rightarrow> ready (Err RhInvalidUtf8, x2)
              | Some header \<Rightarrow>
                (case parse header of
                   Inl e \<Rightarrow> ready (Err (RhInvalidHeader e), x2)
                 | Inr h \<Rightarrow> ready (Ok h, x2)))))"

section \<open>Helpers of the derived serialization\<close>

definition serialize_policy :: "('p \<Rightarrow> (json_error, rstring) result) \<Rightarrow> 'p \<Rightarrow> (rstring, rstring) result" where
  "serialize_policy to_string v =
     (case to_string v of
        Inr t \<Rightarrow> Ok t
      | Inl _ \<Rightarrow> Err (str ''policy could not be converted to valid json''))"

definition vec_to_json_serialize :: "(bytes \<Rightarrow> (json_error, 'j) result) \<Rightarrow> bytes \<Rightarrow> (rstring, 'j) result" where
  "vec_to_json_serialize from_slice v =
     (case from_slice v of Inr k \<Rightarrow> Ok k | Inl _ \<Rightarrow> Err (str ''Config is invalid JSON''))"

definition base64_serialize :: "(bytes \<Rightarrow> rstring) \<Rightarrow> bytes \<Rightarrow> rstring" where
  "base64_serialize encode v = encode v"

definition base64_deserialize ::
  "(bytes \<Rightarrow> ('e, bytes) result) \<Rightarrow> ('d, rstring) result \<Rightarrow> ('d + 'e, bytes) result" where
  "base64_deserialize decode d =
     (case d of Inl e \<Rightarrow> Err (Inl e)
      | Inr s \<Rightarrow> (case decode (as_bytes s) of Inl e \<Rightarrow> Err (Inr e) | Inr b \<Rightarrow> Ok b))"

end
