(* ===== verification/Raw_Session.thy ===== *)
theory Raw_Session
  imports Proto
begin

text \<open>
  \<open>ngrok/src/internals/raw_session.rs\<close> and the trait of \<open>rpc.rs\<close>: the requests a client
  sends over streams of its own, and the streams the server opens. The typed session
  below, whose \<open>open_typed\<close>, \<open>close\<close> and \<open>accept_typed\<close> are boxed, and the JSON texts
  are parameters. The error types of \<open>session.rs\<close> and \<open>tunnel.rs\<close> are here because
  this file uses them.
\<close>

section \<open>Errors\<close>

datatype rpc_error =
    RpcOpen mux_error
  | RpcTransport mux_error
  | RpcSend io_error
  | RpcReceive io_error
  | RpcInvalidResponse json_error
  | RpcResponse err_resp

fun rpc_error_code :: "rpc_error \<Rightarrow> rstring option" where
  "rpc_error_code (RpcResponse resp) = er_code resp"
| "rpc_error_code _ = None"

fun rpc_error_display :: "(rstring \<Rightarrow> rstring) \<Rightarrow> rpc_error \<Rightarrow> rstring" where
  "rpc_error_display lc (RpcOpen _) = str ''failed to open muxado stream''"
| "rpc_error_display lc (RpcTransport _) = str ''transport error''"
| "rpc_error_display lc (RpcSend _) = str ''error sending rpc request''"
| "rpc_error_display lc (RpcReceive _) = str ''error reading rpc response''"
| "rpc_error_display lc (RpcInvalidResponse _) = str ''failed to deserialize rpc response''"
| "rpc_error_display lc (RpcResponse resp) = str ''rpc error response:'' @ [10] @ err_resp_display lc resp"

fun rpc_error_msg :: "(rstring \<Rightarrow> rstring) \<Rightarrow> rpc_error \<Rightarrow> rstring" where
  "rpc_error_msg lc (RpcResponse resp) = er_msg resp"
| "rpc_error_msg lc e = rpc_error_display lc e"

datatype raw_accept_error = RaTransport mux_error | RaHeader read_header_error | RaInvalidType u32

text \<open>\<open>ConnectError\<close> of \<open>session.rs\<close>; the source of a proxy error is any error, known by its text.\<close>

datatype connect_error =
    CeTcp io_error
  | CeTls io_error
  | CeStart io_error
  | CeAuth rpc_error
  | CeRebind rpc_error
  | CeProxyConnect rstring
  | CeCanceled

fun connect_error_code :: "connect_error \<Rightarrow> rstring option" where
  "connect_error_code (CeAuth resp) = rpc_error_code resp"
| "connect_error_code (CeRebind resp) = rpc_error_code resp"
| "connect_error_code _ = None"

fun connect_error_display :: "connect_error \<Rightarrow> rstring" where
  "connect_error_display (CeTcp _) = str ''failed to establish tcp connection''"
| "connect_error_display (CeTls _) = str ''tls handshake error''"
| "connect_error_display (CeStart _) = str ''failed to start ngrok session''"
| "connect_error_display (CeAuth _) = str ''authentication failure''"
| "connect_error_display (CeRebind _) = str ''error rebinding tunnel after reconnect''"
| "connect_error_display (CeProxyConnect _) = str ''failed to connect through proxy''"
| "connect_error_display CeCanceled = str ''the connect function gave up''"

fun connect_error_msg :: "(rstring \<Rightarrow> rstring) \<Rightarrow> connect_error \<Rightarrow> rstring" where
  "connect_error_msg lc (CeAuth resp) = rpc_error_msg lc resp"
| "connect_error_msg lc (CeRebind resp) = rpc_error_msg lc resp"
| "connect_error_msg lc e = connect_error_display e"

text \<open>\<open>AcceptError\<close> of \<open>tunnel.rs\<close>.\<close>

datatype accept_error =
    AeTransport mux_error
  | AeReconnect connect_error
  | AeListenerClosed rstring "rstring option"

section \<open>Remote procedure calls\<close>

text \<open>
  \<open>RpcRequest\<close>: the stream type of a request, its JSON text, and the parser of its response.
\<close>

record ('q, 'r) rpc_request =
  rq_type :: u32
  rq_to_json :: "'q \<Rightarrow> (json_error, rstring) result"
  rq_response :: "bytes \<Rightarrow> (json_error, 'r) result"

text \<open>\<open>AsyncReadExt::read_to_end\<close> of tokio: it reads until a read gives nothing.\<close>

partial_function (option) read_to_end ::
  "'x byte_io \<Rightarrow> bytes \<Rightarrow> 'x \<Rightarrow> ((io_error, bytes) result \<times> 'x) option" where
  "read_to_end io buf x =
     (case io_read io 32 x of
        None \<Rightarrow> None
      | Some (Inl e, x') \<Rightarrow> Some (Err e, x')
      | Some (Inr bs, x') \<Rightarrow> if bs = [] then Some (Ok buf, x') else read_to_end io (buf @ bs) x')"

text \<open>
  What a client calls: the open and close of the boxed session, the reads and writes of
  a stream, the drop of a stream that goes out of scope, and the parser of the object
  with the field \<open>Error\<close>.
\<close>

record ('c, 'x) rpc_env =
  ce_open :: "u32 \<Rightarrow> 'c \<Rightarrow> ((mux_error, 'x typed_stream) result \<times> 'c) option"
  ce_close :: "mux_error \<Rightarrow> bytes \<Rightarrow> 'c \<Rightarrow> ((mux_error, unit) result \<times> 'c) option"
  ce_io :: "'x byte_io"
  ce_drop :: "'x \<Rightarrow> 'c \<Rightarrow> 'c"
  ce_error_field :: "bytes \<Rightarrow> (json_error, rstring) result"

definition rpc_decode ::
  "('c, 'x) rpc_env \<Rightarrow> ('q, 'r) rpc_request \<Rightarrow> bytes \<Rightarrow> (rpc_error, 'r) result" where
  "rpc_decode E R buf =
     (let ok_resp = (case rq_response R buf of Inl e \<Rightarrow> Err (RpcInvalidResponse e) | Inr r \<Rightarrow> Ok r) in
      case ce_error_field E buf of
        Inr err \<Rightarrow> if err \<noteq> [] then Err (RpcResponse (err_resp_from err)) else ok_resp
      | Inl _ \<Rightarrow> ok_resp)"

definition rpc ::
  "('c, 'x) rpc_env \<Rightarrow> ('q, 'r) rpc_request \<Rightarrow> 'q \<Rightarrow> 'c \<Rightarrow> ((rpc_error, 'r) result \<times> 'c) async" where
  "rpc E R req c =
     and_await (awaiting (ce_open E (rq_type R) c)) (\<lambda>(opened, c1).
       case opened of
         Inl e \<Rightarrow> ready (Err (RpcOpen e), c1)
       | Inr stream \<Rightarrow>
         (case rq_to_json R req of
            Inl e \<Rightarrow> ready (Err (RpcSend (IoError Other (SrcText e))), ce_drop E (ts_inner stream) c1)
          | Inr s \<Rightarrow>
            and_await (awaiting (write_all (ce_io E) (as_bytes s) (ts_inner stream))) (\<lambda>(sent, x1).
              case sent of
                Inl e \<Rightarrow> ready (Err (RpcSend e), ce_drop E x1 c1)
              | Inr _ \<Rightarrow>
                and_await (awaiting (read_to_end (ce_io E) [] x1)) (\<lambda>(received, x2).
                  case received of
                    Inl e \<Rightarrow> ready (Err (RpcReceive e), ce_drop E x2 c1)
                  | Inr buf \<Rightarrow> ready (rpc_decode E R buf, ce_drop E x2 c1)))))"

text \<open>The JSON of every request.\<close>

record serde =
  sd_auth :: "(auth, auth_resp) rpc_request"
  sd_http :: "(http_endpoint bind_req, http_endpoint bind_resp) rpc_request"
  sd_tcp :: "(tcp_endpoint bind_req, tcp_endpoint bind_resp) rpc_request"
  sd_tls :: "(tls_endpoint bind_req, tls_endpoint bind_resp) rpc_request"
  sd_label :: "(start_tunnel_with_label, rstring) rpc_request"
  sd_unbind :: "(rstring, unit) rpc_request"

text \<open>The types the code gives to the requests.\<close>

text \<open>The invocations of \<open>rpc_req!\<close> give the requests the types of their streams.\<close>

definition auth_rpc :: "serde \<Rightarrow> (auth, auth_resp) rpc_request" where
  "auth_rpc S = (sd_auth S)\<lparr>rq_type := AUTH_REQ\<rparr>"

definition bind_rpc :: "('o bind_req, 'o bind_resp) rpc_request \<Rightarrow> ('o bind_req, 'o bind_resp) rpc_request" where
  "bind_rpc R = R\<lparr>rq_type := BIND_REQ\<rparr>"

definition label_rpc :: "serde \<Rightarrow> (start_tunnel_with_label, rstring) rpc_request" where
  "label_rpc S = (sd_label S)\<lparr>rq_type := BIND_LABELED_REQ\<rparr>"

definition unbind_rpc :: "serde \<Rightarrow> (rstring, unit) rpc_request" where
  "unbind_rpc S = (sd_unbind S)\<lparr>rq_type := UNBIND_REQ\<rparr>"

definition client_close :: "('c, 'x) rpc_env \<Rightarrow> 'c \<Rightarrow> ((rpc_error, unit) result \<times> 'c) async" where
  "client_close E c =
     and_await (awaiting (ce_close E NoError [] c)) (\<lambda>(r, c1).
       ready (case r of Inl e \<Rightarrow> Err (RpcTransport e) | Inr _ \<Rightarrow> Ok (), c1))"

definition client_auth ::
  "('c, 'x) rpc_env \<Rightarrow> serde \<Rightarrow> rstring \<Rightarrow> auth_extra \<Rightarrow> 'c \<Rightarrow> ((rpc_error, auth_resp) result \<times> 'c) async" where
  "client_auth E S tid extra =
     rpc E (auth_rpc S) \<lparr>au_version = PROTO_VERSION, au_client_id = tid, au_extra = extra\<rparr>"

text \<open>The arm of \<open>match_variant!\<close> for one kind of endpoint: \<open>wrap\<close> is its constructor.\<close>

definition listen_variant ::
  "('c, 'x) rpc_env \<Rightarrow> ('o bind_req, 'o bind_resp) rpc_request \<Rightarrow> ('o \<Rightarrow> bind_opts) \<Rightarrow> 'o
     \<Rightarrow> rstring \<Rightarrow> bind_extra \<Rightarrow> rstring \<Rightarrow> rstring \<Rightarrow> rstring \<Rightarrow> 'c
     \<Rightarrow> ((rpc_error, bind_opts bind_resp) result \<times> 'c) async" where
  "listen_variant E R wrap opts protocol extra tid forwards_to forwards_proto c =
     and_await (rpc E R \<lparr>bi_client_id = tid, bi_proto = protocol, bi_forwards_to = forwards_to,
         bi_forwards_proto = forwards_proto, bi_opts = opts, bi_extra = extra\<rparr> c) (\<lambda>(r, c1).
       ready (case r of Inl e \<Rightarrow> Err e
         | Inr resp \<Rightarrow> Ok \<lparr>br_client_id = br_client_id resp, br_url = br_url resp, br_proto = br_proto resp,
             br_bind_opts = wrap (br_bind_opts resp), br_extra_token = br_extra_token resp\<rparr>, c1))"

definition client_listen ::
  "('c, 'x) rpc_env \<Rightarrow> serde \<Rightarrow> rstring \<Rightarrow> bind_opts \<Rightarrow> bind_extra \<Rightarrow> rstring \<Rightarrow> rstring \<Rightarrow> rstring \<Rightarrow> 'c
     \<Rightarrow> ((rpc_error, bind_opts bind_resp) result \<times> 'c) async" where
  "client_listen E S protocol opts extra tid forwards_to forwards_proto =
     (case opts of
        BoHttp o1 \<Rightarrow> listen_variant E (bind_rpc (sd_http S)) BoHttp o1 protocol extra tid forwards_to forwards_proto
      | BoTcp o1 \<Rightarrow> listen_variant E (bind_rpc (sd_tcp S)) BoTcp o1 protocol extra tid forwards_to forwards_proto
      | BoTls o1 \<Rightarrow> listen_variant E (bind_rpc (sd_tls S)) BoTls o1 protocol extra tid forwards_to forwards_proto)"

definition client_listen_label ::
  "('c, 'x) rpc_env \<Rightarrow> serde \<Rightarrow> (rstring \<rightharpoonup> rstring) \<Rightarrow> rstring \<Rightarrow> rstring \<Rightarrow> rstring \<Rightarrow> 'c
     \<Rightarrow> ((rpc_error, rstring) result \<times> 'c) async" where
  "client_listen_label E S labels metadata forwards_to forwards_proto =
     rpc E (label_rpc S) \<lparr>sl_labels = labels, sl_forwards_to = forwards_to,
       sl_forwards_proto = forwards_proto, sl_metadata = metadata\<rparr>"

definition client_unlisten ::
  "('c, 'x) rpc_env \<Rightarrow> serde \<Rightarrow> rstring \<Rightarrow> 'c \<Rightarrow> ((rpc_error, unit) result \<times> 'c) async" where
  "client_unlisten E S tid = rpc E (unbind_rpc S) tid"

section \<open>Commands of the server\<close>

definition NOT_IMPLEMENTED :: rstring where
  "NOT_IMPLEMENTED = str ''the agent has no defined callback for this operation''"

datatype req_error = ReqIo io_error | ReqJson json_error

text \<open>The loop of \<open>read_req\<close>: it reads until what it has is a JSON value.\<close>

partial_function (option) read_value ::
  "'x byte_io \<Rightarrow> (bytes \<Rightarrow> (json_error, 'v) result) \<Rightarrow> bytes \<Rightarrow> 'x
     \<Rightarrow> ((io_error, 'v) result \<times> 'x) option" where
  "read_value io value buf x =
     (case io_read io 256 x of
        None \<Rightarrow> None
      | Some (Inl e, x') \<Rightarrow> Some (Err e, x')
      | Some (Inr bs, x') \<Rightarrow>
        (case value (buf @ bs) of
           Inr obj \<Rightarrow> Some (Ok obj, x')
         | Inl _ \<Rightarrow> read_value io value (buf @ bs) x'))"

definition read_req ::
  "'x byte_io \<Rightarrow> (bytes \<Rightarrow> (json_error, 'v) result) \<Rightarrow> ('v \<Rightarrow> (json_error, 't) result) \<Rightarrow> 'x
     \<Rightarrow> ((req_error, 't) result \<times> 'x) option" where
  "read_req io value from_value x =
     map_option (\<lambda>(r, x'). (case r of
         Inl e \<Rightarrow> Err (ReqIo e)
       | Inr obj \<Rightarrow> (case from_value obj of Inl e \<Rightarrow> Err (ReqJson e) | Inr req \<Rightarrow> Ok req), x'))
       (read_value io value [] x)"

type_synonym 't handler = "'t \<Rightarrow> (rstring, unit) result async"

definition handle_req ::
  "'x byte_io \<Rightarrow> (bytes \<Rightarrow> (json_error, 'v) result) \<Rightarrow> ('v \<Rightarrow> (json_error, 't) result)
     \<Rightarrow> (command_resp \<Rightarrow> (json_error, bytes) result) \<Rightarrow> 't handler option \<Rightarrow> 'x
     \<Rightarrow> ((req_error, unit) result \<times> 'x) async" where
  "handle_req io value from_value to_vec handler stream =
     and_await (awaiting (read_req io value from_value stream)) (\<lambda>(r, x1).
       case r of
         Inl e \<Rightarrow> ready (Err e, x1)
       | Inr req \<Rightarrow>
         and_await (case handler of
             None \<Rightarrow> ready (Some NOT_IMPLEMENTED)
           | Some h \<Rightarrow> and_await (h req) (\<lambda>out. ready (case out of Inl e \<Rightarrow> Some e | Inr _ \<Rightarrow> None)))
           (\<lambda>resp.
              case to_vec \<lparr>cr_error = resp\<rparr> of
                Inl e \<Rightarrow> ready (Err (ReqJson e), x1)
              | Inr resp_json \<Rightarrow>
                and_await (awaiting (write_all io resp_json x1)) (\<lambda>(w, x2).
                  ready (case w of Inl e \<Rightarrow> Err (ReqIo e) | Inr _ \<Rightarrow> Ok (), x2))))"

section \<open>Incoming streams\<close>

record command_handlers =
  on_restart :: "unit handler option"
  on_update :: "update_req handler option"
  on_stop :: "unit handler option"

definition command_handlers_default :: command_handlers where
  "command_handlers_default = \<lparr>on_restart = None, on_update = None, on_stop = None\<rparr>"

text \<open>A task that \<open>accept\<close> spawns to handle a command.\<close>

datatype 'x spawned =
    SpRestart "unit handler option" 'x
  | SpUpdate "update_req handler option" 'x
  | SpStop "unit handler option" 'x

text \<open>
  \<open>IncomingStreams\<close>: its handlers and the session it may know. The accepting half of
  the typed session, the spawned tasks and the world of the session are its state.
\<close>

record ('i, 'x, 's) incoming_streams =
  is_handlers :: command_handlers
  is_session :: "'s option"
  is_accept :: 'i
  is_spawned :: "'x spawned list"

record ('i, 'x, 'v) accept_env =
  ae_accept :: "'i \<Rightarrow> ((mux_error, 'x typed_stream) result \<times> 'i) option"
  ae_io :: "'x byte_io"
  ae_value :: "bytes \<Rightarrow> (json_error, 'v) result"
  ae_stop_tunnel :: "'v \<Rightarrow> (json_error, stop_tunnel) result"
  ae_header :: "rstring \<Rightarrow> (json_error, proxy_header) result"

fun req_error_to_header :: "req_error \<Rightarrow> read_header_error" where
  "req_error_to_header (ReqIo e) = RhIo e"
| "req_error_to_header (ReqJson e) = RhInvalidHeader e"

definition spawn :: "'x spawned \<Rightarrow> ('i, 'x, 's) incoming_streams \<Rightarrow> ('i, 'x, 's) incoming_streams" where
  "spawn t st = st\<lparr>is_spawned := is_spawned st @ [t]\<rparr>"

text \<open>
  One turn of the loop of \<open>accept\<close>, for an accepted stream: it goes on, or it returns.
  \<open>close\<close> is \<open>Session::close_tunnel_with_error\<close>, on the world \<open>w\<close> of the session.
\<close>

datatype ('x, 'st, 'w) turn =
    Loop 'st 'w
  | Stop "(raw_accept_error, proxy_header \<times> 'x typed_stream) result" 'st 'w

definition accept_turn ::
  "('i, 'x, 'v) accept_env \<Rightarrow> ('s \<Rightarrow> rstring \<Rightarrow> accept_error \<Rightarrow> 'w \<Rightarrow> 'w async) \<Rightarrow> 'x typed_stream
     \<Rightarrow> ('i, 'x, 's) incoming_streams \<Rightarrow> 'w \<Rightarrow> ('x, ('i, 'x, 's) incoming_streams, 'w) turn async" where
  "accept_turn A close stream st w =
     (let t = ts_typ stream; x = ts_inner stream in
      if t = RESTART_REQ then ready (Loop (spawn (SpRestart (on_restart (is_handlers st)) x) st) w)
      else if t = UPDATE_REQ then ready (Loop (spawn (SpUpdate (on_update (is_handlers st)) x) st) w)
      else if t = STOP_REQ then ready (Loop (spawn (SpStop (on_stop (is_handlers st)) x) st) w)
      else if t = STOP_TUNNEL_REQ then
        (case is_session st of
           None \<Rightarrow> ready (Loop st w)
         | Some session \<Rightarrow>
           and_await (awaiting (read_req (ae_io A) (ae_value A) (ae_stop_tunnel A) x)) (\<lambda>(r, _).
             case r of
               Inl e \<Rightarrow> ready (Stop (Err (RaHeader (req_error_to_header e))) st w)
             | Inr req \<Rightarrow>
               and_await (close session (sp_client_id req) (AeListenerClosed (sp_message req) (sp_error_code req)) w)
                 (\<lambda>w1. ready (Loop st w1))))
      else if t = PROXY_REQ then
        and_await (read_proxy_header (ae_io A) (ae_header A) x) (\<lambda>(r, x1).
          ready (case r of
            Inl e \<Rightarrow> Stop (Err (RaHeader e)) st w
          | Inr header \<Rightarrow> Stop (Ok (header, stream\<lparr>ts_inner := x1\<rparr>)) st w))
      else ready (Stop (Err (RaInvalidType t)) st w))"

partial_function (option) incoming_accept ::
  "('i, 'x, 'v) accept_env \<Rightarrow> ('s \<Rightarrow> rstring \<Rightarrow> accept_error \<Rightarrow> 'w \<Rightarrow> 'w async)
     \<Rightarrow> ('i, 'x, 's) incoming_streams \<Rightarrow> 'w
     \<Rightarrow> ((raw_accept_error, proxy_header \<times> 'x typed_stream) result \<times> ('i, 'x, 's) incoming_streams \<times> 'w) async" where
  "incoming_accept A close st w =
     (case ae_accept A (is_accept st) of
        None \<Rightarrow> None
      | Some (Inl e, i) \<Rightarrow> ready (Err (RaTransport e), st\<lparr>is_accept := i\<rparr>, w)
      | Some (Inr stream, i) \<Rightarrow>
        (case accept_turn A close stream (st\<lparr>is_accept := i\<rparr>) w of
           None \<Rightarrow> None
         | Some Panic \<Rightarrow> Some Panic
         | Some (Value (Stop r st1 w1)) \<Rightarrow> ready (r, st1, w1)
         | Some (Value (Loop st1 w1)) \<Rightarrow> incoming_accept A close st1 w1))"

end
