(* ===== verification/Session_Builder.thy ===== *)
theory Session_Builder
  imports Raw_Session Heartbeat
begin

text \<open>
  The builder of \<open>ngrok/src/session.rs\<close>: its options, what it tells the server about the
  client, and \<open>connect_inner\<close>, which connects, starts the session below and
  authenticates. URLs, TLS, certificates and the connection itself are parameters. A
  setter that fails returns the builder as it has left it.
\<close>

section \<open>The parameters\<close>

type_synonym u16 = "16 word"

text \<open>The parts of a \<open>url::Url\<close> the crate asks for.\<close>

record url =
  url_scheme :: rstring
  url_host :: "rstring option"
  url_port :: "u16 option"
  url_path :: rstring
  url_text :: rstring

text \<open>
  \<open>Url::port\<close> leaves out the port that is the default of the scheme, which for
  \<open>http\<close> is 80.
\<close>

definition http_port_hidden :: "(rstring \<Rightarrow> url option) \<Rightarrow> bool" where
  "http_port_hidden parse \<longleftrightarrow>
     (\<forall>rest u. parse (str ''http://'' @ rest) = Some u \<longrightarrow> url_port u \<noteq> Some 80)"

datatype pem_item = X509Certificate bytes | OtherItem

text \<open>\<open>Connector::connect\<close>: host, port, TLS configuration, the error that led to it, the network.\<close>

type_synonym ('n, 't, 'io) connector =
  "rstring \<Rightarrow> u16 \<Rightarrow> 't \<Rightarrow> accept_error option \<Rightarrow> 'n \<Rightarrow> ((connect_error, 'io) result \<times> 'n) async"

section \<open>The builder\<close>

definition CLIENT_TYPE :: rstring where
  "CLIENT_TYPE = str ''ngrok-rust''"

record ('n, 't, 'io, 'h) session_builder =
  sb_versions :: "(rstring \<times> rstring \<times> rstring option) list"
  sb_authtoken :: "secret_string option"
  sb_metadata :: "rstring option"
  sb_heartbeat_interval :: "i64 option"
  sb_heartbeat_tolerance :: "i64 option"
  sb_heartbeat_handler :: "'h option"
  sb_server_host :: rstring
  sb_server_port :: u16
  sb_ca_cert :: "bytes option"
  sb_tls_config :: "'t option"
  sb_connector :: "('n, 't, 'io) connector"
  sb_handlers :: command_handlers
  sb_cookie :: "secret_string option"
  sb_id :: "rstring option"

definition builder_default ::
  "rstring \<Rightarrow> ('n, 't, 'io) connector \<Rightarrow> ('n, 't, 'io, 'h) session_builder" where
  "builder_default pkg_version default_connect = \<lparr>
     sb_versions = [(CLIENT_TYPE, pkg_version, None)], sb_authtoken = None, sb_metadata = None,
     sb_heartbeat_interval = None, sb_heartbeat_tolerance = None, sb_heartbeat_handler = None,
     sb_server_host = str ''connect.ngrok-agent.com'', sb_server_port = 443, sb_ca_cert = None,
     sb_tls_config = None, sb_connector = default_connect, sb_handlers = command_handlers_default,
     sb_cookie = None, sb_id = None\<rparr>"

text \<open>
  The class \<open>[^/!#$%&'*+-.^_`|~0-9a-zA-Z]\<close> of banned characters, in which \<open>+-.\<close> is
  the range from \<open>+\<close> to the full stop. Each banned character becomes \<open>#\<close>.
\<close>

definition ua_allowed :: "nat \<Rightarrow> bool" where
  "ua_allowed c \<longleftrightarrow> c \<in> set (str ''/!#$%&'' @ [39] @ str ''*'') \<or> of_char CHR ''+'' \<le> c \<and> c \<le> of_char CHR ''.'' \<or>
     c \<in> set (str ''^_`|~'') \<or> of_char CHR ''0'' \<le> c \<and> c \<le> of_char CHR ''9'' \<or>
     of_char CHR ''a'' \<le> c \<and> c \<le> of_char CHR ''z'' \<or> of_char CHR ''A'' \<le> c \<and> c \<le> of_char CHR ''Z''"

definition sanitize_ua_string :: "rstring \<Rightarrow> rstring" where
  "sanitize_ua_string s =
     map (\<lambda>c. if c = of_char CHR ''/'' then of_char CHR ''-'' else c)
       (map (\<lambda>c. if ua_allowed c then c else of_char CHR ''#'') s)"

definition sb_set_authtoken :: "rstring \<Rightarrow> ('n, 't, 'io, 'h) session_builder \<Rightarrow> ('n, 't, 'io, 'h) session_builder" where
  "sb_set_authtoken t B = B\<lparr>sb_authtoken := Some (SecretString t)\<rparr>"

text \<open>The value of the variable \<open>NGROK_AUTHTOKEN\<close>, if it is set.\<close>

definition sb_authtoken_from_env ::
  "rstring option \<Rightarrow> ('n, 't, 'io, 'h) session_builder \<Rightarrow> ('n, 't, 'io, 'h) session_builder" where
  "sb_authtoken_from_env env B = B\<lparr>sb_authtoken := map_option SecretString env\<rparr>"

text \<open>A \<open>Duration\<close> is its nanoseconds; \<open>i64::try_from\<close> refuses what is too large.\<close>

definition i64_try_from :: "nat \<Rightarrow> (nat, i64) result" where
  "i64_try_from n = (if n < 2 ^ 63 then Ok (word_of_nat n) else Err n)"

definition sb_set_heartbeat_interval ::
  "nat \<Rightarrow> ('n, 't, 'io, 'h) session_builder \<Rightarrow> (nat, ('n, 't, 'io, 'h) session_builder) result" where
  "sb_set_heartbeat_interval nanos B =
     and_then (i64_try_from nanos) (\<lambda>n. Ok (B\<lparr>sb_heartbeat_interval := Some n\<rparr>))"

definition sb_set_heartbeat_tolerance ::
  "nat \<Rightarrow> ('n, 't, 'io, 'h) session_builder \<Rightarrow> (nat, ('n, 't, 'io, 'h) session_builder) result" where
  "sb_set_heartbeat_tolerance nanos B =
     and_then (i64_try_from nanos) (\<lambda>n. Ok (B\<lparr>sb_heartbeat_tolerance := Some n\<rparr>))"

definition sb_set_metadata :: "rstring \<Rightarrow> ('n, 't, 'io, 'h) session_builder \<Rightarrow> ('n, 't, 'io, 'h) session_builder" where
  "sb_set_metadata md B = B\<lparr>sb_metadata := Some md\<rparr>"

definition sb_server_addr ::
  "(rstring \<Rightarrow> url option) \<Rightarrow> (rstring \<Rightarrow> bool) \<Rightarrow> rstring \<Rightarrow> ('n, 't, 'io, 'h) session_builder
     \<Rightarrow> (rstring, unit) result \<times> ('n, 't, 'io, 'h) session_builder" where
  "sb_server_addr parse valid_name addr B =
     (case parse (str ''http://'' @ addr) of
        None \<Rightarrow> (Err addr, B)
      | Some server_uri \<Rightarrow>
        (case url_host server_uri of
           None \<Rightarrow> (Err addr, B)
         | Some host \<Rightarrow>
           (let B1 = B\<lparr>sb_server_host := host\<rparr> in
            if \<not> valid_name host then (Err addr, B1)
            else (Ok (), B1\<lparr>sb_server_port := (case url_port server_uri of None \<Rightarrow> 443 | Some p \<Rightarrow> p)\<rparr>))))"

definition sb_root_cas ::
  "(io_error, 't) result \<Rightarrow> (rstring \<Rightarrow> (io_error, bytes) result) \<Rightarrow> rstring \<Rightarrow> ('n, 't, 'io, 'h) session_builder
     \<Rightarrow> (io_error, ('n, 't, 'io, 'h) session_builder) result" where
  "sb_root_cas host_certs read_file root_cas B =
     (if root_cas = str ''trusted'' then Ok (B\<lparr>sb_ca_cert := None\<rparr>)
      else if root_cas = str ''host'' then
        (case host_certs of
           Inl (IoError kind _) \<Rightarrow> Err (IoError kind SrcNone)
         | Inr cfg \<Rightarrow> Ok (B\<lparr>sb_tls_config := Some cfg\<rparr>))
      else and_then (read_file root_cas) (\<lambda>pem. Ok (B\<lparr>sb_ca_cert := Some pem\<rparr>)))"

definition sb_set_ca_cert :: "bytes \<Rightarrow> ('n, 't, 'io, 'h) session_builder \<Rightarrow> ('n, 't, 'io, 'h) session_builder" where
  "sb_set_ca_cert pem B = B\<lparr>sb_ca_cert := Some pem\<rparr>"

definition sb_set_tls_config :: "'t \<Rightarrow> ('n, 't, 'io, 'h) session_builder \<Rightarrow> ('n, 't, 'io, 'h) session_builder" where
  "sb_set_tls_config cfg B = B\<lparr>sb_tls_config := Some cfg\<rparr>"

definition sb_set_connector ::
  "('n, 't, 'io) connector \<Rightarrow> ('n, 't, 'io, 'h) session_builder \<Rightarrow> ('n, 't, 'io, 'h) session_builder" where
  "sb_set_connector f B = B\<lparr>sb_connector := f\<rparr>"

text \<open>\<open>connect_proxy\<close> chooses the connector; the two that go through a proxy are defined further down the development.\<close>

definition connect_proxy ::
  "(url \<Rightarrow> ('n, 't, 'io) connector) \<Rightarrow> (rstring \<Rightarrow> ('n, 't, 'io) connector) \<Rightarrow> url
     \<Rightarrow> (url, ('n, 't, 'io) connector) result" where
  "connect_proxy http socks u =
     (if url_scheme u = str ''http'' \<or> url_scheme u = str ''https'' then Ok (http u)
      else if url_scheme u = str ''socks5'' then
        (let host = (case url_host u of None \<Rightarrow> [] | Some h \<Rightarrow> h);
             port = (case url_port u of None \<Rightarrow> 1080 | Some p \<Rightarrow> p) in
         Ok (socks (host @ str '':'' @ decimal (unat port))))
      else Err u)"

definition sb_proxy_url ::
  "(url \<Rightarrow> ('n, 't, 'io) connector) \<Rightarrow> (rstring \<Rightarrow> ('n, 't, 'io) connector) \<Rightarrow> url
     \<Rightarrow> ('n, 't, 'io, 'h) session_builder \<Rightarrow> (url, ('n, 't, 'io, 'h) session_builder) result" where
  "sb_proxy_url http socks u B = and_then (connect_proxy http socks u) (\<lambda>f. Ok (B\<lparr>sb_connector := f\<rparr>))"

definition sb_handle_stop_command ::
  "unit handler \<Rightarrow> ('n, 't, 'io, 'h) session_builder \<Rightarrow> ('n, 't, 'io, 'h) session_builder" where
  "sb_handle_stop_command f B = B\<lparr>sb_handlers := (sb_handlers B)\<lparr>on_stop := Some f\<rparr>\<rparr>"

definition sb_handle_restart_command ::
  "unit handler \<Rightarrow> ('n, 't, 'io, 'h) session_builder \<Rightarrow> ('n, 't, 'io, 'h) session_builder" where
  "sb_handle_restart_command f B = B\<lparr>sb_handlers := (sb_handlers B)\<lparr>on_restart := Some f\<rparr>\<rparr>"

definition sb_handle_update_command ::
  "update_req handler \<Rightarrow> ('n, 't, 'io, 'h) session_builder \<Rightarrow> ('n, 't, 'io, 'h) session_builder" where
  "sb_handle_update_command f B = B\<lparr>sb_handlers := (sb_handlers B)\<lparr>on_update := Some f\<rparr>\<rparr>"

definition sb_handle_heartbeat :: "'h \<Rightarrow> ('n, 't, 'io, 'h) session_builder \<Rightarrow> ('n, 't, 'io, 'h) session_builder" where
  "sb_handle_heartbeat f B = B\<lparr>sb_heartbeat_handler := Some f\<rparr>"

definition sb_client_info ::
  "rstring \<Rightarrow> rstring \<Rightarrow> rstring option \<Rightarrow> ('n, 't, 'io, 'h) session_builder \<Rightarrow> ('n, 't, 'io, 'h) session_builder" where
  "sb_client_info client_type version comments B =
     B\<lparr>sb_versions := (client_type, version, comments) # sb_versions B\<rparr>"

section \<open>Connecting\<close>

text \<open>
  What connecting needs of its surroundings: the CA of the crate, the parser of PEM files,
  the client configuration made of root certificates, the operating system and
  architecture, and the start of the typed session with its heartbeat, which gives the
  opening and the accepting half.
\<close>

record ('t, 'io, 'h, 'c, 'i) connect_env =
  ke_ca :: bytes
  ke_pem :: "bytes \<Rightarrow> (rstring, pem_item) result list"
  ke_tls :: "bytes list \<Rightarrow> 't"
  ke_os :: rstring
  ke_arch :: rstring
  ke_start :: "'io \<Rightarrow> 'h heartbeat_config \<Rightarrow> (io_error, 'c \<times> 'i) result async"

fun x509 :: "(rstring, pem_item) result \<Rightarrow> bytes option" where
  "x509 (Inr (X509Certificate bs)) = Some bs"
| "x509 (Inr OtherItem) = None"
| "x509 (Inl _) = None"

definition get_or_create_tls_config ::
  "('t, 'io, 'h, 'c, 'i) connect_env \<Rightarrow> ('n, 't, 'io, 'h) session_builder \<Rightarrow> 't" where
  "get_or_create_tls_config K B =
     (case sb_tls_config B of
        Some cfg \<Rightarrow> cfg
      | None \<Rightarrow>
        (let cert_pem = (case sb_ca_cert B of None \<Rightarrow> ke_ca K | Some it \<Rightarrow> it) in
         ke_tls K (List.map_filter x509 (ke_pem K cert_pem))))"

definition raw_session_start ::
  "('t, 'io, 'h, 'c, 'i) connect_env \<Rightarrow> 'io \<Rightarrow> 'h heartbeat_config \<Rightarrow> command_handlers
     \<Rightarrow> (io_error, 'c \<times> ('i, 'x, 's) incoming_streams) result async" where
  "raw_session_start K io_stream heartbeat handlers =
     and_await (ke_start K io_stream heartbeat) (\<lambda>r.
       ready (and_then r (\<lambda>(opener, accept). Ok (opener,
         \<lparr>is_handlers = handlers, is_session = None, is_accept = accept, is_spawned = []\<rparr>))))"

definition heartbeat_config_of :: "('n, 't, 'io, 'h) session_builder \<Rightarrow> 'h heartbeat_config" where
  "heartbeat_config_of B =
     (let d = (heartbeat_config_default :: 'h heartbeat_config) in
      \<lparr>hc_interval = (case sb_heartbeat_interval B of None \<Rightarrow> hc_interval d | Some i \<Rightarrow> unat i),
       hc_tolerance = (case sb_heartbeat_tolerance B of None \<Rightarrow> hc_tolerance d | Some t \<Rightarrow> unat t),
       hc_handler = sb_heartbeat_handler B\<rparr>)"

definition user_agent :: "('n, 't, 'io, 'h) session_builder \<Rightarrow> rstring" where
  "user_agent B = join [32] (map (\<lambda>(name, version, comments).
     sanitize_ua_string name @ str ''/'' @ sanitize_ua_string version @
     (case comments of None \<Rightarrow> [] | Some f \<Rightarrow> str '' ('' @ f @ str '')'')) (sb_versions B))"

definition unsupported :: "'f option \<Rightarrow> rstring option" where
  "unsupported handler = (if handler = None then Some NOT_IMPLEMENTED else Some [])"

definition auth_extra_of ::
  "('t, 'io, 'h, 'c, 'i) connect_env \<Rightarrow> ('n, 't, 'io, 'h) session_builder \<Rightarrow> rstring \<Rightarrow> rstring \<Rightarrow> auth_extra" where
  "auth_extra_of K B client_type version =
     (let secret = (\<lambda>x. case x of None \<Rightarrow> secret_string_default | Some s \<Rightarrow> s); hc = heartbeat_config_of B in
      auth_extra_default\<lparr>
        ax_version := version,
        ax_client_type := client_type,
        ax_user_agent := user_agent B,
        ax_auth_token := secret (sb_authtoken B),
        ax_metadata := (case sb_metadata B of None \<Rightarrow> [] | Some md \<Rightarrow> md),
        ax_os := (if ke_os K = str ''macos'' then str ''darwin'' else ke_os K),
        ax_arch := ke_arch K,
        ax_heartbeat_interval := word_of_nat (hc_interval hc),
        ax_heartbeat_tolerance := word_of_nat (hc_tolerance hc),
        ax_restart_unsupported_error := unsupported (on_restart (sb_handlers B)),
        ax_stop_unsupported_error := unsupported (on_stop (sb_handlers B)),
        ax_update_unsupported_error := unsupported (on_update (sb_handlers B)),
        ax_cookie := secret (sb_cookie B)\<rparr>)"

text \<open>A tunnel of a session; its sender is the number of its channel.\<close>

record bound_tunnel =
  bt_proto :: rstring
  bt_opts :: "bind_opts option"
  bt_extra :: bind_extra
  bt_labels :: "rstring \<rightharpoonup> rstring"
  bt_forwards_to :: rstring
  bt_forwards_proto :: rstring
  bt_verify_upstream_tls :: bool
  bt_tx :: nat

type_synonym tunnel_conns = "rstring \<rightharpoonup> bound_tunnel"

record ('n, 't, 'io, 'h, 'c) session_inner =
  si_client :: 'c
  si_closed :: bool
  si_tunnels :: tunnel_conns
  si_builder :: "('n, 't, 'io, 'h) session_builder"

definition connect_inner ::
  "('c, 'y) rpc_env \<Rightarrow> serde \<Rightarrow> ('t, 'io, 'h, 'c, 'i) connect_env \<Rightarrow> ('n, 't, 'io, 'h) session_builder
     \<Rightarrow> accept_error option \<Rightarrow> 'n
     \<Rightarrow> ((connect_error, ('n, 't, 'io, 'h, 'c) session_inner \<times> ('i, 'x, 's) incoming_streams) result \<times> 'n) async" where
  "connect_inner E S K B err net =
     and_await (sb_connector B (sb_server_host B) (sb_server_port B) (get_or_create_tls_config K B) err net)
       (\<lambda>(conn, net1).
          case conn of
            Inl e \<Rightarrow> ready (Err e, net1)
          | Inr io_stream \<Rightarrow>
            and_await (raw_session_start K io_stream (heartbeat_config_of B) (sb_handlers B)) (\<lambda>started.
              case started of
                Inl e \<Rightarrow> ready (Err (CeStart e), net1)
              | Inr (raw, incoming) \<Rightarrow>
                (case sb_versions B of
                   [] \<Rightarrow> Some Panic
                 | (client_type, version, _) # _ \<Rightarrow>
                   and_await (client_auth E S (case sb_id B of None \<Rightarrow> [] | Some i \<Rightarrow> i)
                       (auth_extra_of K B client_type version) raw) (\<lambda>(resp, client).
                     case resp of
                       Inl e \<Rightarrow> ready (Err (CeAuth e), net1)
                     | Inr r \<Rightarrow>
                       ready (Ok (\<lparr>si_client = client, si_closed = False, si_tunnels = Map.empty,
                           si_builder = B\<lparr>sb_cookie := rx_cookie (ar_extra r), sb_id := Some (ar_client_id r)\<rparr>\<rparr>,
                         incoming), net1)))))"

end
