(* ===== verification/Tunnel_Session.thy ===== *)
theory Tunnel_Session
  imports Session_Builder
begin

text \<open>
  The session of \<open>ngrok/src/session.rs\<close> with the tunnels of \<open>tunnel.rs\<close> and the
  connections of \<open>conn.rs\<close>: starting and closing tunnels, handing connections to their
  listeners, reconnecting, and giving up. The state behind the \<open>ArcSwap\<close>, the channels of
  the listeners and the number of the next channel are the world; an operation between
  two of its awaits is atomic. The order in which a hash map is iterated is a parameter.
\<close>

section \<open>Connections and listeners\<close>

type_synonym sock_addr = "nat list \<times> u16"

definition any_addr :: sock_addr where
  "any_addr = ([0, 0, 0, 0], 0)"

record conn_info =
  ci_header :: proxy_header
  ci_remote_addr :: sock_addr
  ci_proxy_proto :: proxy_proto
  ci_app_protocol :: "rstring option"
  ci_verify_upstream_tls :: bool

record 'x conn_inner =
  cn_info :: conn_info
  cn_stream :: "'x typed_stream"

text \<open>The bounded channel of tokio between a session and a listener.\<close>

definition CHAN_CAP :: usize where
  "CHAN_CAP = 64"

record 'x tunnel_chan =
  tc_queue :: "(accept_error, 'x conn_inner) result list"
  tc_open :: bool

record ('n, 't, 'io, 'h, 'c, 'x) session_world =
  sw_inner :: "('n, 't, 'io, 'h, 'c) session_inner"
  sw_chans :: "nat \<Rightarrow> 'x tunnel_chan"
  sw_next :: nat

definition on_tunnels ::
  "(tunnel_conns \<Rightarrow> tunnel_conns) \<Rightarrow> ('n, 't, 'io, 'h, 'c, 'x) session_world \<Rightarrow> ('n, 't, 'io, 'h, 'c, 'x) session_world" where
  "on_tunnels f W = W\<lparr>sw_inner := (sw_inner W)\<lparr>si_tunnels := f (si_tunnels (sw_inner W))\<rparr>\<rparr>"

definition on_client :: "'c \<Rightarrow> ('n, 't, 'io, 'h, 'c, 'x) session_world \<Rightarrow> ('n, 't, 'io, 'h, 'c, 'x) session_world" where
  "on_client c W = W\<lparr>sw_inner := (sw_inner W)\<lparr>si_client := c\<rparr>\<rparr>"

abbreviation tunnels :: "('n, 't, 'io, 'h, 'c, 'x) session_world \<Rightarrow> tunnel_conns" where
  "tunnels W \<equiv> si_tunnels (sw_inner W)"

text \<open>\<open>Sender::send\<close>: it fails when the receiver is closed and waits while the channel is full.\<close>

definition tunnel_send ::
  "nat \<Rightarrow> (accept_error, 'x conn_inner) result \<Rightarrow> ('n, 't, 'io, 'h, 'c, 'x) session_world
     \<Rightarrow> (bool \<times> ('n, 't, 'io, 'h, 'c, 'x) session_world) async" where
  "tunnel_send tx item W =
     (let ch = sw_chans W tx in
      if \<not> tc_open ch then ready (False, W)
      else if length (tc_queue ch) < CHAN_CAP then
        ready (True, W\<lparr>sw_chans := (sw_chans W)(tx := ch\<lparr>tc_queue := tc_queue ch @ [item]\<rparr>)\<rparr>)
      else None)"

section \<open>Tunnels\<close>

record tunnel_inner_info =
  ti_id :: rstring
  ti_proto :: rstring
  ti_url :: rstring
  ti_labels :: "rstring \<rightharpoonup> rstring"
  ti_forwards_to :: rstring
  ti_metadata :: rstring

record tunnel_inner =
  tn_info :: tunnel_inner_info
  tn_incoming :: "nat option"

text \<open>A channel is at its end when no tunnel of the session holds its sender.\<close>

definition tx_held :: "('n, 't, 'io, 'h, 'c, 'x) session_world \<Rightarrow> nat \<Rightarrow> bool" where
  "tx_held W tx \<longleftrightarrow> tx \<in> bt_tx ` ran (tunnels W)"

definition tunnel_poll_next ::
  "tunnel_inner \<Rightarrow> ('n, 't, 'io, 'h, 'c, 'x) session_world
     \<Rightarrow> (accept_error, 'x conn_inner) result option poll \<times> ('n, 't, 'io, 'h, 'c, 'x) session_world" where
  "tunnel_poll_next tn W =
     (case tn_incoming tn of
        None \<Rightarrow> (Panicked, W)
      | Some rx \<Rightarrow>
        (let ch = sw_chans W rx in
         case tc_queue ch of
           item # rest \<Rightarrow> (Ready (Some item), W\<lparr>sw_chans := (sw_chans W)(rx := ch\<lparr>tc_queue := rest\<rparr>)\<rparr>)
         | [] \<Rightarrow> (if tc_open ch \<and> tx_held W rx then Pending else Ready None, W)))"

definition make_info :: "tunnel_inner \<Rightarrow> tunnel_inner" where
  "make_info tn = tn\<lparr>tn_incoming := None\<rparr>"

text \<open>What a tunnel asks for: the values of the methods of \<open>TunnelConfig\<close>.\<close>

record tunnel_config =
  tg_forwards_to :: rstring
  tg_forwards_proto :: rstring
  tg_verify_upstream_tls :: bool
  tg_extra :: bind_extra
  tg_proto :: rstring
  tg_opts :: "bind_opts option"
  tg_labels :: "rstring \<rightharpoonup> rstring"

section \<open>Operations of a session\<close>

definition chan_open ::
  "('n, 't, 'io, 'h, 'c, 'x) session_world \<Rightarrow> nat \<times> ('n, 't, 'io, 'h, 'c, 'x) session_world" where
  "chan_open W = (sw_next W,
     W\<lparr>sw_chans := (sw_chans W)(sw_next W := \<lparr>tc_queue = [], tc_open = True\<rparr>), sw_next := Suc (sw_next W)\<rparr>)"

text \<open>When the request fails the receiver is dropped with the call.\<close>

definition chan_drop ::
  "nat \<Rightarrow> ('n, 't, 'io, 'h, 'c, 'x) session_world \<Rightarrow> ('n, 't, 'io, 'h, 'c, 'x) session_world" where
  "chan_drop rx W = W\<lparr>sw_chans := (sw_chans W)(rx := \<lparr>tc_queue = [], tc_open = False\<rparr>)\<rparr>"

definition start_tunnel ::
  "('c, 'y) rpc_env \<Rightarrow> serde \<Rightarrow> tunnel_config \<Rightarrow> ('n, 't, 'io, 'h, 'c, 'x) session_world
     \<Rightarrow> ((rpc_error, tunnel_inner) result \<times> ('n, 't, 'io, 'h, 'c, 'x) session_world) async" where
  "start_tunnel E S cfg W0 =
     (case chan_open W0 of (tx, W) \<Rightarrow>
      if tg_proto cfg \<noteq> [] then
        (case tg_opts cfg of
           None \<Rightarrow> Some Panic
         | Some opts \<Rightarrow>
           and_await (client_listen E S (tg_proto cfg) opts (tg_extra cfg) [] (tg_forwards_to cfg)
               (tg_forwards_proto cfg) (si_client (sw_inner W))) (\<lambda>(r, c).
             case r of
               Inl e \<Rightarrow> ready (Err e, chan_drop tx (on_client c W))
             | Inr resp \<Rightarrow>
               (let extra = (tg_extra cfg)\<lparr>be_token := br_extra_token resp\<rparr>;
                    info = \<lparr>ti_id = br_client_id resp, ti_proto = br_proto resp, ti_url = br_url resp,
                      ti_labels = Map.empty, ti_forwards_to = tg_forwards_to cfg, ti_metadata = be_metadata extra\<rparr>;
                    bound = \<lparr>bt_proto = br_proto resp, bt_opts = Some (br_bind_opts resp), bt_extra = extra,
                      bt_labels = tg_labels cfg, bt_forwards_to = tg_forwards_to cfg,
                      bt_forwards_proto = tg_forwards_proto cfg,
                      bt_verify_upstream_tls = tg_verify_upstream_tls cfg, bt_tx = tx\<rparr> in
                ready (Ok \<lparr>tn_info = info, tn_incoming = Some tx\<rparr>,
                  on_tunnels (\<lambda>m. m(ti_id info \<mapsto> bound)) (on_client c W)))))
      else
        and_await (client_listen_label E S (tg_labels cfg) (be_metadata (tg_extra cfg)) (tg_forwards_to cfg)
            (tg_forwards_proto cfg) (si_client (sw_inner W))) (\<lambda>(r, c).
          case r of
            Inl e \<Rightarrow> ready (Err e, chan_drop tx (on_client c W))
          | Inr resp_id \<Rightarrow>
            (let info = \<lparr>ti_id = resp_id, ti_proto = [], ti_url = [], ti_labels = tg_labels cfg,
                   ti_forwards_to = tg_forwards_to cfg, ti_metadata = be_metadata (tg_extra cfg)\<rparr>;
                 bound = \<lparr>bt_proto = [], bt_opts = None, bt_extra = tg_extra cfg,
                   bt_labels = tg_labels cfg, bt_forwards_to = tg_forwards_to cfg,
                   bt_forwards_proto = tg_forwards_proto cfg,
                   bt_verify_upstream_tls = tg_verify_upstream_tls cfg, bt_tx = tx\<rparr> in
             ready (Ok \<lparr>tn_info = info, tn_incoming = Some tx\<rparr>,
               on_tunnels (\<lambda>m. m(ti_id info \<mapsto> bound)) (on_client c W)))))"

definition close_tunnel_with_error ::
  "rstring \<Rightarrow> accept_error \<Rightarrow> ('n, 't, 'io, 'h, 'c, 'x) session_world
     \<Rightarrow> ('n, 't, 'io, 'h, 'c, 'x) session_world async" where
  "close_tunnel_with_error tid err W =
     (case tunnels W tid of
        None \<Rightarrow> ready W
      | Some tun \<Rightarrow>
        and_await (tunnel_send (bt_tx tun) (Err err) (on_tunnels (\<lambda>m. m(tid := None)) W)) (\<lambda>(_, W1). ready W1))"

definition close_tunnel ::
  "('c, 'y) rpc_env \<Rightarrow> serde \<Rightarrow> rstring \<Rightarrow> ('n, 't, 'io, 'h, 'c, 'x) session_world
     \<Rightarrow> ((rpc_error, unit) result \<times> ('n, 't, 'io, 'h, 'c, 'x) session_world) async" where
  "close_tunnel E S tid W =
     and_await (client_unlisten E S tid (si_client (sw_inner W))) (\<lambda>(r, c).
       ready (case r of
         Inl e \<Rightarrow> (Err e, on_client c W)
       | Inr _ \<Rightarrow> (Ok (), on_tunnels (\<lambda>m. m(tid := None)) (on_client c W))))"

definition tunnel_close ::
  "('c, 'y) rpc_env \<Rightarrow> serde \<Rightarrow> tunnel_inner \<Rightarrow> ('n, 't, 'io, 'h, 'c, 'x) session_world
     \<Rightarrow> ((rpc_error, unit) result \<times> ('n, 't, 'io, 'h, 'c, 'x) session_world) async" where
  "tunnel_close E S tn W =
     and_await (close_tunnel E S (ti_id (tn_info tn)) W) (\<lambda>(r, W1).
       ready (case r of
         Inl e \<Rightarrow> (Err e, W1)
       | Inr _ \<Rightarrow> (Ok (), (case tn_incoming tn of
             None \<Rightarrow> W1
           | Some rx \<Rightarrow> W1\<lparr>sw_chans := (sw_chans W1)(rx := (sw_chans W1 rx)\<lparr>tc_open := False\<rparr>)\<rparr>))))"

text \<open>
  Dropping a tunnel drops its receiver with what is queued, and spawns \<open>close_tunnel\<close> for the
  identifier that is returned here; the task runs later.
\<close>

definition tunnel_drop ::
  "tunnel_inner \<Rightarrow> ('n, 't, 'io, 'h, 'c, 'x) session_world \<Rightarrow> rstring \<times> ('n, 't, 'io, 'h, 'c, 'x) session_world" where
  "tunnel_drop tn W = (ti_id (tn_info tn), case tn_incoming tn of None \<Rightarrow> W | Some rx \<Rightarrow> chan_drop rx W)"

definition session_close ::
  "('c, 'y) rpc_env \<Rightarrow> ('n, 't, 'io, 'h, 'c, 'x) session_world
     \<Rightarrow> ((rpc_error, unit) result \<times> ('n, 't, 'io, 'h, 'c, 'x) session_world) async" where
  "session_close E W =
     and_await (client_close E (si_client (sw_inner W))) (\<lambda>(res, c).
       ready (res, W\<lparr>sw_inner := (sw_inner W)\<lparr>si_client := c, si_closed := True\<rparr>\<rparr>))"

section \<open>Accepting connections\<close>

fun opts_proxy_proto :: "bind_opts option \<Rightarrow> proxy_proto" where
  "opts_proxy_proto (Some (BoTls o1)) = tl_proxy_proto o1"
| "opts_proxy_proto (Some (BoHttp o1)) = he_proxy_proto o1"
| "opts_proxy_proto (Some (BoTcp o1)) = te_proxy_proto o1"
| "opts_proxy_proto None = PpNone"

definition conn_of ::
  "(rstring \<Rightarrow> sock_addr option) \<Rightarrow> bound_tunnel \<Rightarrow> proxy_header \<Rightarrow> 'x typed_stream \<Rightarrow> 'x conn_inner" where
  "conn_of parse_addr tun header stream =
     \<lparr>cn_info = \<lparr>
        ci_header = (case bt_opts tun of
            Some (BoTls o1) \<Rightarrow> header\<lparr>ph_passthrough_tls := (tl_tls_termination o1 = None)\<rparr>
          | _ \<Rightarrow> header),
        ci_remote_addr = (case parse_addr (ph_client_addr header) of None \<Rightarrow> any_addr | Some a \<Rightarrow> a),
        ci_proxy_proto = opts_proxy_proto (bt_opts tun),
        ci_app_protocol = (if bt_forwards_proto tun = [] then None else Some (bt_forwards_proto tun)),
        ci_verify_upstream_tls = bt_verify_upstream_tls tun\<rparr>,
      cn_stream = stream\<rparr>"

definition deliver ::
  "(rstring \<Rightarrow> sock_addr option) \<Rightarrow> proxy_header \<Rightarrow> 'x typed_stream \<Rightarrow> ('n, 't, 'io, 'h, 'c, 'x) session_world
     \<Rightarrow> ('n, 't, 'io, 'h, 'c, 'x) session_world async" where
  "deliver parse_addr header stream W =
     (case tunnels W (ph_id header) of
        None \<Rightarrow> ready W
      | Some tun \<Rightarrow>
        and_await (tunnel_send (bt_tx tun) (Ok (conn_of parse_addr tun header stream)) W) (\<lambda>(sent, W1).
          ready (if sent then W1 else on_tunnels (\<lambda>m. m(ph_id header := None)) W1)))"

definition accept_one ::
  "('i, 'x, 'v) accept_env \<Rightarrow> (rstring \<Rightarrow> sock_addr option) \<Rightarrow> ('i, 'x, unit) incoming_streams
     \<Rightarrow> ('n, 't, 'io, 'h, 'c, 'x) session_world
     \<Rightarrow> ((accept_error, unit) result \<times> ('i, 'x, unit) incoming_streams \<times> ('n, 't, 'io, 'h, 'c, 'x) session_world) async" where
  "accept_one A parse_addr st W =
     and_await (incoming_accept A (\<lambda>_. close_tunnel_with_error) st W) (\<lambda>(r, st1, W1).
       case r of
         Inl (RaTransport e) \<Rightarrow> ready (Err (AeTransport e), st1, W1)
       | Inl _ \<Rightarrow> ready (Ok (), st1, W1)
       | Inr (header, stream) \<Rightarrow>
         and_await (deliver parse_addr header stream W1) (\<lambda>W2. ready (Ok (), st1, W2)))"

section \<open>Reconnecting\<close>

text \<open>The loop of \<open>try_reconnect\<close> over the tunnels of the old session, in the order of the map.\<close>

fun rebind ::
  "('c, 'y) rpc_env \<Rightarrow> serde \<Rightarrow> tunnel_conns \<Rightarrow> rstring list \<Rightarrow> 'c \<Rightarrow> tunnel_conns
     \<Rightarrow> ((rpc_error, tunnel_conns) result \<times> 'c) async" where
  "rebind E S old [] c new = ready (Ok new, c)"
| "rebind E S old (tid # ids) c new =
     (case old tid of
        None \<Rightarrow> rebind E S old ids c new
      | Some tun \<Rightarrow>
        if bt_proto tun \<noteq> [] then
          (case bt_opts tun of
             None \<Rightarrow> Some Panic
           | Some opts \<Rightarrow>
             and_await (client_listen E S (bt_proto tun) opts (bt_extra tun) tid (bt_forwards_to tun)
                 (bt_forwards_proto tun) c) (\<lambda>(r, c1).
               case r of
                 Inl e \<Rightarrow> ready (Err e, c1)
               | Inr _ \<Rightarrow> rebind E S old ids c1 (new(tid \<mapsto> tun))))
        else
          and_await (client_listen_label E S (bt_labels tun) (be_metadata (bt_extra tun)) (bt_forwards_to tun)
              (bt_forwards_proto tun) c) (\<lambda>(r, c1).
            case r of
              Inl e \<Rightarrow> ready (Err e, c1)
            | Inr resp_id \<Rightarrow>
              rebind E S old ids c1 (if resp_id \<noteq> [] then new(resp_id \<mapsto> tun) else new(tid \<mapsto> tun))))"

definition try_reconnect ::
  "('c, 'y) rpc_env \<Rightarrow> serde \<Rightarrow> ('t, 'io, 'h, 'c, 'i) connect_env \<Rightarrow> (tunnel_conns \<Rightarrow> rstring list)
     \<Rightarrow> accept_error option \<Rightarrow> ('n, 't, 'io, 'h, 'c, 'x) session_world \<Rightarrow> 'n
     \<Rightarrow> ((connect_error, ('i, 'x, unit) incoming_streams) result \<times> ('n, 't, 'io, 'h, 'c, 'x) session_world \<times> 'n) async" where
  "try_reconnect E S K order err W net =
     (if si_closed (sw_inner W) then ready (Err CeCanceled, W, net)
      else and_await (connect_inner E S K (si_builder (sw_inner W)) err net) (\<lambda>(r, net1).
        case r of
          Inl e \<Rightarrow> ready (Err e, W, net1)
        | Inr (new_inner, new_incoming) \<Rightarrow>
          and_await (rebind E S (tunnels W) (order (tunnels W)) (si_client new_inner) (si_tunnels new_inner)) (\<lambda>(q, c).
            ready (case q of
              Inl e \<Rightarrow> (Err (CeRebind e), W, net1)
            | Inr new_tunnels \<Rightarrow>
              (Ok new_incoming, W\<lparr>sw_inner := new_inner\<lparr>si_client := c, si_tunnels := new_tunnels\<rparr>\<rparr>, net1)))))"

text \<open>\<open>RetryIf\<close> with its condition: only a canceled connection ends the attempts.\<close>

partial_function (option) reconnect_loop ::
  "('c, 'y) rpc_env \<Rightarrow> serde \<Rightarrow> ('t, 'io, 'h, 'c, 'i) connect_env \<Rightarrow> (tunnel_conns \<Rightarrow> rstring list)
     \<Rightarrow> accept_error option \<Rightarrow> ('n, 't, 'io, 'h, 'c, 'x) session_world \<Rightarrow> 'n
     \<Rightarrow> ((connect_error, ('i, 'x, unit) incoming_streams) result \<times> ('n, 't, 'io, 'h, 'c, 'x) session_world \<times> 'n) async" where
  "reconnect_loop E S K order err W net =
     (case try_reconnect E S K order err W net of
        None \<Rightarrow> None
      | Some Panic \<Rightarrow> Some Panic
      | Some (Value (Inr incoming, W1, net1)) \<Rightarrow> ready (Ok incoming, W1, net1)
      | Some (Value (Inl e, W1, net1)) \<Rightarrow>
        if e = CeCanceled then ready (Err e, W1, net1)
        else reconnect_loop E S K order (Some (AeReconnect e)) W1 net1)"

text \<open>The end of \<open>accept_incoming\<close>: every listener is told the error.\<close>

fun broadcast ::
  "accept_error \<Rightarrow> bound_tunnel list \<Rightarrow> ('n, 't, 'io, 'h, 'c, 'x) session_world
     \<Rightarrow> ('n, 't, 'io, 'h, 'c, 'x) session_world async" where
  "broadcast err [] W = ready W"
| "broadcast err (tun # tuns) W =
     and_await (tunnel_send (bt_tx tun) (Err err) W) (\<lambda>(_, W1). broadcast err tuns W1)"

definition drained :: "(tunnel_conns \<Rightarrow> rstring list) \<Rightarrow> tunnel_conns \<Rightarrow> bound_tunnel list" where
  "drained order m = List.map_filter m (order m)"

partial_function (option) accept_incoming ::
  "('i, 'x, 'v) accept_env \<Rightarrow> (rstring \<Rightarrow> sock_addr option) \<Rightarrow> ('c, 'y) rpc_env \<Rightarrow> serde
     \<Rightarrow> ('t, 'io, 'h, 'c, 'i) connect_env \<Rightarrow> (tunnel_conns \<Rightarrow> rstring list)
     \<Rightarrow> ('i, 'x, unit) incoming_streams \<Rightarrow> ('n, 't, 'io, 'h, 'c, 'x) session_world \<Rightarrow> 'n
     \<Rightarrow> (('n, 't, 'io, 'h, 'c, 'x) session_world \<times> 'n) async" where
  "accept_incoming A parse_addr E S K order st W net =
     (case accept_one A parse_addr st W of
        None \<Rightarrow> None
      | Some Panic \<Rightarrow> Some Panic
      | Some (Value (Inr _, st1, W1)) \<Rightarrow> accept_incoming A parse_addr E S K order st1 W1 net
      | Some (Value (Inl error, st1, W1)) \<Rightarrow>
        (case reconnect_loop E S K order (Some error) W1 net of
           None \<Rightarrow> None
         | Some Panic \<Rightarrow> Some Panic
         | Some (Value (Inr incoming, W2, net2)) \<Rightarrow> accept_incoming A parse_addr E S K order incoming W2 net2
         | Some (Value (Inl e, W2, net2)) \<Rightarrow>
           map_option (\<lambda>r. case r of Panic \<Rightarrow> Panic | Value W3 \<Rightarrow> Value (W3, net2))
             (broadcast (AeReconnect e) (drained order (tunnels W2)) (on_tunnels (\<lambda>_. Map.empty) W2))))"

text \<open>\<open>SessionBuilder::connect\<close>: the session knows itself only in the first incoming streams.\<close>

definition session_connect ::
  "('c, 'y) rpc_env \<Rightarrow> serde \<Rightarrow> ('t, 'io, 'h, 'c, 'i) connect_env \<Rightarrow> ('n, 't, 'io, 'h) session_builder \<Rightarrow> 'n
     \<Rightarrow> ((connect_error, ('n, 't, 'io, 'h, 'c, 'x) session_world \<times> ('i, 'x, unit) incoming_streams) result \<times> 'n) async" where
  "session_connect E S K B net =
     and_await (connect_inner E S K B None net) (\<lambda>(r, net1).
       ready (and_then r (\<lambda>(inner, incoming).
         Ok (\<lparr>sw_inner = inner, sw_chans = (\<lambda>_. \<lparr>tc_queue = [], tc_open = False\<rparr>), sw_next = 0\<rparr>,
             incoming\<lparr>is_session := Some ()\<rparr>)), net1))"

text \<open>The identifier of a session, which panics before it is connected.\<close>

definition session_id :: "('n, 't, 'io, 'h, 'c, 'x) session_world \<Rightarrow> rstring option" where
  "session_id W = sb_id (si_builder (sw_inner W))"

end
