(* ===== verification/Proto_Props.thy ===== *)
theory Proto_Props
  imports Proto
begin

text \<open>
  The properties of the protocol messages: the enums survive the wire, an error text
  splits into its code and its message, and a proxy header is framed by its length.
\<close>

section \<open>Error texts\<close>

definition err_lines :: "rstring \<Rightarrow> rstring list" where
  "err_lines v = filter (\<lambda>l. l \<noteq> []) (str_lines v)"

lemma fold_err_line:
  "fold err_line ls (code, ms) =
    (case filter (starts_with ERR_PREFIX) ls of [] \<Rightarrow> code | cs \<Rightarrow> Some (str_trim (last cs)),
     ms @ filter (\<lambda>l. \<not> starts_with ERR_PREFIX l) ls)"
  by (induction ls arbitrary: code ms) (auto split: list.splits)

lemma err_resp_from_eq:
  "err_resp_from v =
    \<lparr>er_msg = join [10] (filter (\<lambda>l. \<not> starts_with ERR_PREFIX l) (err_lines v)),
     er_code = (case filter (starts_with ERR_PREFIX) (err_lines v) of [] \<Rightarrow> None | cs \<Rightarrow> Some (str_trim (last cs)))\<rparr>"
  by (simp add: err_resp_from_def err_lines_def fold_err_line)

lemma err_lines_ok:
  assumes "13 \<notin> set v" "l \<in> set (err_lines v)"
  shows "no_newline l \<and> 13 \<notin> set l \<and> l \<noteq> []"
  using assms lines_from_no_newline [of "[]" l v] lines_from_no_cr [of "[]" v l]
  by (auto simp: err_lines_def str_lines_def no_newline_def)

section \<open>Properties\<close>

text \<open>
  An edge type and a PROXY protocol version read back from what they are written
  as, whichever of the two number formats the reader sees; reading an edge type never
  panics, whatever the text. The command-line form of a version is one of three texts,
  and \<open>0\<close>, the number of no PROXY protocol, is not among them.
\<close>

theorem wire_enums_roundtrip:
  "edge_type_visit_str (edge_type_serialize t) = Some t \<and> edge_type_visit_str v \<noteq> None \<and>
   proxy_proto_visit_i64 (proxy_proto_serialize p) = p \<and> proxy_proto_visit_u64 (proxy_proto_serialize p) = p \<and>
   proxy_proto_from_str [] = Ok PpNone \<and> proxy_proto_from_str (str ''1'') = Ok PpV1 \<and>
   proxy_proto_from_str (str ''2'') = Ok PpV2 \<and>
   proxy_proto_from_str (str ''0'') = Err (InvalidProxyProtoString (str ''0''))"
  by (cases t; cases p)
    (simp_all add: edge_type_visit_str_def edge_type_serialize_def edge_type_from_str_def proxy_proto_visit_i64_def
      proxy_proto_visit_u64_def proxy_proto_serialize_def proxy_proto_from_i64_def proxy_proto_from_str_def str_def)

text \<open>
  An error text without carriage returns is split line by line: the code is the
  last line that starts with the ngrok prefix, without the white space around it; the
  message is the other lines that are not empty, in order; and the message read again
  is the same message without a code.
\<close>

theorem err_resp_splits_code:
  assumes "13 \<notin> set v"
  shows "str_lines (er_msg (err_resp_from v)) =
      filter (\<lambda>l. l \<noteq> [] \<and> \<not> starts_with ERR_PREFIX l) (str_lines v) \<and>
    er_code (err_resp_from v) =
      (case filter (starts_with ERR_PREFIX) (str_lines v) of [] \<Rightarrow> None | cs \<Rightarrow> Some (str_trim (last cs))) \<and>
    err_resp_from (er_msg (err_resp_from v)) = \<lparr>er_msg = er_msg (err_resp_from v), er_code = None\<rparr>"
proof -
  define ls where "ls = filter (\<lambda>l. l \<noteq> [] \<and> \<not> starts_with ERR_PREFIX l) (str_lines v)"
  have ls: "filter (\<lambda>l. \<not> starts_with ERR_PREFIX l) (err_lines v) = ls"
    by (auto simp: ls_def err_lines_def intro: filter_cong)
  have msg: "er_msg (err_resp_from v) = join [10] ls"
    by (simp add: err_resp_from_eq ls)
  have "\<forall>l \<in> set ls. no_newline l \<and> 13 \<notin> set l \<and> l \<noteq> []"
    using err_lines_ok [OF assms] unfolding ls [symmetric] by simp
  then have lines: "str_lines (join [10] ls) = ls"
    by (rule lines_join)
  have "filter (starts_with ERR_PREFIX) (err_lines v) = filter (starts_with ERR_PREFIX) (str_lines v)"
    by (auto simp: err_lines_def starts_with_def ERR_PREFIX_def str_def intro: filter_cong)
  moreover have "filter (\<lambda>l. l \<noteq> []) ls = ls" "filter (starts_with ERR_PREFIX) ls = []"
    "filter (\<lambda>l. \<not> starts_with ERR_PREFIX l) ls = ls"
    by (simp_all add: ls_def filter_empty_conv conj_ac cong: filter_cong)
  moreover from this(1) have "err_lines (join [10] ls) = ls"
    by (simp add: err_lines_def lines)
  ultimately show ?thesis
    using lines by (simp add: msg ls_def [symmetric]) (simp add: err_resp_from_eq)
qed

theorem err_resp_splits_code_witness:
  "err_resp_from (str ''tunnel limit'' @ [10] @ str ''ERR_NGROK_108 '') =
    \<lparr>er_msg = str ''tunnel limit'', er_code = Some (str ''ERR_NGROK_108'')\<rparr> \<and>
   err_resp_from (str ''tunnel limit'') = \<lparr>er_msg = str ''tunnel limit'', er_code = None\<rparr>"
proof -
  let ?v = "str ''tunnel limit'' @ [10] @ str ''ERR_NGROK_108 ''"
  have v: "err_resp_from ?v = \<lparr>er_msg = str ''tunnel limit'', er_code = Some (str ''ERR_NGROK_108'')\<rparr>"
    by (simp add: err_resp_from_def str_lines_def str_def strip_cr_def starts_with_def ERR_PREFIX_def str_trim_def
        white_space_def)
  have "13 \<notin> set ?v" by (simp add: str_def)
  from err_resp_splits_code [OF this] v show ?thesis by simp
qed

text \<open>
  C40. A proxy header is framed by its length: after the eight bytes of the length, the
  code takes exactly that many bytes, decodes and parses them, and leaves what is behind
  them to the connection. A negative length, which the server may send, panics.
\<close>

theorem proxy_header_framed:
  assumes "byte_stream io ok incoming outgoing" "ok x" "read_exact io 8 x = Some (Ok len, x1)"
  shows "(sint (i64_from_le_bytes len) < 0 \<longrightarrow> read_proxy_header io parse x = Some Panic) \<and>
    (\<forall>s y. 0 \<le> sint (i64_from_le_bytes len) \<longrightarrow> (\<forall>c \<in> set s. scalar c) \<longrightarrow>
       read_exact io (unat (i64_from_le_bytes len)) x1 = Some (Ok (as_bytes s), y) \<longrightarrow>
       read_proxy_header io parse x =
         ready (case parse s of Inl e \<Rightarrow> Err (RhInvalidHeader e) | Inr h \<Rightarrow> Ok h, y) \<and>
       length (as_bytes s) = unat (i64_from_le_bytes len) \<and> incoming x = len @ as_bytes s @ incoming y)"
proof -
  from byte_stream.read_exact_law [OF assms] have one: "incoming x = len @ incoming x1" "ok x1" by auto
  show ?thesis
    using one byte_stream.read_exact_law [OF assms(1) one(2)] assms(3)
    by (fastforce simp: read_proxy_header_def from_utf8_as_bytes split: sum.splits)
qed

definition demo_header :: proxy_header where
  "demo_header = \<lparr>ph_id = [], ph_client_addr = [], ph_proto = [], ph_edge_type = EdgeUndefined, ph_passthrough_tls = False\<rparr>"

text \<open>A stream that is a list of bytes.\<close>

definition list_in_io :: "(bytes \<times> bytes) byte_io" where
  "list_in_io = \<lparr>io_read = (\<lambda>n (i, w). Some (Ok (take n i), (drop n i, w))),
     io_write = (\<lambda>buf (i, w). Some (Ok (length buf), (i, w @ buf)))\<rparr>"

interpretation list_io: byte_stream list_in_io "\<lambda>_. True" fst snd
  by unfold_locales (auto simp: list_in_io_def)

theorem proxy_header_framed_witness:
  "read_proxy_header list_in_io (\<lambda>s. Ok demo_header) ([2, 0, 0, 0, 0, 0, 0, 0, 123, 125, 7], []) =
     ready (Ok demo_header, ([7], [])) \<and>
   read_proxy_header list_in_io (\<lambda>s. Ok demo_header) ([0, 0, 0, 0, 0, 0, 0, 128], []) = Some Panic"
proof -
  have r: "read_exact list_in_io 8 ([2, 0, 0, 0, 0, 0, 0, 0, 123, 125, 7], []) =
      Some (Ok [2, 0, 0, 0, 0, 0, 0, 0], ([123, 125, 7], []))"
    "read_exact list_in_io 2 ([123, 125, 7], []) = Some (Ok [123, 125], ([7], []))"
    "read_exact list_in_io 8 ([0, 0, 0, 0, 0, 0, 0, 128], []) = Some (Ok [0, 0, 0, 0, 0, 0, 0, 128], ([], []))"
    by (simp_all add: read_exact.simps list_in_io_def)
  have "as_bytes (str ''{}'') = [123, 125]"
    by (simp add: as_bytes_def str_def utf8_char_def)
  then have 2: "read_exact list_in_io 2 ([123, 125, 7], []) = Some (Ok (as_bytes (str ''{}'')), ([7], []))"
    using r(2) by simp
  have "\<forall>c \<in> set (str ''{}''). scalar c"
    by (simp add: str_def scalar_def)
  with 2 proxy_header_framed [OF list_io.byte_stream_axioms TrueI r(1), of "\<lambda>s. Ok demo_header"]
    proxy_header_framed [OF list_io.byte_stream_axioms TrueI r(3), of "\<lambda>s. Ok demo_header"]
  show ?thesis
    by (simp add: i64_from_le_bytes_def)
qed

end
