(* ===== verification/Raw_Session_Props.thy ===== *)
theory Raw_Session_Props
  imports Raw_Session Proto_Props
begin

text \<open>
  The properties of the raw session: what a remote procedure call sends and reports, when
  a command of the server is read, and what \<open>accept\<close> does with the streams it is given.
\<close>

section \<open>Reading to the end\<close>

lemma read_to_end_unfold:
  "read_to_end io buf x =
     (case io_read io 32 x of
        None \<Rightarrow> None
      | Some (Inl e, x') \<Rightarrow> Some (Err e, x')
      | Some (Inr bs, x') \<Rightarrow> if bs = [] then Some (Ok buf, x') else read_to_end io (buf @ bs) x')"
  by (subst read_to_end.simps) simp

lemma read_value_unfold:
  "read_value io val buf x =
     (case io_read io 256 x of
        None \<Rightarrow> None
      | Some (Inl e, x') \<Rightarrow> Some (Err e, x')
      | Some (Inr bs, x') \<Rightarrow>
        (case val (buf @ bs) of
           Inr obj \<Rightarrow> Some (Ok obj, x')
         | Inl _ \<Rightarrow> read_value io val (buf @ bs) x'))"
  by (subst read_value.simps) simp

context byte_stream
begin

text \<open>\<open>read_to_end\<close> returns when every read does: there are only finitely many bytes to come.\<close>

lemma read_to_end_law:
  assumes "ok x" "\<forall>y. ok y \<longrightarrow> io_read io 32 y \<noteq> None"
  shows "\<exists>r x'. read_to_end io buf x = Some (r, x') \<and>
    (\<forall>out. r = Ok out \<longrightarrow> ok x' \<and> (\<exists>more. out = buf @ more \<and> incoming x = more @ incoming x'))"
  using assms(1)
proof (induction "length (incoming x)" arbitrary: buf x rule: less_induct)
  case less
  from assms(2) less.prems obtain r x1 where r: "io_read io 32 x = Some (r, x1)" by fastforce
  show ?case
  proof (cases r)
    case (Inl e)
    with r show ?thesis by (subst read_to_end_unfold) simp
  next
    case (Inr bs)
    with read_law [OF less.prems] r have law: "incoming x = bs @ incoming x1" "ok x1" by auto
    show ?thesis
    proof (cases "bs = []")
      case True
      with r Inr law show ?thesis by (subst read_to_end_unfold) simp
    next
      case False
      then have "length (incoming x1) < length (incoming x)" using law(1) by simp
      from less.hyps [OF this law(2), of "buf @ bs"] False r Inr law(1) show ?thesis
        by (subst read_to_end_unfold) auto
    qed
  qed
qed

text \<open>A value is read as soon as what has arrived is one.\<close>

lemma read_value_law:
  assumes "ok x" "\<forall>y. ok y \<longrightarrow> incoming y \<noteq> [] \<longrightarrow> (\<exists>bs y'. bs \<noteq> [] \<and> io_read io 256 y = Some (Ok bs, y'))"
    "incoming x \<noteq> []" "val (buf @ incoming x) = Ok v"
    "\<forall>pre suf. incoming x = pre @ suf \<longrightarrow> suf \<noteq> [] \<longrightarrow> (\<exists>e. val (buf @ pre) = Err e)"
  shows "\<exists>y. read_value io val buf x = Some (Ok v, y) \<and> incoming y = [] \<and> ok y"
  using assms(1,3-5)
proof (induction "length (incoming x)" arbitrary: buf x rule: less_induct)
  case less
  from assms(2) less.prems(1,2) obtain bs x1 where r: "bs \<noteq> []" "io_read io 256 x = Some (Ok bs, x1)" by blast
  with read_law [OF less.prems(1)] have law: "incoming x = bs @ incoming x1" "ok x1" by auto
  show ?case
  proof (cases "incoming x1 = []")
    case True
    with law less.prems(3) r show ?thesis
      by (subst read_value_unfold) simp
  next
    case False
    with less.prems(4) law(1) obtain e where e: "val (buf @ bs) = Err e" by blast
    have "length (incoming x1) < length (incoming x)" using law(1) r(1) by simp
    moreover have "\<forall>pre suf. incoming x1 = pre @ suf \<longrightarrow> suf \<noteq> [] \<longrightarrow> (\<exists>e. val ((buf @ bs) @ pre) = Err e)"
      using less.prems(4) law(1) by (metis append.assoc)
    ultimately have "\<exists>y. read_value io val (buf @ bs) x1 = Some (Ok v, y) \<and> incoming y = [] \<and> ok y"
      using less.hyps law False less.prems(3) by simp
    with r e show ?thesis
      by (subst read_value_unfold) simp
  qed
qed

end

text \<open>At the end of a stream every read gives nothing, and the loop goes on for ever.\<close>

lemma read_value_at_end:
  assumes "io_read io 256 x = Some (Ok [], x)" "val buf = Err e"
  shows "read_value io val buf x = None"
proof (rule ccontr)
  assume "read_value io val buf x \<noteq> None"
  then obtain res where eq: "read_value io val buf x = Some res" by blast
  let ?P = "\<lambda>i v b y res. \<not> (i = io \<and> v = val \<and> b = buf \<and> y = x)"
  have "?P io val buf x res"
  proof (rule read_value.raw_induct
      [where P = ?P and xa = "(((io, val), buf), x)", unfolded prod.case, OF _ eq])
    fix f i v b y res
    assume ih: "\<And>i v b y res. f i v b y = Some res \<Longrightarrow> ?P i v b y res"
      and one: "(case io_read i 256 y of
        None \<Rightarrow> None
      | Some (Inl e, x') \<Rightarrow> Some (Err e, x')
      | Some (Inr bs, x') \<Rightarrow>
        (case v (b @ bs) of
           Inr obj \<Rightarrow> Some (Ok obj, x')
         | Inl _ \<Rightarrow> f i v (b @ bs) x')) = Some res"
    show "?P i v b y res"
      using one ih [of io val buf x res] assms by auto
  qed
  then show False by simp
qed

section \<open>Properties\<close>


definition demo_env :: "(nat, bytes \<times> bytes) rpc_env" where
  "demo_env = \<lparr>ce_open = (\<lambda>t c. Some (Ok \<lparr>ts_typ = t, ts_inner = ([49], [])\<rparr>, c)), ce_close = (\<lambda>e m c. Some (Ok (), c)),
     ce_io = list_in_io, ce_drop = (\<lambda>x c. c + 1), ce_error_field = (\<lambda>_. Err [])\<rparr>"

definition demo_rpc :: "(rstring, bytes) rpc_request" where
  "demo_rpc = \<lparr>rq_type = 1, rq_to_json = Ok, rq_response = Ok\<rparr>"


text \<open>
  C33. A command is read once its JSON text has arrived, in however many pieces: if the
  text is a value and no shorter part of it is, the request is what the value stands for,
  and all of the text has been taken.
\<close>

theorem read_req_reads_value:
  assumes "byte_stream io ok incoming outgoing" "ok x" "incoming x \<noteq> []"
    "\<forall>y. ok y \<longrightarrow> incoming y \<noteq> [] \<longrightarrow> (\<exists>bs y'. bs \<noteq> [] \<and> io_read io 256 y = Some (Ok bs, y'))"
    "val (incoming x) = Ok v" "\<forall>pre suf. incoming x = pre @ suf \<longrightarrow> suf \<noteq> [] \<longrightarrow> (\<exists>e. val pre = Err e)"
  shows "\<exists>y. read_req io val from_value x =
      Some (case from_value v of Inl e \<Rightarrow> Err (ReqJson e) | Inr req \<Rightarrow> Ok req, y) \<and> incoming y = []"
proof -
  from byte_stream.read_value_law [OF assms(1,2,4,3), of val "[]" v] assms(5,6)
  obtain y where "read_value io val [] x = Some (Ok v, y)" "incoming y = []" by auto
  then show ?thesis by (simp add: read_req_def)
qed

theorem read_req_reads_value_witness:
  "\<exists>y. read_req list_in_io (\<lambda>b. if b = [91, 93] then Ok () else Err []) (\<lambda>v. Ok (5 :: nat)) ([91, 93], []) =
    Some (Ok 5, y) \<and> fst y = []"
proof -
  let ?val = "\<lambda>b. if b = [91, 93] then Ok () else Err []"
  have p: "\<forall>y. True \<longrightarrow> fst y \<noteq> [] \<longrightarrow> (\<exists>bs y'. bs \<noteq> [] \<and> io_read list_in_io 256 y = Some (Ok bs, y'))"
    by (auto simp: list_in_io_def)
  have i: "fst ([91, 93], []) \<noteq> []" by simp
  have v: "?val (fst ([91, 93], [])) = Ok ()" by simp
  have n: "\<forall>pre suf. fst ([91, 93], []) = pre @ suf \<longrightarrow> suf \<noteq> [] \<longrightarrow> (\<exists>e. ?val pre = Err e)"
    by (auto simp: append_eq_Cons_conv)
  from read_req_reads_value [OF list_io.byte_stream_axioms TrueI i p v n, of "\<lambda>v. Ok (5 :: nat)"] show ?thesis by simp
qed

text \<open>
  C38. A request to stop a tunnel whose stream ends before a JSON value is complete is
  never read and never refused: the loop reads nothing again and again, so \<open>accept\<close> does
  not return, and no other stream of the session is accepted.
\<close>

theorem truncated_stop_tunnel_hangs:
  assumes "ae_accept A (is_accept st) = Some (Ok ts, i)" "ts_typ ts = STOP_TUNNEL_REQ" "is_session st = Some s"
    "io_read (ae_io A) 256 (ts_inner ts) = Some (Ok part, x1)" "ae_value A part = Err e"
    "io_read (ae_io A) 256 x1 = Some (Ok [], x1)"
  shows "incoming_accept A close st w = None"
proof -
  have "read_value (ae_io A) (ae_value A) part x1 = None"
    by (rule read_value_at_end) (use assms in simp_all)
  then have "read_value (ae_io A) (ae_value A) [] (ts_inner ts) = None"
    using assms(4,5) by (subst read_value_unfold) simp
  then have "accept_turn A close ts (st\<lparr>is_accept := i\<rparr>) w = None"
    using assms(2,3) by (simp add: accept_turn_def read_req_def req_types StreamType_clamp_def clamp_def ERROR_MAX_def)
  with assms(1) show ?thesis
    by (subst incoming_accept.simps) simp
qed

text \<open>A typed session that accepts the streams of a list.\<close>

definition demo_accept_env :: "((bytes \<times> bytes) typed_stream list, bytes \<times> bytes, unit) accept_env" where
  "demo_accept_env = \<lparr>ae_accept = (\<lambda>i. case i of [] \<Rightarrow> None | ts # i' \<Rightarrow> Some (Ok ts, i')), ae_io = list_in_io,
     ae_value = (\<lambda>_. Err []), ae_stop_tunnel = (\<lambda>_. Err []), ae_header = (\<lambda>_. Ok demo_header)\<rparr>"

definition demo_incoming :: "'s option \<Rightarrow> 'i \<Rightarrow> ('i, 'x, 's) incoming_streams" where
  "demo_incoming s i = \<lparr>is_handlers = command_handlers_default, is_session = s, is_accept = i, is_spawned = []\<rparr>"

theorem truncated_stop_tunnel_hangs_witness:
  "incoming_accept demo_accept_env (\<lambda>_ _ _ w. ready w)
    (demo_incoming (Some ()) [\<lparr>ts_typ = STOP_TUNNEL_REQ, ts_inner = ([123], [])\<rparr>]) () = None"
  by (rule truncated_stop_tunnel_hangs [where ts = "\<lparr>ts_typ = STOP_TUNNEL_REQ, ts_inner = ([123], [])\<rparr>"
      and i = "[]" and part = "[123]" and e = "[]" and s = "()" and ?x1.0 = "([], [])"])
    (simp_all add: demo_accept_env_def demo_incoming_def list_in_io_def)

text \<open>Streams of commands that arrive one after the other.\<close>

inductive commands ::
  "('i, 'x, 'v) accept_env \<Rightarrow> 'i \<Rightarrow> 'x typed_stream list \<Rightarrow> 'i \<Rightarrow> bool" for A where
  commands_nil: "commands A i [] i"
| commands_cons: "ae_accept A i = Some (Ok ts, i1) \<Longrightarrow> ts_typ ts \<in> {RESTART_REQ, UPDATE_REQ, STOP_REQ} \<Longrightarrow>
    commands A i1 tss i2 \<Longrightarrow> commands A i (ts # tss) i2"

definition task_of :: "command_handlers \<Rightarrow> 'x typed_stream \<Rightarrow> 'x spawned" where
  "task_of H ts = (if ts_typ ts = RESTART_REQ then SpRestart (on_restart H) (ts_inner ts)
     else if ts_typ ts = UPDATE_REQ then SpUpdate (on_update H) (ts_inner ts)
     else SpStop (on_stop H) (ts_inner ts))"

lemma accept_command:
  assumes "ae_accept A (is_accept st) = Some (Ok ts, i)" "ts_typ ts \<in> {RESTART_REQ, UPDATE_REQ, STOP_REQ}"
  shows "incoming_accept A close st w =
    incoming_accept A close (st\<lparr>is_accept := i, is_spawned := is_spawned st @ [task_of (is_handlers st) ts]\<rparr>) w"
proof -
  have "accept_turn A close ts (st\<lparr>is_accept := i\<rparr>) w =
      ready (Loop (spawn (task_of (is_handlers st) ts) (st\<lparr>is_accept := i\<rparr>)) w)"
    using assms(2) by (auto simp: accept_turn_def task_of_def)
  with assms(1) show ?thesis
    by (subst incoming_accept.simps) (simp add: spawn_def)
qed

lemma accept_commands:
  assumes "commands A i0 tss i" "is_accept st = i0"
  shows "incoming_accept A close st w =
    incoming_accept A close (st\<lparr>is_accept := i, is_spawned := is_spawned st @ map (task_of (is_handlers st)) tss\<rparr>) w"
  using assms
proof (induction arbitrary: st rule: commands.induct)
  case (commands_nil i)
  then have "st\<lparr>is_accept := i\<rparr> = st" by (cases st) simp
  then show ?case by simp
next
  case (commands_cons i ts i1 tss i2)
  let ?st = "st\<lparr>is_accept := i1, is_spawned := is_spawned st @ [task_of (is_handlers st) ts]\<rparr>"
  have "ae_accept A (is_accept st) = Some (Ok ts, i1)"
    using commands_cons.hyps(1) commands_cons.prems by simp
  note one = accept_command [OF this commands_cons.hyps(2), of close w]
  show ?case
    unfolding one by (subst commands_cons.IH) simp_all
qed



end
