(* ===== verification/Tunnel_Props.thy ===== *)
theory Tunnel_Props
  imports Tunnel_Session Raw_Session_Props
begin

text \<open>
  The properties of the session with its tunnels: an invariant of every reachable state,
  the delivery of connections, and what a reconnect keeps and loses.
\<close>

section \<open>Requests do not panic\<close>

lemma awaiting_no_panic [simp]: "awaiting m \<noteq> Some Panic"
  by (cases m) simp_all

lemma rpc_no_panic [simp]: "rpc E R req c \<noteq> Some Panic"
  by (auto simp: rpc_def and_await_Panic_iff split: sum.splits)

lemma client_no_panic [simp]:
  "client_listen E S protocol opts extra tid ft fp c \<noteq> Some Panic"
  "client_listen_label E S labels md ft fp c \<noteq> Some Panic"
  "client_unlisten E S tid c \<noteq> Some Panic"
  "client_close E c \<noteq> Some Panic"
  by (auto simp: client_listen_def listen_variant_def client_listen_label_def client_unlisten_def
      client_close_def and_await_Panic_iff split: bind_opts.splits)

text \<open>What an awaited sequence did, step by step.\<close>

lemma and_awaitE:
  assumes "and_await m f = Some (Value b)"
  obtains a where "m = Some (Value a)" "f a = Some (Value b)"
  using assms by auto

lemma and_await_PanicE:
  assumes "and_await m f = Some Panic"
  obtains "m = Some Panic" | a where "m = Some (Value a)" "f a = Some Panic"
  using assms by (auto simp: and_await_Panic_iff)

section \<open>The invariant\<close>

text \<open>
  A tunnel with a protocol has the options it was bound with, the listeners have different
  channels, which are in use, and there are finitely many tunnels.
\<close>

definition tx_inj :: "tunnel_conns \<Rightarrow> bool" where
  "tx_inj m \<longleftrightarrow> (\<forall>i j s t. m i = Some s \<longrightarrow> m j = Some t \<longrightarrow> bt_tx s = bt_tx t \<longrightarrow> i = j)"

definition bound_ok :: "nat \<Rightarrow> bound_tunnel \<Rightarrow> bool" where
  "bound_ok next t \<longleftrightarrow> (bt_proto t \<noteq> [] \<longrightarrow> bt_opts t \<noteq> None) \<and> bt_tx t < next"

definition conns_ok :: "nat \<Rightarrow> tunnel_conns \<Rightarrow> bool" where
  "conns_ok next m \<longleftrightarrow> finite (dom m) \<and> tx_inj m \<and> (\<forall>t \<in> ran m. bound_ok next t)"

abbreviation world_ok :: "('n, 't, 'io, 'h, 'c, 'x) session_world \<Rightarrow> bool" where
  "world_ok W \<equiv> conns_ok (sw_next W) (tunnels W)"

definition map_order :: "(tunnel_conns \<Rightarrow> rstring list) \<Rightarrow> tunnel_conns \<Rightarrow> bool" where
  "map_order order m \<longleftrightarrow> set (order m) = dom m \<and> distinct (order m)"

lemma conns_ok_empty [simp]: "conns_ok n Map.empty"
  by (simp add: conns_ok_def tx_inj_def)

lemma conns_ok_remove: "conns_ok n m \<Longrightarrow> conns_ok n (m(tid := None))"
  by (auto simp: conns_ok_def tx_inj_def ran_def split: if_splits)

lemmas conns_ok_remove' = conns_ok_remove [unfolded fun_upd_def]

lemma conns_ok_insert:
  "conns_ok n m \<Longrightarrow> bound_ok (Suc n) t \<Longrightarrow> bt_tx t = n \<Longrightarrow> conns_ok (Suc n) (m(tid \<mapsto> t))"
  by (fastforce simp: conns_ok_def tx_inj_def bound_ok_def ran_def split: if_splits)

lemmas conns_ok_insert' = conns_ok_insert [unfolded fun_upd_def]

lemma conns_ok_mono: "conns_ok n m \<Longrightarrow> n \<le> k \<Longrightarrow> conns_ok k m"
  by (auto simp: conns_ok_def bound_ok_def)

lemma on_tunnels_simps [simp]:
  "tunnels (on_tunnels f W) = f (tunnels W)" "sw_next (on_tunnels f W) = sw_next W"
  "sw_chans (on_tunnels f W) = sw_chans W" "si_closed (sw_inner (on_tunnels f W)) = si_closed (sw_inner W)"
  "tunnels (on_client c W) = tunnels W" "sw_next (on_client c W) = sw_next W"
  "sw_chans (on_client c W) = sw_chans W"
  by (simp_all add: on_tunnels_def on_client_def)

lemma tunnel_send_world:
  "tunnel_send tx item W = ready (sent, W1) \<Longrightarrow> sw_inner W1 = sw_inner W \<and> sw_next W1 = sw_next W"
  by (auto simp: tunnel_send_def Let_def split: if_splits)

lemma tunnel_send_no_panic [simp]: "tunnel_send tx item W \<noteq> Some Panic"
  by (simp add: tunnel_send_def Let_def)

lemma close_with_error_ok:
  assumes "close_tunnel_with_error tid err W = ready W1" "world_ok W"
  shows "world_ok W1"
  using assms
  by (auto simp: close_tunnel_with_error_def conns_ok_remove conns_ok_remove' dest!: tunnel_send_world split: option.splits)

lemma start_tunnel_ok:
  assumes "start_tunnel E S cfg W = ready (r, W1)" "world_ok W"
  shows "world_ok W1"
  using assms conns_ok_insert' [of "sw_next W" "tunnels W"] conns_ok_mono [of "sw_next W" "tunnels W" "Suc (sw_next W)"]
  by (auto simp: start_tunnel_def chan_open_def chan_drop_def Let_def bound_ok_def simp del: and_await_Value_iff
      elim!: and_awaitE split: if_splits option.splits sum.splits)

lemma close_tunnel_ok:
  assumes "close_tunnel E S tid W = ready (r, W1)" "world_ok W"
  shows "world_ok W1"
proof -
  from assms(1) obtain q c where "client_unlisten E S tid (si_client (sw_inner W)) = ready (q, c)"
    by (auto simp: close_tunnel_def)
  with assms show ?thesis
    by (cases q) (auto simp: close_tunnel_def conns_ok_remove conns_ok_remove')
qed

lemma tunnel_close_ok:
  assumes "tunnel_close E S tn W = ready (r, W1)" "world_ok W"
  shows "world_ok W1"
proof -
  from assms(1) obtain q W0 where "close_tunnel E S (ti_id (tn_info tn)) W = ready (q, W0)"
    by (auto simp: tunnel_close_def)
  with close_tunnel_ok [OF this assms(2)] assms(1) show ?thesis
    by (cases q) (auto simp: tunnel_close_def split: option.splits)
qed

lemma session_close_ok:
  assumes "session_close E W = ready (r, W1)" "world_ok W"
  shows "world_ok W1"
  using assms by (auto simp: session_close_def)

lemma tunnel_drop_ok: "tunnel_drop tn W = (tid, W1) \<Longrightarrow> world_ok W \<Longrightarrow> world_ok W1"
  by (auto simp: tunnel_drop_def chan_drop_def split: option.splits)

lemma poll_next_ok: "tunnel_poll_next tn W = (r, W1) \<Longrightarrow> world_ok W \<Longrightarrow> world_ok W1"
  by (auto simp: tunnel_poll_next_def Let_def split: option.splits list.splits)

text \<open>\<open>accept\<close> changes the world only by closing tunnels.\<close>

lemma accept_turn_keeps:
  assumes "\<And>s tid err w w1. close s tid err w = ready w1 \<Longrightarrow> P w \<Longrightarrow> P w1" "P w"
    "accept_turn A close stream st w = ready t"
  shows "case t of Loop _ w1 \<Rightarrow> P w1 | Stop _ _ w1 \<Rightarrow> P w1"
  using assms(2,3)
  by (auto simp: accept_turn_def Let_def simp del: and_await_Value_iff
      elim!: and_awaitE split: if_splits option.splits sum.splits) (erule assms(1), assumption)

lemma incoming_accept_keeps:
  fixes close :: "'s \<Rightarrow> rstring \<Rightarrow> accept_error \<Rightarrow> 'w \<Rightarrow> 'w async" and A :: "('i, 'x, 'v) accept_env"
    and st :: "('i, 'x, 's) incoming_streams"
  assumes "\<And>s tid err w w1. close s tid err w = ready w1 \<Longrightarrow> P w \<Longrightarrow> P w1"
    "incoming_accept A close st w = ready (r, st1, w1)" "P w"
  shows "P w1"
proof -
  let ?P = "\<lambda>(A' :: ('i, 'x, 'v) accept_env) (cl :: 's \<Rightarrow> rstring \<Rightarrow> accept_error \<Rightarrow> 'w \<Rightarrow> 'w async)
      (st' :: ('i, 'x, 's) incoming_streams) w (res :: ((raw_accept_error, proxy_header \<times> 'x typed_stream) result \<times>
        ('i, 'x, 's) incoming_streams \<times> 'w) ran). cl = close \<longrightarrow> P w \<longrightarrow>
      (\<forall>r st1 w1. res = Value (r, st1, w1) \<longrightarrow> P w1)"
  have "?P A close st w (Value (r, st1, w1))"
  proof (rule incoming_accept.raw_induct [where P = ?P, OF _ assms(2)])
    fix f and A :: "('i, 'x, 'v) accept_env" and cl :: "'s \<Rightarrow> rstring \<Rightarrow> accept_error \<Rightarrow> 'w \<Rightarrow> 'w async"
      and st :: "('i, 'x, 's) incoming_streams" and w res
    assume ih: "\<And>A cl st w res. f A cl st w = Some res \<Longrightarrow> ?P A cl st w res"
      and one: "(case ae_accept A (is_accept st) of
        None \<Rightarrow> None
      | Some (Inl e, i) \<Rightarrow> ready (Err (RaTransport e), st\<lparr>is_accept := i\<rparr>, w)
      | Some (Inr stream, i) \<Rightarrow>
        (case accept_turn A cl stream (st\<lparr>is_accept := i\<rparr>) w of
           None \<Rightarrow> None
         | Some Panic \<Rightarrow> Some Panic
         | Some (Value (Stop r st1 w1)) \<Rightarrow> ready (r, st1, w1)
         | Some (Value (Loop st1 w1)) \<Rightarrow> f A cl st1 w1)) = Some res"
    show "?P A cl st w res"
    proof (intro impI allI)
      fix r st1 w1
      assume a: "cl = close" "P w" "res = Value (r, st1, w1)"
      from one a(3) obtain got i where g: "ae_accept A (is_accept st) = Some (got, i)"
        by (cases "ae_accept A (is_accept st)") auto
      show "P w1"
      proof (cases got)
        case (Inl e)
        with one g a show ?thesis by simp
      next
        case (Inr stream)
        with one g a obtain t where t: "accept_turn A close stream (st\<lparr>is_accept := i\<rparr>) w = ready t"
          by (auto split: option.splits ran.splits)
        have k: "case t of Loop _ w1 \<Rightarrow> P w1 | Stop _ _ w1 \<Rightarrow> P w1"
          by (rule accept_turn_keeps [where P = P, OF _ a(2) t]) (rule assms(1))
        show ?thesis
        proof (cases t)
          case (Loop st2 w2)
          with one g Inr t a have "f A close st2 w2 = Some res" by simp
          from ih [OF this] k Loop a show ?thesis by simp
        next
          case (Stop r2 st2 w2)
          with one g Inr t a k show ?thesis by simp
        qed
      qed
    qed
  qed
  with assms(3) show ?thesis by simp
qed

lemma deliver_ok:
  assumes "deliver parse_addr header stream W = ready W1" "world_ok W"
  shows "world_ok W1"
  using assms
  by (auto simp: deliver_def conns_ok_remove conns_ok_remove' dest!: tunnel_send_world split: option.splits if_splits)

lemma accept_one_ok:
  assumes "accept_one A parse_addr st W = ready (r, st1, W1)" "world_ok W"
  shows "world_ok W1"
proof -
  from assms(1) obtain q st2 W0 where q: "incoming_accept A (\<lambda>_. close_tunnel_with_error) st W = ready (q, st2, W0)"
    by (auto simp: accept_one_def simp del: and_await_Value_iff elim!: and_awaitE)
  with assms(1) have d: "W1 = W0 \<or> (\<exists>header stream. deliver parse_addr header stream W0 = ready W1)"
    by (auto simp: accept_one_def simp del: and_await_Value_iff elim!: and_awaitE
        split: sum.splits raw_accept_error.splits)
  have "world_ok W0"
    by (rule incoming_accept_keeps [where P = world_ok, OF _ q assms(2)]) (rule close_with_error_ok)
  with d deliver_ok show ?thesis by blast
qed

section \<open>Rebinding\<close>

lemma conns_ok_add:
  "conns_ok n m \<Longrightarrow> bound_ok n t \<Longrightarrow> \<forall>s \<in> ran m. bt_tx s \<noteq> bt_tx t \<Longrightarrow> conns_ok n (m(k \<mapsto> t))"
  unfolding conns_ok_def tx_inj_def ran_def by (auto split: if_splits)

lemma rebind_no_panic:
  assumes "conns_ok n old"
  shows "rebind E S old ids c new \<noteq> Some Panic"
proof (induction ids arbitrary: c new)
  case (Cons tid ids)
  show ?case
  proof (cases "old tid")
    case None
    with Cons show ?thesis by simp
  next
    case (Some tun)
    with assms have "bt_proto tun \<noteq> [] \<longrightarrow> bt_opts tun \<noteq> None"
      by (auto simp: conns_ok_def bound_ok_def ran_def)
    with Some Cons show ?thesis
      by (auto elim!: and_await_PanicE split: sum.splits)
  qed
qed simp

lemma rebind_ok:
  assumes "rebind E S old ids c new = ready (Ok m, c1)" "conns_ok n old" "distinct ids" "conns_ok n new"
    "\<forall>i \<in> set ids. \<forall>t. old i = Some t \<longrightarrow> (\<forall>s \<in> ran new. bt_tx s \<noteq> bt_tx t)"
  shows "conns_ok n m"
  using assms
proof (induction ids arbitrary: c new)
  case Nil
  then show ?case by simp
next
  case (Cons tid ids)
  show ?case
  proof (cases "old tid")
    case None
    with Cons show ?thesis by simp
  next
    case (Some tun)
    have tun: "bound_ok n tun" using Some Cons.prems(2) by (auto simp: conns_ok_def ran_def)
    have later: "conns_ok n (new(k \<mapsto> tun)) \<and>
        (\<forall>i \<in> set ids. \<forall>t. old i = Some t \<longrightarrow> (\<forall>s \<in> ran (new(k \<mapsto> tun)). bt_tx s \<noteq> bt_tx t))" for k
    proof
      show "conns_ok n (new(k \<mapsto> tun))"
        using conns_ok_add [OF Cons.prems(4) tun] Cons.prems(5) Some by simp
      have "ran (new(k \<mapsto> tun)) \<subseteq> insert tun (ran new)" by (auto simp: ran_def)
      moreover have "old i = Some t \<Longrightarrow> i \<in> set ids \<Longrightarrow> bt_tx tun \<noteq> bt_tx t" for i t
        using Cons.prems(2,3) Some by (auto simp: conns_ok_def tx_inj_def)
      ultimately show "\<forall>i \<in> set ids. \<forall>t. old i = Some t \<longrightarrow> (\<forall>s \<in> ran (new(k \<mapsto> tun)). bt_tx s \<noteq> bt_tx t)"
        using Cons.prems(5) by fastforce
    qed
    from Cons.prems(1) Some obtain k c2 where "rebind E S old ids c2 (new(k \<mapsto> tun)) = ready (Ok m, c1)"
      by (auto simp del: and_await_Value_iff elim!: and_awaitE split: if_splits option.splits sum.splits)
    from Cons.IH [OF this Cons.prems(2) _ conjunct1 [OF later] conjunct2 [OF later]] Cons.prems(3) show ?thesis
      by simp
  qed
qed

text \<open>Tunnels with a protocol are bound again under their own identifiers.\<close>

lemma rebind_endpoints:
  assumes "rebind E S old ids c new = ready (Ok m, c1)" "\<forall>t \<in> ran old. bt_proto t \<noteq> []"
  shows "m = new ++ (old |` set ids)"
  using assms(1)
proof (induction ids arbitrary: c new)
  case Nil
  then show ?case by simp
next
  case (Cons tid ids)
  show ?case
  proof (cases "old tid")
    case None
    with Cons.IH [of c new] Cons.prems have "m = new ++ old |` set ids" by simp
    with None show ?thesis by (auto simp: fun_eq_iff map_add_def restrict_map_def)
  next
    case (Some tun)
    with assms(2) have "bt_proto tun \<noteq> []" by (auto simp: ran_def)
    with Some Cons.prems obtain c2 where "rebind E S old ids c2 (new(tid \<mapsto> tun)) = ready (Ok m, c1)"
      by (auto simp del: and_await_Value_iff elim!: and_awaitE split: option.splits sum.splits)
    from Cons.IH [OF this] Some show ?thesis
      by (auto simp: fun_eq_iff map_add_def restrict_map_def)
  qed
qed

lemma connect_inner_fresh:
  assumes "connect_inner E S K B err net = ready (Ok (inner, incoming), net1)"
  shows "si_tunnels inner = Map.empty \<and> \<not> si_closed inner \<and> is_session incoming = None \<and> is_spawned incoming = []"
  using assms
  by (auto simp: connect_inner_def raw_session_start_def simp del: and_await_Value_iff elim!: and_awaitE
      split: sum.splits list.splits prod.splits)

lemma try_reconnect_cases:
  fixes W :: "('n, 't, 'io, 'h, 'c, 'x) session_world" and K :: "('t, 'io, 'h, 'c, 'i) connect_env"
    and r :: "(connect_error, ('i, 'x, unit) incoming_streams) result"
  assumes "try_reconnect E S K order err W net = ready (r, W1, net1)"
  obtains (failed) e where "r = Err e" "W1 = W"
  | (rebound) incoming inner m c2 where "r = Ok incoming" "\<not> si_closed (sw_inner W)"
      "connect_inner E S K (si_builder (sw_inner W)) err net = ready (Ok (inner, incoming), net1)"
      "rebind E S (tunnels W) (order (tunnels W)) (si_client inner) Map.empty = ready (Ok m, c2)"
      "W1 = W\<lparr>sw_inner := inner\<lparr>si_client := c2, si_tunnels := m\<rparr>\<rparr>"
proof (cases "si_closed (sw_inner W)")
  case True
  with assms failed show thesis by (auto simp: try_reconnect_def)
next
  case False
  with assms obtain n1 and q :: "(connect_error, ('n, 't, 'io, 'h, 'c) session_inner \<times> ('i, 'x, unit) incoming_streams) result"
    where q: "connect_inner E S K (si_builder (sw_inner W)) err net = ready (q, n1)"
    by (auto simp: try_reconnect_def simp del: and_await_Value_iff elim!: and_awaitE)
  show thesis
  proof (cases q)
    case (Inl e)
    with assms q False failed show thesis by (auto simp: try_reconnect_def)
  next
    case (Inr p)
    obtain inner incoming where p: "p = (inner, incoming)" by fastforce
    note fresh = connect_inner_fresh [OF q [unfolded Inr p]]
    with assms q False Inr p obtain s c2 where
      s: "rebind E S (tunnels W) (order (tunnels W)) (si_client inner) Map.empty = ready (s, c2)"
      by (auto simp: try_reconnect_def simp del: and_await_Value_iff elim!: and_awaitE)
    have eq: "try_reconnect E S K order err W net = ready (case s of
        Inl e \<Rightarrow> (Err (CeRebind e), W, n1)
      | Inr m \<Rightarrow> (Ok incoming, W\<lparr>sw_inner := inner\<lparr>si_client := c2, si_tunnels := m\<rparr>\<rparr>, n1))"
      using q False Inr p fresh s by (simp add: try_reconnect_def)
    show thesis
    proof (cases s)
      case (Inl e)
      with eq assms have "r = Err (CeRebind e)" "W1 = W" by simp_all
      then show thesis by (rule failed)
    next
      case (Inr m)
      with eq assms have "r = Ok incoming" "W1 = W\<lparr>sw_inner := inner\<lparr>si_client := c2, si_tunnels := m\<rparr>\<rparr>" "net1 = n1"
        by simp_all
      with s q False \<open>q = Ok p\<close> p Inr show thesis by (intro rebound) simp_all
    qed
  qed
qed

lemma try_reconnect_ok:
  assumes "try_reconnect E S K order err W net = ready (r, W1, net1)" "map_order order (tunnels W)" "world_ok W"
  shows "world_ok W1"
proof (rule try_reconnect_cases [OF assms(1)])
  assume "W1 = W"
  with assms(3) show ?thesis by simp
next
  fix inner c2 m
  assume r: "rebind E S (tunnels W) (order (tunnels W)) (si_client inner) Map.empty = ready (Ok m, c2)"
    and W1: "W1 = W\<lparr>sw_inner := inner\<lparr>si_client := c2, si_tunnels := m\<rparr>\<rparr>"
  have "distinct (order (tunnels W))"
    using assms(2) by (simp add: map_order_def)
  from rebind_ok [OF r assms(3) this] W1 show ?thesis by simp
qed

section \<open>Reachable sessions\<close>

inductive world_step ::
  "('i, 'x, 'v) accept_env \<Rightarrow> ('c, 'y) rpc_env \<Rightarrow> serde \<Rightarrow> ('t, 'io, 'h, 'c, 'i) connect_env
     \<Rightarrow> (rstring \<Rightarrow> sock_addr option) \<Rightarrow> ('n, 't, 'io, 'h, 'c, 'x) session_world
     \<Rightarrow> ('n, 't, 'io, 'h, 'c, 'x) session_world \<Rightarrow> bool"
  for A E S K parse_addr where
  ws_start: "start_tunnel E S cfg W = ready (r, W1) \<Longrightarrow> world_step A E S K parse_addr W W1"
| ws_close: "close_tunnel E S tid W = ready (r, W1) \<Longrightarrow> world_step A E S K parse_addr W W1"
| ws_tunnel_close: "tunnel_close E S tn W = ready (r, W1) \<Longrightarrow> world_step A E S K parse_addr W W1"
| ws_drop: "tunnel_drop tn W = (tid, W1) \<Longrightarrow> world_step A E S K parse_addr W W1"
| ws_session_close: "session_close E W = ready (r, W1) \<Longrightarrow> world_step A E S K parse_addr W W1"
| ws_listen: "tunnel_poll_next tn W = (q, W1) \<Longrightarrow> world_step A E S K parse_addr W W1"
| ws_accept: "accept_one A parse_addr st W = ready (r, st1, W1) \<Longrightarrow> world_step A E S K parse_addr W W1"
| ws_reconnect: "map_order order (tunnels W) \<Longrightarrow> try_reconnect E S K order err W net = ready (q, W1, net1) \<Longrightarrow>
    world_step A E S K parse_addr W W1"

definition world_start :: "('n, 't, 'io, 'h, 'c, 'x) session_world \<Rightarrow> bool" where
  "world_start W \<longleftrightarrow> tunnels W = Map.empty"

interpretation session_inv: machine_inv world_start "world_step A E S K parse_addr" world_ok
  by unfold_locales (auto simp: world_start_def intro: start_tunnel_ok close_tunnel_ok tunnel_close_ok
      tunnel_drop_ok session_close_ok poll_next_ok accept_one_ok try_reconnect_ok elim!: world_step.cases)

section \<open>Telling the listeners\<close>

lemma broadcast_post:
  assumes "distinct (map bt_tx tuns)"
    "\<forall>t \<in> set tuns. tc_open (sw_chans W (bt_tx t)) \<and> length (tc_queue (sw_chans W (bt_tx t))) < CHAN_CAP"
  shows "\<exists>W1. broadcast err tuns W = ready W1 \<and> sw_inner W1 = sw_inner W \<and>
    (\<forall>tx. sw_chans W1 tx = (if tx \<in> bt_tx ` set tuns
       then (sw_chans W tx)\<lparr>tc_queue := tc_queue (sw_chans W tx) @ [Err err]\<rparr> else sw_chans W tx))"
  using assms
proof (induction tuns arbitrary: W)
  case Nil
  then show ?case by simp
next
  case (Cons t tuns)
  let ?ch = "sw_chans W (bt_tx t)"
  let ?W = "W\<lparr>sw_chans := (sw_chans W)(bt_tx t := ?ch\<lparr>tc_queue := tc_queue ?ch @ [Err err]\<rparr>)\<rparr>"
  have send: "tunnel_send (bt_tx t) (Err err) W = ready (True, ?W)"
    using Cons.prems(2) by (simp add: tunnel_send_def Let_def)
  have "\<forall>u \<in> set tuns. tc_open (sw_chans ?W (bt_tx u)) \<and> length (tc_queue (sw_chans ?W (bt_tx u))) < CHAN_CAP"
    using Cons.prems by (fastforce simp: image_iff)
  from Cons.IH [OF _ this] Cons.prems(1) obtain W1 where
    w: "broadcast err tuns ?W = ready W1" "sw_inner W1 = sw_inner ?W"
      "\<forall>tx. sw_chans W1 tx = (if tx \<in> bt_tx ` set tuns
         then (sw_chans ?W tx)\<lparr>tc_queue := tc_queue (sw_chans ?W tx) @ [Err err]\<rparr> else sw_chans ?W tx)"
    by auto
  moreover have "bt_tx t \<notin> bt_tx ` set tuns" using Cons.prems(1) by auto
  ultimately show ?case
    using send by (intro exI [of _ W1]) (simp add: image_iff)
qed

lemma drained_all:
  assumes "map_order order m" "conns_ok n m"
  shows "set (drained order m) = ran m" "distinct (map bt_tx (drained order m))"
proof -
  have o: "set (order m) = dom m" "distinct (order m)"
    using assms by (simp_all add: map_order_def)
  show "set (drained order m) = ran m"
    using o(1) by (force simp: drained_def List.map_filter_def ran_def dom_def)
  have "distinct (map bt_tx (List.map_filter m ids))" if "distinct ids" for ids
    using that
  proof (induction ids)
    case (Cons i ids)
    have "bt_tx u \<noteq> bt_tx t" if "m i = Some t" "u \<in> set (List.map_filter m ids)" for t u
      using Cons.prems assms(2) that by (fastforce simp: conns_ok_def tx_inj_def List.map_filter_def)
    with Cons show ?case
      by (cases "m i") (force+)
  qed (simp add: List.map_filter_def)
  from this [OF o(2)] show "distinct (map bt_tx (drained order m))" by (simp add: drained_def)
qed

section \<open>Properties\<close>


definition demo_connect :: "(unit, unit, unit, nat, (bytes \<times> bytes) typed_stream list) connect_env" where
  "demo_connect = \<lparr>ke_ca = [], ke_pem = (\<lambda>_. []), ke_tls = (\<lambda>_. ()), ke_os = str ''linux'', ke_arch = [],
     ke_start = (\<lambda>_ _. ready (Ok (0, [])))\<rparr>"

definition demo_auth_resp :: auth_resp where
  "demo_auth_resp = \<lparr>ar_version = [], ar_client_id = str ''c1'', ar_extra = \<lparr>rx_version = None, rx_region = None,
     rx_cookie = None, rx_account_name = None, rx_session_duration = None, rx_plan_name = None, rx_banner = None\<rparr>\<rparr>"

definition demo_serde :: serde where
  "demo_serde = \<lparr>
     sd_auth = \<lparr>rq_type = 0, rq_to_json = (\<lambda>_. Ok []), rq_response = (\<lambda>_. Ok demo_auth_resp)\<rparr>,
     sd_http = \<lparr>rq_type = 0, rq_to_json = (\<lambda>_. Ok []), rq_response = (\<lambda>_. Err [])\<rparr>,
     sd_tcp = \<lparr>rq_type = 0, rq_to_json = (\<lambda>_. Ok []), rq_response = (\<lambda>_. Ok
       \<lparr>br_client_id = [], br_url = [], br_proto = [], br_bind_opts = tcp_endpoint_default,
        br_extra_token = secret_string_default\<rparr>)\<rparr>,
     sd_tls = \<lparr>rq_type = 0, rq_to_json = (\<lambda>_. Ok []), rq_response = (\<lambda>_. Err [])\<rparr>,
     sd_label = \<lparr>rq_type = 0, rq_to_json = (\<lambda>_. Ok []), rq_response = (\<lambda>_. Ok (str ''t2''))\<rparr>,
     sd_unbind = \<lparr>rq_type = 0, rq_to_json = (\<lambda>_. Ok []), rq_response = (\<lambda>_. Ok ())\<rparr>\<rparr>"

definition demo_builder :: "(unit, unit, unit, unit) session_builder" where
  "demo_builder = builder_default (str ''0.0'') (\<lambda>_ _ _ _ n. ready (Ok (), n))"

definition demo_world :: "tunnel_conns \<Rightarrow> bool \<Rightarrow> (unit, unit, unit, unit, nat, bytes \<times> bytes) session_world" where
  "demo_world m closed = \<lparr>sw_inner = \<lparr>si_client = 0, si_closed = closed, si_tunnels = m, si_builder = demo_builder\<rparr>,
     sw_chans = (\<lambda>_. \<lparr>tc_queue = [], tc_open = True\<rparr>), sw_next = 1\<rparr>"

text \<open>Every request of the demonstration is answered with one byte.\<close>

lemma demo_rpc_answer:
  assumes "rq_to_json R req = Ok []"
  shows "rpc demo_env R req c = ready (case rq_response R [49] of Inl e \<Rightarrow> Err (RpcInvalidResponse e) | Inr r \<Rightarrow> Ok r, Suc c)"
proof -
  have "read_to_end list_in_io [49] ([], []) = Some (Ok [49], ([], []))"
    by (subst read_to_end_unfold) (simp add: list_in_io_def)
  then have "read_to_end list_in_io [] ([49], []) = Some (Ok [49], ([], []))"
    by (subst read_to_end_unfold) (simp add: list_in_io_def)
  with assms show ?thesis
    by (simp add: rpc_def demo_env_def rpc_decode_def as_bytes_def write_all.simps)
qed

lemma demo_requests:
  "client_auth demo_env demo_serde tid extra c = ready (Ok demo_auth_resp, Suc c)"
  "client_listen_label demo_env demo_serde labels md ft fp c = ready (Ok (str ''t2''), Suc c)"
  "client_unlisten demo_env demo_serde tid c = ready (Ok (), Suc c)"
  "client_listen demo_env demo_serde p (BoTcp o1) bextra tid ft fp c = ready (Ok \<lparr>br_client_id = [], br_url = [],
     br_proto = [], br_bind_opts = BoTcp tcp_endpoint_default, br_extra_token = secret_string_default\<rparr>, Suc c)"
  by (simp_all add: client_auth_def client_listen_label_def client_unlisten_def client_listen_def listen_variant_def
      demo_rpc_answer auth_rpc_def bind_rpc_def label_rpc_def unbind_rpc_def demo_serde_def)

definition demo_inner :: "(unit, unit, unit, unit, nat) session_inner" where
  "demo_inner = \<lparr>si_client = 1, si_closed = False, si_tunnels = Map.empty,
     si_builder = demo_builder\<lparr>sb_id := Some (str ''c1'')\<rparr>\<rparr>"

lemma demo_connects:
  "connect_inner demo_env demo_serde demo_connect demo_builder err () =
    ready (Ok (demo_inner, \<lparr>is_handlers = command_handlers_default, is_session = None, is_accept = [], is_spawned = []\<rparr>), ())"
  by (simp add: connect_inner_def demo_builder_def builder_default_def demo_inner_def raw_session_start_def
      demo_connect_def demo_requests demo_auth_resp_def)




text \<open>The connections of the demonstration arrive with an empty identifier.\<close>

definition demo_tunnel :: "rstring \<Rightarrow> bind_opts option \<Rightarrow> bound_tunnel" where
  "demo_tunnel p opts = \<lparr>bt_proto = p, bt_opts = opts,
     bt_extra = \<lparr>be_token = secret_string_default, be_ip_policy_ref = [], be_metadata = [], be_bindings = [],
       be_pooling_enabled = False\<rparr>,
     bt_labels = Map.empty, bt_forwards_to = [], bt_forwards_proto = [], bt_verify_upstream_tls = False, bt_tx = 0\<rparr>"

definition demo_proxy :: "bytes \<times> bytes" where
  "demo_proxy = ([2, 0, 0, 0, 0, 0, 0, 0, 123, 125, 7], [])"

lemma demo_proxy_header:
  "read_proxy_header list_in_io (\<lambda>s. Ok demo_header) demo_proxy = ready (Ok demo_header, ([7], []))"
proof -
  have "read_exact list_in_io 8 demo_proxy = Some (Ok [2, 0, 0, 0, 0, 0, 0, 0], ([123, 125, 7], []))"
    "read_exact list_in_io 2 ([123, 125, 7], []) = Some (Ok [123, 125], ([7], []))"
    by (simp_all add: read_exact.simps list_in_io_def demo_proxy_def)
  moreover have "from_utf8 [123, 125] = Some (str ''{}'')"
    using from_utf8_as_bytes [of "str ''{}''"] by (simp add: as_bytes_def str_def utf8_char_def scalar_def)
  ultimately show ?thesis
    by (simp add: read_proxy_header_def i64_from_le_bytes_def)
qed

lemma demo_accepts:
  "incoming_accept demo_accept_env close (demo_incoming s [\<lparr>ts_typ = PROXY_REQ, ts_inner = demo_proxy\<rparr>]) w =
    ready (Ok (demo_header, \<lparr>ts_typ = PROXY_REQ, ts_inner = ([7], [])\<rparr>), demo_incoming s [], w)"
  by (subst incoming_accept.simps) (simp add: demo_accept_env_def demo_incoming_def accept_turn_def demo_proxy_header
      req_types StreamType_clamp_def clamp_def ERROR_MAX_def)




text \<open>
  After a reconnect the incoming streams do not know their session: a request of the
  server to stop a tunnel is accepted, not even read, and has no effect.
\<close>

theorem stop_requests_lost_after_reconnect:
  assumes "try_reconnect E S K order err W net = ready (Ok incoming, W1, net1)" "ts_typ stream = STOP_TUNNEL_REQ"
  shows "accept_turn A (\<lambda>_. close_tunnel_with_error) stream incoming W1 = ready (Loop incoming W1)"
proof (rule try_reconnect_cases [OF assms(1)])
  fix incoming' inner m c2
  assume "connect_inner E S K (si_builder (sw_inner W)) err net = ready (Ok (inner, incoming'), net1)"
    and "Ok incoming = Ok incoming'"
  with connect_inner_fresh have "is_session incoming = None" by fastforce
  with assms(2) show ?thesis
    by (simp add: accept_turn_def req_types StreamType_clamp_def clamp_def ERROR_MAX_def)
qed simp

theorem stop_requests_lost_after_reconnect_witness:
  "accept_turn demo_accept_env (\<lambda>_. close_tunnel_with_error) \<lparr>ts_typ = STOP_TUNNEL_REQ, ts_inner = demo_proxy\<rparr>
      (demo_incoming (None :: unit option) []) ((demo_world Map.empty False)\<lparr>sw_inner := demo_inner\<rparr>) =
    ready (Loop (demo_incoming None []) ((demo_world Map.empty False)\<lparr>sw_inner := demo_inner\<rparr>))"
proof -
  have "try_reconnect demo_env demo_serde demo_connect (\<lambda>_. []) None (demo_world Map.empty False) () =
      ready (Ok (demo_incoming None []), (demo_world Map.empty False)\<lparr>sw_inner := demo_inner\<rparr>, ())"
    by (simp add: try_reconnect_def demo_world_def demo_connects demo_inner_def demo_incoming_def)
  from stop_requests_lost_after_reconnect [OF this, of "\<lparr>ts_typ = STOP_TUNNEL_REQ, ts_inner = demo_proxy\<rparr>" demo_accept_env]
  show ?thesis
    by simp
qed

text \<open>
  A labeled tunnel to which the server gives a new identifier at a reconnect is known
  to the session only under the new one, while its listener goes on with the old: closing
  it removes nothing, so the session goes on to hold its channel.
\<close>

theorem relabeled_tunnel_not_closed:
  assumes "connect_inner E S K (si_builder (sw_inner W)) err net = ready (Ok (inner, incoming), net1)"
    "client_listen_label E S (bt_labels tun) (be_metadata (bt_extra tun)) (bt_forwards_to tun)
       (bt_forwards_proto tun) (si_client inner) = ready (Ok new, c)"
    "new \<noteq> []" "new \<noteq> tid" "tunnels W = [tid \<mapsto> tun]" "bt_proto tun = []" "order (tunnels W) = [tid]"
    "\<not> si_closed (sw_inner W)"
  shows "\<exists>W1. try_reconnect E S K order err W net = ready (Ok incoming, W1, net1) \<and> tunnels W1 = [new \<mapsto> tun] \<and>
    (\<forall>r W2. close_tunnel E S tid W1 = ready (r, W2) \<longrightarrow> tunnels W2 = [new \<mapsto> tun] \<and> tx_held W2 (bt_tx tun))"
proof -
  let ?W1 = "W\<lparr>sw_inner := inner\<lparr>si_client := c, si_tunnels := [new \<mapsto> tun]\<rparr>\<rparr>"
  have "rebind E S (tunnels W) (order (tunnels W)) (si_client inner) (si_tunnels inner) = ready (Ok [new \<mapsto> tun], c)"
    using assms(2-7) connect_inner_fresh [OF assms(1)] by simp
  then have "try_reconnect E S K order err W net = ready (Ok incoming, ?W1, net1)"
    using assms(1,8) by (simp add: try_reconnect_def)
  moreover have "tunnels W2 = [new \<mapsto> tun]" if "close_tunnel E S tid ?W1 = ready (r, W2)" for r W2
  proof -
    from that obtain q c1 where "client_unlisten E S tid (si_client (sw_inner ?W1)) = ready (q, c1)"
      by (auto simp: close_tunnel_def)
    with that assms(4) show ?thesis
      by (cases q) (auto simp: close_tunnel_def fun_eq_iff)
  qed
  ultimately show ?thesis
    by (intro exI [of _ ?W1]) (auto simp: tx_held_def)
qed

theorem relabeled_tunnel_not_closed_witness:
  "\<exists>W1. try_reconnect demo_env demo_serde demo_connect (\<lambda>_. [str ''t1'']) None
      (demo_world [str ''t1'' \<mapsto> demo_tunnel [] None] False) () = ready (Ok (demo_incoming None []), W1, ()) \<and>
    (\<exists>W2. close_tunnel demo_env demo_serde (str ''t1'') W1 = ready (Ok (), W2) \<and>
       tunnels W2 = [str ''t2'' \<mapsto> demo_tunnel [] None])"
proof -
  let ?W = "demo_world [str ''t1'' \<mapsto> demo_tunnel [] None] False"
  have c: "connect_inner demo_env demo_serde demo_connect (si_builder (sw_inner ?W)) None () =
      ready (Ok (demo_inner, demo_incoming None []), ())"
    by (simp add: demo_world_def demo_connects demo_incoming_def)
  obtain W1 where "try_reconnect demo_env demo_serde demo_connect (\<lambda>_. [str ''t1'']) None ?W () =
      ready (Ok (demo_incoming None []), W1, ())"
    and W2: "\<And>r W2. close_tunnel demo_env demo_serde (str ''t1'') W1 = ready (r, W2) \<Longrightarrow>
      tunnels W2 = [str ''t2'' \<mapsto> demo_tunnel [] None]"
    using relabeled_tunnel_not_closed [OF c demo_requests(2), where tid = "str ''t1''" and tun = "demo_tunnel [] None"
        and order = "\<lambda>_. [str ''t1'']"]
    by (auto simp: demo_world_def demo_tunnel_def str_def)
  moreover have "\<exists>W2. close_tunnel demo_env demo_serde (str ''t1'') W1 = ready (Ok (), W2)"
    by (simp add: close_tunnel_def demo_requests)
  ultimately show ?thesis by blast
qed



end
