(* ===== verification/Tunnel_Refinement.thy ===== *)
theory Tunnel_Refinement
  imports Tunnel_Props
begin

text \<open>
  What a session is to its listeners: a mailbox for every tunnel. The channels, their
  numbers and the tunnels of a session are abstracted to a map from identifiers to what
  is queued, and every operation of the session is shown to be a sequence of steps on
  mailboxes: opening, dropping, posting at the end, taking from the front, and filing
  mailboxes anew.
\<close>

type_synonym 'i mailboxes = "rstring \<rightharpoonup> 'i list"

text \<open>What an operation of the session did, as far as its caller sees it.\<close>

datatype 'x world_call =
  DidStart "(rpc_error, tunnel_inner) result"
| DidClose rstring "(rpc_error, unit) result"
| DidCloseSession
| DidDrop "rstring option"
| DidListen "rstring option" "(accept_error, 'x conn_inner) result option poll"
| DidAccept
| DidReconnect bool

text \<open>
  The mailboxes before and after an operation. A listener takes the front of its own mailbox,
  and finds it empty when it is given nothing; a listener that the session has forgotten
  touches none. Accepting closes any number of tunnels, and then posts one connection at
  the end of the mailbox its header names, which has room for it. A reconnect moves
  every mailbox it keeps, unchanged, to one identifier.
\<close>

inductive mb_op ::
  "'x world_call \<Rightarrow> (accept_error, 'x conn_inner) result mailboxes \<Rightarrow> (accept_error, 'x conn_inner) result mailboxes \<Rightarrow> bool" where
  mb_refused: "mb_op (DidStart (Err e)) m m"
| mb_started: "mb_op (DidStart (Ok tn)) m (m(ti_id (tn_info tn) \<mapsto> []))"
| mb_kept: "mb_op (DidClose tid (Err e)) m m"
| mb_closed: "mb_op (DidClose tid (Ok ())) m (m(tid := None))"
| mb_session: "mb_op DidCloseSession m m"
| mb_dropped: "m i \<noteq> None \<Longrightarrow> mb_op (DidDrop (Some i)) m (m(i \<mapsto> []))"
| mb_dropped_alone: "mb_op (DidDrop None) m m"
| mb_taken: "m i = Some (item # q) \<Longrightarrow> mb_op (DidListen (Some i) (Ready (Some item))) m (m(i \<mapsto> q))"
| mb_empty: "m i = Some [] \<Longrightarrow> r \<in> {Pending, Ready None} \<Longrightarrow> mb_op (DidListen (Some i) r) m m"
| mb_alone: "mb_op (DidListen None r) m m"
| mb_stopped: "mb_op DidAccept m (m |` (- ids))"
| mb_posted: "m i = Some q \<Longrightarrow> i \<notin> ids \<Longrightarrow> length q < CHAN_CAP \<Longrightarrow> i = ph_id (ci_header (cn_info conn)) \<Longrightarrow>
    mb_op DidAccept m ((m |` (- ids))(i \<mapsto> q @ [Ok conn]))"
| mb_same: "mb_op (DidReconnect False) m m"
| mb_refiled: "inj_on f (dom m') \<Longrightarrow> (\<And>i. i \<in> dom m' \<Longrightarrow> m' i = m (f i)) \<Longrightarrow> mb_op (DidReconnect True) m m'"

lemma mb_op_started: "mb_op (DidStart (Ok tn)) m m' \<Longrightarrow> m' = m(ti_id (tn_info tn) \<mapsto> [])"
  by (erule mb_op.cases) (simp_all only: world_call.inject world_call.distinct sum.inject sum.distinct)

definition mailboxes :: "('n, 't, 'io, 'h, 'c, 'x) session_world \<Rightarrow> (accept_error, 'x conn_inner) result mailboxes" where
  "mailboxes W = (\<lambda>i. map_option (\<lambda>t. tc_queue (sw_chans W (bt_tx t))) (tunnels W i))"

lemma mailboxes_Some: "mailboxes W i = Some q \<longleftrightarrow> (\<exists>t. tunnels W i = Some t \<and> q = tc_queue (sw_chans W (bt_tx t)))"
  by (auto simp: mailboxes_def)

section \<open>Every operation on mailboxes\<close>

lemma mailboxes_simps [simp]:
  "mailboxes (on_client c W) = mailboxes W"
  "mailboxes (on_tunnels (\<lambda>m. m(i := None)) W) = (mailboxes W)(i := None)"
  by (auto simp: mailboxes_def fun_eq_iff)

text \<open>A channel that no tunnel holds is in no mailbox; one that a tunnel holds is in that mailbox only.\<close>

lemma mailboxes_unheld:
  "\<not> tx_held W tx \<Longrightarrow> mailboxes (W\<lparr>sw_chans := (sw_chans W)(tx := ch)\<rparr>) = mailboxes W"
  by (auto simp: mailboxes_def fun_eq_iff tx_held_def ran_def map_option_case split: option.split)

lemma mailboxes_held:
  assumes "world_ok W" "tunnels W i = Some t"
  shows "mailboxes (W\<lparr>sw_chans := (sw_chans W)(bt_tx t := ch)\<rparr>) = (mailboxes W)(i \<mapsto> tc_queue ch)"
  using assms by (auto simp: mailboxes_def fun_eq_iff conns_ok_def tx_inj_def map_option_case split: option.split)

lemma fresh_unheld: "world_ok W \<Longrightarrow> \<not> tx_held W (sw_next W)"
  by (auto simp: tx_held_def conns_ok_def bound_ok_def)

lemma removed_unheld: "world_ok W \<Longrightarrow> tunnels W i = Some t \<Longrightarrow> \<not> tx_held (on_tunnels (\<lambda>m. m(i := None)) W) (bt_tx t)"
  by (fastforce simp: tx_held_def conns_ok_def tx_inj_def ran_def split: if_splits)

lemma send_unheld: "tunnel_send tx item W = ready (sent, W1) \<Longrightarrow> \<not> tx_held W tx \<Longrightarrow> mailboxes W1 = mailboxes W"
  by (auto simp: tunnel_send_def Let_def mailboxes_unheld split: if_splits)

lemma send_held:
  assumes "tunnel_send (bt_tx t) item W = ready (sent, W1)" "world_ok W" "tunnels W i = Some t"
  shows "if sent then mailboxes W1 = (mailboxes W)(i \<mapsto> tc_queue (sw_chans W (bt_tx t)) @ [item]) \<and>
      length (tc_queue (sw_chans W (bt_tx t))) < CHAN_CAP else W1 = W"
  using assms by (auto simp: tunnel_send_def Let_def mailboxes_held split: if_splits)

lemma close_with_error_mb:
  assumes "close_tunnel_with_error tid err W = ready W1" "world_ok W"
  shows "mailboxes W1 = (mailboxes W)(tid := None)"
proof (cases "tunnels W tid")
  case None
  then have "mailboxes W tid = None" by (simp add: mailboxes_def)
  moreover have "W1 = W" using assms None by (simp add: close_tunnel_with_error_def)
  ultimately show ?thesis by (metis fun_upd_triv)
next
  case (Some t)
  with assms obtain sent where
    "tunnel_send (bt_tx t) (Err err) (on_tunnels (\<lambda>m. m(tid := None)) W) = ready (sent, W1)"
    by (auto simp: close_tunnel_with_error_def)
  from send_unheld [OF this removed_unheld [OF assms(2) Some]] show ?thesis by simp
qed

lemma conn_of_names: "ph_id (ci_header (cn_info (conn_of parse_addr t header stream))) = ph_id header"
  by (simp add: conn_of_def split: option.split bind_opts.split)

lemma deliver_mb:
  assumes "deliver parse_addr header stream W = ready W1" "world_ok W"
  shows "mailboxes W1 = mailboxes W \<or> mailboxes W1 = (mailboxes W)(ph_id header := None) \<or>
    (\<exists>q conn. mailboxes W (ph_id header) = Some q \<and> length q < CHAN_CAP \<and>
       ph_id (ci_header (cn_info conn)) = ph_id header \<and> mailboxes W1 = (mailboxes W)(ph_id header \<mapsto> q @ [Ok conn]))"
proof (cases "tunnels W (ph_id header)")
  case None
  with assms show ?thesis by (simp add: deliver_def)
next
  case (Some t)
  with assms(1) obtain sent W2 where
    s: "tunnel_send (bt_tx t) (Ok (conn_of parse_addr t header stream)) W = ready (sent, W2)"
    "W1 = (if sent then W2 else on_tunnels (\<lambda>m. m(ph_id header := None)) W2)"
    by (auto simp: deliver_def)
  have m: "mailboxes W (ph_id header) = Some (tc_queue (sw_chans W (bt_tx t)))"
    using Some by (simp add: mailboxes_Some)
  show ?thesis
  proof (cases sent)
    case True
    with send_held [OF s(1) assms(2) Some] s(2) m conn_of_names [of parse_addr t header stream] show ?thesis by auto
  next
    case False
    with send_held [OF s(1) assms(2) Some] s(2) show ?thesis by simp
  qed
qed

lemma restrict_drop: "(m |` (- ids))(i := None) = m |` (- insert i ids)"
  by (auto simp: restrict_map_def fun_eq_iff)

lemma accept_one_mb:
  fixes W :: "('n, 't, 'io, 'h, 'c, 'x) session_world"
  assumes "accept_one A parse_addr st W = ready (r, st1, W1)" "world_ok W"
  shows "mb_op DidAccept (mailboxes W) (mailboxes W1)"
proof -
  from assms(1) obtain q st2 W0 where q: "incoming_accept A (\<lambda>_. close_tunnel_with_error) st W = ready (q, st2, W0)"
    by (auto simp: accept_one_def simp del: and_await_Value_iff elim!: and_awaitE)
  with assms(1) have d: "W1 = W0 \<or> (\<exists>header stream. deliver parse_addr header stream W0 = ready W1)"
    by (auto simp: accept_one_def simp del: and_await_Value_iff elim!: and_awaitE
        split: sum.splits raw_accept_error.splits)
  have "world_ok W0 \<and> (\<exists>ids. mailboxes W0 = mailboxes W |` (- ids))"
  proof (rule incoming_accept_keeps [where P = "\<lambda>w. world_ok w \<and> (\<exists>ids. mailboxes w = mailboxes W |` (- ids))", OF _ q])
    fix s :: unit and tid err and w w1 :: "('n, 't, 'io, 'h, 'c, 'x) session_world"
    assume c: "close_tunnel_with_error tid err w = ready w1" and w: "world_ok w \<and> (\<exists>ids. mailboxes w = mailboxes W |` (- ids))"
    from w close_with_error_mb [OF c] obtain ids where "mailboxes w1 = (mailboxes W |` (- ids))(tid := None)" by auto
    with restrict_drop have "mailboxes w1 = mailboxes W |` (- insert tid ids)" by metis
    with close_with_error_ok [OF c] w show "world_ok w1 \<and> (\<exists>ids. mailboxes w1 = mailboxes W |` (- ids))" by blast
  next
    have "mailboxes W = mailboxes W |` (- {})" by (simp add: restrict_map_def)
    with assms(2) show "world_ok W \<and> (\<exists>ids. mailboxes W = mailboxes W |` (- ids))" by blast
  qed
  then obtain ids where ok: "world_ok W0" and ids: "mailboxes W0 = mailboxes W |` (- ids)" by blast
  from d show ?thesis
  proof
    assume "W1 = W0"
    then show ?thesis using mb_op.mb_stopped [of "mailboxes W" ids] by (simp add: ids)
  next
    assume "\<exists>header stream. deliver parse_addr header stream W0 = ready W1"
    then obtain header stream where "deliver parse_addr header stream W0 = ready W1" by blast
    from deliver_mb [OF this ok] consider "mailboxes W1 = mailboxes W |` (- ids)"
      | "mailboxes W1 = mailboxes W |` (- insert (ph_id header) ids)"
      | q conn where "(mailboxes W |` (- ids)) (ph_id header) = Some q" "length q < CHAN_CAP"
        "ph_id (ci_header (cn_info conn)) = ph_id header"
        "mailboxes W1 = (mailboxes W |` (- ids))(ph_id header \<mapsto> q @ [Ok conn])"
      unfolding ids restrict_drop by blast
    then show ?thesis
    proof cases
      case 3
      then have "mailboxes W (ph_id header) = Some q" "ph_id header \<notin> ids"
        by (auto simp: restrict_map_def split: if_splits)
      with 3(2,3) show ?thesis unfolding 3(4) by (intro mb_op.mb_posted) simp_all
    qed (simp_all only: mb_op.mb_stopped)
  qed
qed

lemma poll_next_mb:
  assumes "tunnel_poll_next tn W = (r, W1)" "world_ok W" "tunnels W i = Some t" "tn_incoming tn = Some (bt_tx t)"
  shows "mb_op (DidListen (Some i) r) (mailboxes W) (mailboxes W1)"
proof (cases "tc_queue (sw_chans W (bt_tx t))")
  case Nil
  with assms(1,4) have "W1 = W" "r \<in> {Pending, Ready None}"
    by (auto simp: tunnel_poll_next_def Let_def split: if_splits)
  then show ?thesis using Nil assms(3) by (auto intro: mb_op.mb_empty simp: mailboxes_Some)
next
  case (Cons item rest)
  with assms(1,4) have r: "r = Ready (Some item)"
    and W1: "W1 = W\<lparr>sw_chans := (sw_chans W)(bt_tx t := (sw_chans W (bt_tx t))\<lparr>tc_queue := rest\<rparr>)\<rparr>"
    by (simp_all add: tunnel_poll_next_def Let_def)
  have "mailboxes W1 = (mailboxes W)(i \<mapsto> rest)"
    using mailboxes_held [OF assms(2,3)] by (simp add: W1)
  moreover have "mailboxes W i = Some (item # rest)"
    using assms(3) Cons by (simp add: mailboxes_Some)
  ultimately show ?thesis unfolding r by (simp only: mb_op.mb_taken)
qed

lemma poll_next_alone:
  assumes "tunnel_poll_next tn W = (r, W1)" "\<And>rx. tn_incoming tn = Some rx \<Longrightarrow> \<not> tx_held W rx"
  shows "mailboxes W1 = mailboxes W"
  using assms(1) assms(2)
  by (auto simp: tunnel_poll_next_def Let_def mailboxes_unheld split: option.splits list.splits)

lemma start_tunnel_outcome:
  assumes "start_tunnel E S cfg W = ready (r, W1)"
  obtains (refused) e ch where "r = Err e" "tunnels W1 = tunnels W" "sw_chans W1 = (sw_chans W)(sw_next W := ch)"
  | (started) tn t where "r = Ok tn" "\<And>j. tunnels W1 j = (if j = ti_id (tn_info tn) then Some t else tunnels W j)"
      "bt_tx t = sw_next W" "sw_chans W1 = (sw_chans W)(sw_next W := \<lparr>tc_queue = [], tc_open = True\<rparr>)"
  using assms
  by (auto simp: start_tunnel_def chan_open_def chan_drop_def Let_def simp del: and_await_Value_iff
      elim!: and_awaitE split: if_splits option.splits sum.splits)

lemma start_tunnel_mb:
  assumes "start_tunnel E S cfg W = ready (r, W1)" "world_ok W"
  shows "mb_op (DidStart r) (mailboxes W) (mailboxes W1)"
proof -
  have unheld: "bt_tx t \<noteq> sw_next W" if "tunnels W i = Some t" for i t
    using fresh_unheld [OF assms(2)] that unfolding tx_held_def by (metis image_eqI ranI)
  from assms(1) show ?thesis
  proof (cases rule: start_tunnel_outcome)
    case (refused e ch)
    have "mailboxes W1 i = mailboxes W i" for i
      using unheld [of i] by (cases "tunnels W i") (simp_all add: mailboxes_def refused)
    then have "mailboxes W1 = mailboxes W" by (rule ext)
    then show ?thesis using mb_op.mb_refused by (simp add: refused(1))
  next
    case (started tn t)
    have "mailboxes W1 j = ((mailboxes W)(ti_id (tn_info tn) \<mapsto> [])) j" for j
      using unheld [of j] started(3) by (cases "tunnels W j") (simp_all add: mailboxes_def started(2,4))
    then have "mailboxes W1 = (mailboxes W)(ti_id (tn_info tn) \<mapsto> [])" by (rule ext)
    then show ?thesis unfolding started(1) by (simp only: mb_op.mb_started)
  qed
qed

lemma close_tunnel_mb:
  assumes "close_tunnel E S tid W = ready (r, W1)"
  shows "mb_op (DidClose tid r) (mailboxes W) (mailboxes W1)"
proof -
  from assms obtain q c where "client_unlisten E S tid (si_client (sw_inner W)) = ready (q, c)"
    by (auto simp: close_tunnel_def)
  with assms show ?thesis
    by (cases q) (auto simp: close_tunnel_def mb_op.mb_kept simp del: fun_upd_apply intro: mb_op.mb_closed)
qed

lemma mailboxes_close_receiver [simp]:
  "mailboxes (W\<lparr>sw_chans := (sw_chans W)(rx := (sw_chans W rx)\<lparr>tc_open := False\<rparr>)\<rparr>) = mailboxes W"
  by (auto simp: mailboxes_def fun_eq_iff map_option_case split: option.split)

lemma tunnel_close_mb:
  assumes "tunnel_close E S tn W = ready (r, W1)"
  shows "mb_op (DidClose (ti_id (tn_info tn)) r) (mailboxes W) (mailboxes W1)"
proof -
  from assms obtain q W0 where "close_tunnel E S (ti_id (tn_info tn)) W = ready (q, W0)"
    by (auto simp: tunnel_close_def)
  with close_tunnel_mb [OF this] assms show ?thesis
    by (cases q) (auto simp: tunnel_close_def split: option.splits)
qed

lemma session_close_mb: "session_close E W = ready (r, W1) \<Longrightarrow> mailboxes W1 = mailboxes W"
  by (auto simp: session_close_def mailboxes_def)

lemma tunnel_drop_mb:
  assumes "tunnel_drop tn W = (tid, W1)" "world_ok W" "tunnels W i = Some t" "tn_incoming tn = Some (bt_tx t)"
  shows "mb_op (DidDrop (Some i)) (mailboxes W) (mailboxes W1)"
proof -
  have "mailboxes W1 = (mailboxes W)(i \<mapsto> [])"
    using assms(1,4) mailboxes_held [OF assms(2,3)] by (auto simp: tunnel_drop_def chan_drop_def)
  moreover have "mailboxes W i \<noteq> None" using assms(3) by (simp add: mailboxes_def)
  ultimately show ?thesis using mb_op.mb_dropped by metis
qed

lemma tunnel_drop_alone:
  assumes "tunnel_drop tn W = (tid, W1)" "\<And>rx. tn_incoming tn = Some rx \<Longrightarrow> \<not> tx_held W rx"
  shows "mailboxes W1 = mailboxes W"
  using assms by (auto simp: tunnel_drop_def chan_drop_def mailboxes_unheld split: option.splits)

section \<open>Reconnecting files the mailboxes anew\<close>

lemma rebind_ran:
  "rebind E S old ids c new = ready (Ok m, c1) \<Longrightarrow> ran m \<subseteq> ran new \<union> ran old"
proof (induction ids arbitrary: c new)
  case (Cons tid ids)
  show ?case
  proof (cases "old tid")
    case None
    with Cons show ?thesis by simp
  next
    case (Some tun)
    from Cons.prems Some obtain k c2 where "rebind E S old ids c2 (new(k \<mapsto> tun)) = ready (Ok m, c1)"
      by (auto simp del: and_await_Value_iff elim!: and_awaitE split: if_splits option.splits sum.splits)
    from Cons.IH [OF this] have "ran m \<subseteq> ran (new(k \<mapsto> tun)) \<union> ran old" .
    moreover have "ran (new(k \<mapsto> tun)) \<subseteq> ran new \<union> ran old"
      using Some by (auto simp: ran_def)
    ultimately show ?thesis by blast
  qed
qed simp

lemma mb_refile_tunnels:
  assumes "tx_inj m" "ran m \<subseteq> ran (tunnels W)" "tunnels W1 = m" "sw_chans W1 = sw_chans W"
  shows "mb_op (DidReconnect True) (mailboxes W) (mailboxes W1)"
proof -
  define f where "f i = (SOME j. tunnels W j = m i)" for i
  have f: "tunnels W (f i) = m i" if "i \<in> dom m" for i
  proof -
    from that obtain t where "m i = Some t" by auto
    with assms(2) have "t \<in> ran (tunnels W)" by (auto intro: ranI)
    then obtain j where "tunnels W j = Some t" by (auto simp: ran_def)
    with \<open>m i = Some t\<close> have "tunnels W j = m i" by simp
    then show ?thesis unfolding f_def by (rule someI)
  qed
  have d: "dom (mailboxes W1) = dom m"
    using assms(3) by (auto simp: mailboxes_def)
  have "inj_on f (dom m)"
  proof (rule inj_onI)
    fix i j assume ij: "i \<in> dom m" "j \<in> dom m" "f i = f j"
    then have "m i = m j" using f by metis
    with ij assms(1) show "i = j" by (auto simp: tx_inj_def)
  qed
  moreover have "mailboxes W1 i = mailboxes W (f i)" if "i \<in> dom m" for i
    using f [OF that] assms(3,4) by (simp add: mailboxes_def)
  ultimately show ?thesis
    unfolding d [symmetric] by (rule mb_op.mb_refiled)
qed

lemma try_reconnect_mb:
  assumes "try_reconnect E S K order err W net = ready (r, W1, net1)" "world_ok W" "map_order order (tunnels W)"
  shows "mb_op (DidReconnect (\<exists>st. r = Ok st)) (mailboxes W) (mailboxes W1)"
  using assms(1)
proof (cases rule: try_reconnect_cases)
  case (failed e)
  then show ?thesis by (simp add: mb_op.mb_same)
next
  case (rebound incoming inner m c2)
  have "conns_ok (sw_next W) m"
    using rebind_ok [OF rebound(4) assms(2)] assms(3) by (simp add: map_order_def)
  moreover have "ran m \<subseteq> ran (tunnels W)" using rebind_ran [OF rebound(4)] by simp
  ultimately show ?thesis
    using rebound(1,5) mb_refile_tunnels [of m W W1] by (simp add: conns_ok_def)
qed

section \<open>The refinement\<close>

text \<open>The operations of a session, each with what its caller sees of it.\<close>

inductive world_op ::
  "('i, 'x, 'v) accept_env \<Rightarrow> ('c, 'y) rpc_env \<Rightarrow> serde \<Rightarrow> ('t, 'io, 'h, 'c, 'i) connect_env
     \<Rightarrow> (rstring \<Rightarrow> sock_addr option) \<Rightarrow> 'x world_call \<Rightarrow> ('n, 't, 'io, 'h, 'c, 'x) session_world
     \<Rightarrow> ('n, 't, 'io, 'h, 'c, 'x) session_world \<Rightarrow> bool"
  for A E S K parse_addr where
  wo_start: "start_tunnel E S cfg W = ready (r, W1) \<Longrightarrow> world_op A E S K parse_addr (DidStart r) W W1"
| wo_close: "close_tunnel E S tid W = ready (r, W1) \<Longrightarrow> world_op A E S K parse_addr (DidClose tid r) W W1"
| wo_tunnel_close: "tunnel_close E S tn W = ready (r, W1) \<Longrightarrow>
    world_op A E S K parse_addr (DidClose (ti_id (tn_info tn)) r) W W1"
| wo_session_close: "session_close E W = ready (r, W1) \<Longrightarrow> world_op A E S K parse_addr DidCloseSession W W1"
| wo_drop: "tunnel_drop tn W = (tid, W1) \<Longrightarrow> tunnels W i = Some t \<Longrightarrow> tn_incoming tn = Some (bt_tx t) \<Longrightarrow>
    world_op A E S K parse_addr (DidDrop (Some i)) W W1"
| wo_drop_alone: "tunnel_drop tn W = (tid, W1) \<Longrightarrow> (\<And>rx. tn_incoming tn = Some rx \<Longrightarrow> \<not> tx_held W rx) \<Longrightarrow>
    world_op A E S K parse_addr (DidDrop None) W W1"
| wo_listen: "tunnel_poll_next tn W = (q, W1) \<Longrightarrow> tunnels W i = Some t \<Longrightarrow> tn_incoming tn = Some (bt_tx t) \<Longrightarrow>
    world_op A E S K parse_addr (DidListen (Some i) q) W W1"
| wo_listen_alone: "tunnel_poll_next tn W = (q, W1) \<Longrightarrow> (\<And>rx. tn_incoming tn = Some rx \<Longrightarrow> \<not> tx_held W rx) \<Longrightarrow>
    world_op A E S K parse_addr (DidListen None q) W W1"
| wo_accept: "accept_one A parse_addr st W = ready (r, st1, W1) \<Longrightarrow> world_op A E S K parse_addr DidAccept W W1"
| wo_reconnect: "map_order order (tunnels W) \<Longrightarrow> try_reconnect E S K order err W net = ready (q, W1, net1) \<Longrightarrow>
    world_op A E S K parse_addr (DidReconnect (\<exists>st. q = Ok st)) W W1"

text \<open>They are the steps of a session: nothing is left out of the calls.\<close>

lemma world_op_step: "world_step A E S K parse_addr W W1 \<longleftrightarrow> (\<exists>call. world_op A E S K parse_addr call W W1)"
proof
  have held: "(\<exists>i t. tunnels W i = Some t \<and> tn_incoming tn = Some (bt_tx t)) \<or>
      (\<forall>rx. tn_incoming tn = Some rx \<longrightarrow> \<not> tx_held W rx)" for tn
    by (cases "tn_incoming tn") (auto simp: tx_held_def ran_def)
  assume "world_step A E S K parse_addr W W1"
  then show "\<exists>call. world_op A E S K parse_addr call W W1"
  proof cases
    case (ws_listen tn q)
    with held [of tn] show ?thesis by (blast intro: wo_listen wo_listen_alone)
  next
    case (ws_drop tn tid)
    with held [of tn] show ?thesis by (blast intro: wo_drop wo_drop_alone)
  qed (blast intro: world_op.intros)+
next
  assume "\<exists>call. world_op A E S K parse_addr call W W1"
  then show "world_step A E S K parse_addr W W1"
    by (auto elim!: world_op.cases intro: world_step.intros)
qed

text \<open>C10. The session refines the mailboxes of its listeners: in every state it can reach, whatever an
  operation did (started, closed or dropped a tunnel, closed the session, gave a listener its next
  connection, accepted, reconnected) is what the mailboxes allow for the outcome its caller saw. So a
  connection is posted only at the end of the mailbox that its header names, which holds fewer than 64;
  it is taken only by the listener of that mailbox, in order; and a reconnect neither splits nor
  duplicates what is queued.\<close>

theorem session_refines_mailboxes:
  assumes "reach world_start (world_step A E S K parse_addr) W" "world_op A E S K parse_addr call W W1"
  shows "mb_op call (mailboxes W) (mailboxes W1)"
proof -
  have ok: "world_ok W" by (rule session_inv.inv_reach [OF assms(1)])
  show ?thesis
    using assms(2) ok
    by (cases rule: world_op.cases)
      (simp_all add: start_tunnel_mb close_tunnel_mb tunnel_close_mb session_close_mb mb_op.mb_session tunnel_drop_mb
        tunnel_drop_alone mb_op.mb_dropped_alone poll_next_mb poll_next_alone mb_op.mb_alone accept_one_mb try_reconnect_mb)
qed

definition demo_labels :: tunnel_config where
  "demo_labels = \<lparr>tg_forwards_to = [], tg_forwards_proto = [], tg_verify_upstream_tls = True,
     tg_extra = \<lparr>be_token = secret_string_default, be_ip_policy_ref = [], be_metadata = [], be_bindings = [],
       be_pooling_enabled = False\<rparr>, tg_proto = [], tg_opts = None, tg_labels = Map.empty\<rparr>"

theorem session_refines_mailboxes_witness:
  "\<exists>tn W1. start_tunnel demo_env demo_serde demo_labels (demo_world Map.empty False) = ready (Ok tn, W1) \<and>
    mailboxes W1 = Map.empty(ti_id (tn_info tn) \<mapsto> [])"
proof -
  let ?W = "demo_world Map.empty False"
  obtain tn W1 where s: "start_tunnel demo_env demo_serde demo_labels ?W = ready (Ok tn, W1)"
    by (simp add: start_tunnel_def chan_open_def demo_labels_def demo_requests)
  have r: "reach world_start (world_step demo_accept_env demo_env demo_serde demo_connect (\<lambda>_. None)) ?W"
    by (rule reach_init) (simp add: world_start_def demo_world_def)
  have m: "mailboxes ?W = Map.empty" by (simp add: mailboxes_def demo_world_def)
  from session_refines_mailboxes [OF r world_op.wo_start [OF s]] have "mailboxes W1 = Map.empty(ti_id (tn_info tn) \<mapsto> [])"
    unfolding m by (rule mb_op_started)
  with s show ?thesis by blast
qed

end
