(* ===== verification/Connectors.thy ===== *)
theory Connectors
  imports Session_Builder
begin

text \<open>
  The ways the crate connects to the server, from \<open>ngrok/src/session.rs\<close>: directly,
  through an HTTP proxy and through a SOCKS proxy, each followed by the TLS handshake.
  The networks, the parsers of URIs and of server names and TLS itself are parameters.
  What the code expects to have been checked by \<open>server_addr\<close> is a panic here when it
  was not.
\<close>

record ('n, 's, 'd, 't, 'io, 'u, 'p) net_env =
  ne_tcp :: "rstring \<Rightarrow> u16 \<Rightarrow> 'n \<Rightarrow> ((io_error, 's) result \<times> 'n) async"
  ne_server_name :: "rstring \<Rightarrow> 'd option"
  ne_tls :: "'t \<Rightarrow> 'd \<Rightarrow> 's \<Rightarrow> 'n \<Rightarrow> ((io_error, 'io) result \<times> 'n) async"
  ne_uri :: "rstring \<Rightarrow> 'u option"
  ne_http_connector :: "'u \<Rightarrow> (rstring, 'p) result"
  ne_http_call :: "'p \<Rightarrow> 'u \<Rightarrow> 'n \<Rightarrow> ((rstring, 's) result \<times> 'n) async"
  ne_socks :: "rstring \<Rightarrow> rstring \<Rightarrow> 'n \<Rightarrow> ((rstring, 's) result \<times> 'n) async"

text \<open>The handshake that ends every connector.\<close>

definition tls_handshake ::
  "('n, 's, 'd, 't, 'io, 'u, 'p) net_env \<Rightarrow> rstring \<Rightarrow> 't \<Rightarrow> 's \<Rightarrow> 'n \<Rightarrow> ((connect_error, 'io) result \<times> 'n) async" where
  "tls_handshake N host cfg stream net =
     (case ne_server_name N host of
        None \<Rightarrow> Some Panic
      | Some domain \<Rightarrow>
        and_await (ne_tls N cfg domain stream net) (\<lambda>(r, net1).
          ready (case r of Inl e \<Rightarrow> Err (CeTls e) | Inr io \<Rightarrow> Ok io, net1)))"

definition default_connect :: "('n, 's, 'd, 't, 'io, 'u, 'p) net_env \<Rightarrow> ('n, 't, 'io) connector" where
  "default_connect N host port cfg err net =
     and_await (ne_tcp N host port net) (\<lambda>(r, net1).
       case r of
         Inl e \<Rightarrow> ready (Err (CeTcp e), net1)
       | Inr stream \<Rightarrow> tls_handshake N host cfg stream net1)"

definition host_port :: "rstring \<Rightarrow> u16 \<Rightarrow> rstring" where
  "host_port host port = host @ str '':'' @ decimal (unat port)"

definition connect_http_proxy :: "('n, 's, 'd, 't, 'io, 'u, 'p) net_env \<Rightarrow> url \<Rightarrow> ('n, 't, 'io) connector" where
  "connect_http_proxy N u host port cfg err net =
     (case ne_uri N (url_text u) of
        None \<Rightarrow> Some Panic
      | Some proxy \<Rightarrow>
        (case ne_http_connector N proxy of
           Inl e \<Rightarrow> ready (Err (CeProxyConnect e), net)
         | Inr connector \<Rightarrow>
           (case ne_uri N (str ''http://'' @ host_port host port) of
              None \<Rightarrow> Some Panic
            | Some server_uri \<Rightarrow>
              and_await (ne_http_call N connector server_uri net) (\<lambda>(r, net1).
                case r of
                  Inl e \<Rightarrow> ready (Err (CeProxyConnect e), net1)
                | Inr conn \<Rightarrow> tls_handshake N host cfg conn net1))))"

definition connect_socks_proxy :: "('n, 's, 'd, 't, 'io, 'u, 'p) net_env \<Rightarrow> rstring \<Rightarrow> ('n, 't, 'io) connector" where
  "connect_socks_proxy N proxy_addr host port cfg err net =
     and_await (ne_socks N proxy_addr (host_port host port) net) (\<lambda>(r, net1).
       case r of
         Inl e \<Rightarrow> ready (Err (CeProxyConnect e), net1)
       | Inr conn \<Rightarrow> tls_handshake N host cfg conn net1)"

text \<open>\<open>proxy_url\<close> with the connectors of the crate.\<close>

definition proxy_connector ::
  "('n, 's, 'd, 't, 'io, 'u, 'p) net_env \<Rightarrow> url \<Rightarrow> (url, ('n, 't, 'io) connector) result" where
  "proxy_connector N u = connect_proxy (connect_http_proxy N) (connect_socks_proxy N) u"

section \<open>Properties\<close>

text \<open>What a host must be for the connectors not to panic.\<close>

definition host_ok :: "('n, 's, 'd, 't, 'io, 'u, 'p) net_env \<Rightarrow> rstring \<Rightarrow> bool" where
  "host_ok N host \<longleftrightarrow> ne_server_name N host \<noteq> None"

text \<open>The network and TLS do not panic.\<close>

definition net_safe :: "('n, 's, 'd, 't, 'io, 'u, 'p) net_env \<Rightarrow> bool" where
  "net_safe N \<longleftrightarrow> (\<forall>h p n. ne_tcp N h p n \<noteq> Some Panic) \<and> (\<forall>c d s n. ne_tls N c d s n \<noteq> Some Panic)"

lemma tls_handshake_safe: "net_safe N \<Longrightarrow> host_ok N host \<Longrightarrow> tls_handshake N host cfg s net \<noteq> Some Panic"
  by (auto simp: tls_handshake_def net_safe_def host_ok_def and_await_Panic_iff)

lemma default_connect_safe: "net_safe N \<Longrightarrow> host_ok N host \<Longrightarrow> default_connect N host port cfg err net \<noteq> Some Panic"
  using tls_handshake_safe [of N host]
  by (auto simp: default_connect_def net_safe_def and_await_Panic_iff split: sum.splits)

lemma server_addr_outcome:
  "sb_server_addr parse valid addr B = (r, B') \<Longrightarrow>
   (r = Ok () \<longrightarrow> (\<exists>u. parse (str ''http://'' @ addr) = Some u \<and> url_host u = Some (sb_server_host B') \<and>
      valid (sb_server_host B') \<and> sb_server_port B' = (case url_port u of None \<Rightarrow> 443 | Some p \<Rightarrow> p)))"
  by (auto simp: sb_server_addr_def Let_def split: option.splits if_splits)

lemma connect_inner_connector_panics:
  assumes "sb_connector B (sb_server_host B) (sb_server_port B) (get_or_create_tls_config K B) err net = Some Panic"
  shows "connect_inner E S K B err net = Some Panic"
  by (simp add: connect_inner_def assms)

end
