(* ===== verification/Connector_Props.thy ===== *)
theory Connector_Props
  imports Connectors Tunnel_Props
begin

text \<open>
  What the checks of the builder are worth to the connectors, and what the name and the
  version of a client look like in the user agent.
\<close>

lemma sanitize_allowed: "c \<in> set (sanitize_ua_string s) \<Longrightarrow> ua_allowed c \<and> c \<noteq> of_char CHR ''/''"
  by (auto simp: sanitize_ua_string_def ua_allowed_def str_def)

lemma sanitize_id: "\<forall>c \<in> set s. ua_allowed c \<and> c \<noteq> of_char CHR ''/'' \<Longrightarrow> sanitize_ua_string s = s"
  by (induction s) (simp_all add: sanitize_ua_string_def)

lemma sanitize_idem [simp]: "sanitize_ua_string (sanitize_ua_string s) = sanitize_ua_string s"
  using sanitize_allowed by (intro sanitize_id) blast

text \<open>The range from plus to full stop lets a comma through, which no token of HTTP contains.\<close>

lemma sanitize_keeps_comma: "sanitize_ua_string (str ''a,b'') = str ''a,b''"
  by (intro sanitize_id) (simp add: str_def ua_allowed_def)



definition demo_net :: "(unit, unit, rstring, unit, unit, unit, unit) net_env" where
  "demo_net = \<lparr>ne_tcp = (\<lambda>_ _ n. ready (Ok (), n)), ne_server_name = (\<lambda>h. if h = [45] then None else Some h),
     ne_tls = (\<lambda>_ _ _ n. ready (Ok (), n)), ne_uri = (\<lambda>_. None), ne_http_connector = (\<lambda>_. Ok ()),
     ne_http_call = (\<lambda>_ _ n. ready (Ok (), n)), ne_socks = (\<lambda>_ _ n. ready (Ok (), n))\<rparr>"

definition demo_url :: "rstring \<Rightarrow> url option" where
  "demo_url t = Some \<lparr>url_scheme = str ''http'', url_host = Some (drop 7 t), url_port = None, url_path = [], url_text = t\<rparr>"


end
