(* ===== verification/Config_Common.thy ===== *)
theory Config_Common
  imports Session_Builder "HOL-Library.AList"
begin

text \<open>
  The parts tunnel configurations share, from \<open>ngrok/src/config\<close>: bindings and common
  options (\<open>common.rs\<close>), header rules (\<open>headers.rs\<close>), OAuth, OpenID and webhook options,
  and traffic policies (\<open>policies.rs\<close>), each with its translation to the messages of the
  protocol. JSON values, files and the name of the process are parameters. A hash map
  whose entries are sent as a list is an association list without repeated keys.
\<close>

section \<open>Bindings\<close>

datatype binding = BindPublic | BindInternal | BindKubernetes

fun binding_as_str :: "binding \<Rightarrow> rstring" where
  "binding_as_str BindPublic = str ''public''"
| "binding_as_str BindInternal = str ''internal''"
| "binding_as_str BindKubernetes = str ''kubernetes''"

definition invalid_binding :: "rstring \<Rightarrow> rstring" where
  "invalid_binding s = str ''Invalid binding value '' @ [39] @ s @ [39] @ str ''. Expected '' @
     [39] @ str ''public'' @ [39] @ str '', '' @ [39] @ str ''internal'' @ [39] @ str '', or '' @
     [39] @ str ''kubernetes'' @ [39]"

definition binding_validate :: "(rstring \<Rightarrow> rstring) \<Rightarrow> rstring \<Rightarrow> (rstring, unit) result" where
  "binding_validate lc s =
     (if lc s \<in> {str ''public'', str ''internal'', str ''kubernetes''} then Ok () else Err (invalid_binding s))"

definition binding_from_str :: "(rstring \<Rightarrow> rstring) \<Rightarrow> rstring \<Rightarrow> (rstring, binding) result" where
  "binding_from_str lc s =
     (if lc s = str ''public'' then Ok BindPublic
      else if lc s = str ''internal'' then Ok BindInternal
      else if lc s = str ''kubernetes'' then Ok BindKubernetes
      else Err (invalid_binding s))"

definition binding_to_string :: "binding \<Rightarrow> rstring" where
  "binding_to_string b = binding_as_str b"

text \<open>The method \<open>binding\<close> of the three endpoint builders, on their list of bindings.\<close>

definition set_binding :: "(rstring \<Rightarrow> rstring) \<Rightarrow> rstring \<Rightarrow> rstring list \<Rightarrow> rstring list ran" where
  "set_binding lc b bindings =
     (if bindings \<noteq> [] then Panic
      else case binding_validate lc b of Inl _ \<Rightarrow> Panic | Inr _ \<Rightarrow> Value (bindings @ [b]))"

section \<open>Policies\<close>

record 'j action =
  ac_type :: rstring
  ac_config :: "'j option"

record 'j rule =
  ru_name :: rstring
  ru_expressions :: "rstring list"
  ru_actions :: "'j action list"

record 'j policy =
  po_inbound :: "'j rule list"
  po_outbound :: "'j rule list"

datatype invalid_policy = SerializationError json_error | FileReadError io_error rstring

definition policy_new :: "'j policy" where
  "policy_new = \<lparr>po_inbound = [], po_outbound = []\<rparr>"

definition policy_from_json ::
  "(rstring \<Rightarrow> (json_error, 'j policy) result) \<Rightarrow> rstring \<Rightarrow> (invalid_policy, 'j policy) result" where
  "policy_from_json parse json = (case parse json of Inl e \<Rightarrow> Err (SerializationError e) | Inr p \<Rightarrow> Ok p)"

definition policy_from_file ::
  "(rstring \<Rightarrow> (io_error, rstring) result) \<Rightarrow> (rstring \<Rightarrow> (json_error, 'j policy) result) \<Rightarrow> rstring
     \<Rightarrow> (invalid_policy, 'j policy) result" where
  "policy_from_file read_to_string parse path =
     (case read_to_string path of
        Inl e \<Rightarrow> Err (FileReadError e path)
      | Inr json \<Rightarrow> policy_from_json parse json)"

definition policy_to_json ::
  "('j policy \<Rightarrow> (json_error, rstring) result) \<Rightarrow> 'j policy \<Rightarrow> (invalid_policy, rstring) result" where
  "policy_to_json to_string p = (case to_string p of Inl e \<Rightarrow> Err (SerializationError e) | Inr s \<Rightarrow> Ok s)"

definition add_inbound :: "'j rule \<Rightarrow> 'j policy \<Rightarrow> 'j policy" where
  "add_inbound r p = p\<lparr>po_inbound := po_inbound p @ [r]\<rparr>"

definition add_outbound :: "'j rule \<Rightarrow> 'j policy \<Rightarrow> 'j policy" where
  "add_outbound r p = p\<lparr>po_outbound := po_outbound p @ [r]\<rparr>"

definition rule_new :: "rstring \<Rightarrow> 'j rule" where
  "rule_new name = \<lparr>ru_name = name, ru_expressions = [], ru_actions = []\<rparr>"

definition rule_to_json ::
  "('j rule \<Rightarrow> (json_error, rstring) result) \<Rightarrow> 'j rule \<Rightarrow> (invalid_policy, rstring) result" where
  "rule_to_json to_string r = (case to_string r of Inl e \<Rightarrow> Err (SerializationError e) | Inr s \<Rightarrow> Ok s)"

definition add_expression :: "rstring \<Rightarrow> 'j rule \<Rightarrow> 'j rule" where
  "add_expression e r = r\<lparr>ru_expressions := ru_expressions r @ [e]\<rparr>"

definition add_action :: "'j action \<Rightarrow> 'j rule \<Rightarrow> 'j rule" where
  "add_action a r = r\<lparr>ru_actions := ru_actions r @ [a]\<rparr>"

definition action_new ::
  "(rstring \<Rightarrow> (json_error, 'j) result) \<Rightarrow> rstring \<Rightarrow> rstring option \<Rightarrow> (invalid_policy, 'j action) result" where
  "action_new parse ty config =
     (case config of
        None \<Rightarrow> Ok \<lparr>ac_type = ty, ac_config = None\<rparr>
      | Some c \<Rightarrow>
        (case parse c of
           Inl e \<Rightarrow> Err (SerializationError e)
         | Inr v \<Rightarrow> Ok \<lparr>ac_type = ty, ac_config = Some v\<rparr>))"

definition action_to_json ::
  "('j action \<Rightarrow> (json_error, rstring) result) \<Rightarrow> 'j action \<Rightarrow> (invalid_policy, rstring) result" where
  "action_to_json to_string a = (case to_string a of Inl e \<Rightarrow> Err (SerializationError e) | Inr s \<Rightarrow> Ok s)"

text \<open>The messages of the protocol; \<open>text\<close> is the text of a JSON value.\<close>

definition action_to_proto :: "('j \<Rightarrow> rstring) \<Rightarrow> 'j action \<Rightarrow> action_proto" where
  "action_to_proto text a = \<lparr>pa_type = ac_type a,
     pa_config = (case ac_config a of None \<Rightarrow> [] | Some c \<Rightarrow> as_bytes (text c))\<rparr>"

definition rule_to_proto :: "('j \<Rightarrow> rstring) \<Rightarrow> 'j rule \<Rightarrow> rule_proto" where
  "rule_to_proto text r = \<lparr>pr_name = ru_name r, pr_expressions = ru_expressions r,
     pr_actions = map (action_to_proto text) (ru_actions r)\<rparr>"

definition policy_to_proto :: "('j \<Rightarrow> rstring) \<Rightarrow> 'j policy \<Rightarrow> policy_proto" where
  "policy_to_proto text p = \<lparr>pp_inbound = map (rule_to_proto text) (po_inbound p),
     pp_outbound = map (rule_to_proto text) (po_outbound p)\<rparr>"

definition policy_wrapper_from_policy :: "('j \<Rightarrow> rstring) \<Rightarrow> 'j policy \<Rightarrow> policy_wrapper" where
  "policy_wrapper_from_policy text p = PwPolicy (policy_to_proto text p)"

section \<open>Common options\<close>

record cidr_restrictions =
  cd_allowed :: "rstring list"
  cd_denied :: "rstring list"

definition cidr_allow :: "rstring \<Rightarrow> cidr_restrictions \<Rightarrow> cidr_restrictions" where
  "cidr_allow c r = r\<lparr>cd_allowed := cd_allowed r @ [c]\<rparr>"

definition cidr_deny :: "rstring \<Rightarrow> cidr_restrictions \<Rightarrow> cidr_restrictions" where
  "cidr_deny c r = r\<lparr>cd_denied := cd_denied r @ [c]\<rparr>"

definition ip_restriction_from :: "cidr_restrictions \<Rightarrow> ip_restriction" where
  "ip_restriction_from cr = \<lparr>ir_allow_cidrs = cd_allowed cr, ir_deny_cidrs = cd_denied cr\<rparr>"

definition mutual_tls_from :: "bytes list \<Rightarrow> mutual_tls" where
  "mutual_tls_from b = \<lparr>mt_mutual_tls_ca = concat b\<rparr>"

record 'j common_opts =
  co_cidr_restrictions :: cidr_restrictions
  co_proxy_proto :: proxy_proto
  co_metadata :: "rstring option"
  co_forwards_to :: "rstring option"
  co_forwards_proto :: "rstring option"
  co_verify_upstream_tls :: "bool option"
  co_policy :: "'j policy option"
  co_traffic_policy :: "rstring option"
  co_pooling_enabled :: "bool option"

definition common_opts_default :: "'j common_opts" where
  "common_opts_default = \<lparr>co_cidr_restrictions = \<lparr>cd_allowed = [], cd_denied = []\<rparr>, co_proxy_proto = PpNone,
     co_metadata = None, co_forwards_to = None, co_forwards_proto = None, co_verify_upstream_tls = None,
     co_policy = None, co_traffic_policy = None, co_pooling_enabled = None\<rparr>"

definition co_ip_restriction :: "'j common_opts \<Rightarrow> ip_restriction option" where
  "co_ip_restriction c =
     (if cd_allowed (co_cidr_restrictions c) \<noteq> [] \<or> cd_denied (co_cidr_restrictions c) \<noteq> []
      then Some (ip_restriction_from (co_cidr_restrictions c)) else None)"

definition co_for_forwarding_to :: "url \<Rightarrow> 'j common_opts \<Rightarrow> 'j common_opts" where
  "co_for_forwarding_to to_url c = c\<lparr>co_forwards_to := Some (url_text to_url)\<rparr>"

definition co_set_verify_upstream_tls :: "bool \<Rightarrow> 'j common_opts \<Rightarrow> 'j common_opts" where
  "co_set_verify_upstream_tls v c = c\<lparr>co_verify_upstream_tls := Some v\<rparr>"

definition co_get_verify_upstream_tls :: "'j common_opts \<Rightarrow> bool" where
  "co_get_verify_upstream_tls c = (case co_verify_upstream_tls c of None \<Rightarrow> True | Some v \<Rightarrow> v)"

text \<open>The policy that is sent: the text, or else the deprecated form.\<close>

definition wire_policy :: "('j \<Rightarrow> rstring) \<Rightarrow> 'j common_opts \<Rightarrow> policy_wrapper option" where
  "wire_policy text c =
     (if co_traffic_policy c \<noteq> None then map_option policy_wrapper_from_string (co_traffic_policy c)
      else map_option (policy_wrapper_from_policy text) (co_policy c))"

text \<open>The default of what a tunnel forwards to names the host, the program and its process.\<close>

definition default_forwards_to :: "rstring option \<Rightarrow> rstring option \<Rightarrow> nat \<Rightarrow> rstring" where
  "default_forwards_to hostname exe pid =
     (let known = (\<lambda>x. case x of None \<Rightarrow> str ''<unknown>'' | Some s \<Rightarrow> s) in
      str ''app://'' @ known hostname @ str ''/'' @ known exe @ str ''?pid='' @ decimal pid)"

section \<open>Header rules\<close>

record headers =
  hd_added :: "(rstring \<times> rstring) list"
  hd_removed :: "rstring list"

definition headers_default :: headers where
  "headers_default = \<lparr>hd_added = [], hd_removed = []\<rparr>"

definition headers_add :: "(rstring \<Rightarrow> rstring) \<Rightarrow> rstring \<Rightarrow> rstring \<Rightarrow> headers \<Rightarrow> headers" where
  "headers_add lc name v h = h\<lparr>hd_added := AList.update (lc name) v (hd_added h)\<rparr>"

definition headers_remove :: "(rstring \<Rightarrow> rstring) \<Rightarrow> rstring \<Rightarrow> headers \<Rightarrow> headers" where
  "headers_remove lc name h = h\<lparr>hd_removed := hd_removed h @ [lc name]\<rparr>"

definition has_entries :: "headers \<Rightarrow> bool" where
  "has_entries h \<longleftrightarrow> hd_added h \<noteq> [] \<or> hd_removed h \<noteq> []"

text \<open>\<open>order\<close> is the order in which the hash map is iterated.\<close>

definition headers_to_proto ::
  "((rstring \<times> rstring) list \<Rightarrow> (rstring \<times> rstring) list) \<Rightarrow> headers \<Rightarrow> headers_proto" where
  "headers_to_proto order h = \<lparr>hp_add = map (\<lambda>a. fst a @ str '':'' @ snd a) (order (hd_added h)),
     hp_remove = hd_removed h, hp_add_parsed = Map.empty\<rparr>"

section \<open>Authentication\<close>

record oauth_options =
  ao_provider :: rstring
  ao_client_id :: rstring
  ao_client_secret :: secret_string
  ao_allow_emails :: "rstring list"
  ao_allow_domains :: "rstring list"
  ao_scopes :: "rstring list"

definition oauth_new :: "rstring \<Rightarrow> oauth_options" where
  "oauth_new provider = \<lparr>ao_provider = provider, ao_client_id = [], ao_client_secret = secret_string_default,
     ao_allow_emails = [], ao_allow_domains = [], ao_scopes = []\<rparr>"

definition oauth_client_id :: "rstring \<Rightarrow> oauth_options \<Rightarrow> oauth_options" where
  "oauth_client_id i o1 = o1\<lparr>ao_client_id := i\<rparr>"

definition oauth_client_secret :: "rstring \<Rightarrow> oauth_options \<Rightarrow> oauth_options" where
  "oauth_client_secret secret o1 = o1\<lparr>ao_client_secret := SecretString secret\<rparr>"

definition oauth_allow_email :: "rstring \<Rightarrow> oauth_options \<Rightarrow> oauth_options" where
  "oauth_allow_email email o1 = o1\<lparr>ao_allow_emails := ao_allow_emails o1 @ [email]\<rparr>"

definition oauth_allow_domain :: "rstring \<Rightarrow> oauth_options \<Rightarrow> oauth_options" where
  "oauth_allow_domain d o1 = o1\<lparr>ao_allow_domains := ao_allow_domains o1 @ [d]\<rparr>"

definition oauth_scope :: "rstring \<Rightarrow> oauth_options \<Rightarrow> oauth_options" where
  "oauth_scope s o1 = o1\<lparr>ao_scopes := ao_scopes o1 @ [s]\<rparr>"

definition oauth_to_proto :: "oauth_options \<Rightarrow> oauth" where
  "oauth_to_proto o1 = \<lparr>oa_provider = ao_provider o1, oa_client_id = ao_client_id o1,
     oa_client_secret = ao_client_secret o1, oa_sealed_client_secret = [], oa_allow_emails = ao_allow_emails o1,
     oa_allow_domains = ao_allow_domains o1, oa_scopes = ao_scopes o1\<rparr>"

record oidc_options =
  id_issuer_url :: rstring
  id_client_id :: rstring
  id_client_secret :: secret_string
  id_allow_emails :: "rstring list"
  id_allow_domains :: "rstring list"
  id_scopes :: "rstring list"

definition oidc_new :: "rstring \<Rightarrow> rstring \<Rightarrow> rstring \<Rightarrow> oidc_options" where
  "oidc_new issuer client secret = \<lparr>id_issuer_url = issuer, id_client_id = client,
     id_client_secret = SecretString secret, id_allow_emails = [], id_allow_domains = [], id_scopes = []\<rparr>"

definition oidc_allow_email :: "rstring \<Rightarrow> oidc_options \<Rightarrow> oidc_options" where
  "oidc_allow_email email o1 = o1\<lparr>id_allow_emails := id_allow_emails o1 @ [email]\<rparr>"

definition oidc_allow_domain :: "rstring \<Rightarrow> oidc_options \<Rightarrow> oidc_options" where
  "oidc_allow_domain d o1 = o1\<lparr>id_allow_domains := id_allow_domains o1 @ [d]\<rparr>"

definition oidc_scope :: "rstring \<Rightarrow> oidc_options \<Rightarrow> oidc_options" where
  "oidc_scope s o1 = o1\<lparr>id_scopes := id_scopes o1 @ [s]\<rparr>"

definition oidc_to_proto :: "oidc_options \<Rightarrow> oidc" where
  "oidc_to_proto o1 = \<lparr>oi_issuer_url = id_issuer_url o1, oi_client_id = id_client_id o1,
     oi_client_secret = id_client_secret o1, oi_sealed_client_secret = [], oi_allow_emails = id_allow_emails o1,
     oi_allow_domains = id_allow_domains o1, oi_scopes = id_scopes o1\<rparr>"

record webhook_verification =
  wh_provider :: rstring
  wh_secret :: secret_string

definition webhook_to_proto :: "webhook_verification \<Rightarrow> webhook_verification_proto" where
  "webhook_to_proto wv = \<lparr>wv_provider = wh_provider wv, wv_secret = wh_secret wv, wv_sealed_secret = []\<rparr>"

end
