(* ===== verification/Config.thy ===== *)
theory Config
  imports Config_Common Tunnel_Session
begin

text \<open>
  The four kinds of tunnel of \<open>ngrok/src/config\<close> (\<open>http.rs\<close>, \<open>tcp.rs\<close>, \<open>tls.rs\<close>,
  \<open>labeled.rs\<close>): their options with every method of their builders, which all act on
  the options, and the implementation of \<open>TunnelConfig\<close>, here the function to
  \<open>tunnel_config\<close> whose fields are the methods of the trait. A method that panics
  returns \<open>Panic\<close>.
\<close>

text \<open>What the configuration takes from its surroundings: the default of \<open>forwards_to\<close>,
  the text of a JSON value, and the order of the hash maps.\<close>

record 'j config_env =
  cg_forwards_to :: rstring
  cg_text :: "'j \<Rightarrow> rstring"
  cg_order :: "(rstring \<times> rstring) list \<Rightarrow> (rstring \<times> rstring) list"

definition forwards_to_of :: "'j config_env \<Rightarrow> 'j common_opts \<Rightarrow> rstring" where
  "forwards_to_of G c = (case co_forwards_to c of None \<Rightarrow> cg_forwards_to G | Some f \<Rightarrow> f)"

definition bind_extra_of :: "'j common_opts \<Rightarrow> rstring list \<Rightarrow> bind_extra" where
  "bind_extra_of c bindings = \<lparr>be_token = secret_string_default, be_ip_policy_ref = [],
     be_metadata = (case co_metadata c of None \<Rightarrow> [] | Some md \<Rightarrow> md), be_bindings = bindings,
     be_pooling_enabled = (case co_pooling_enabled c of None \<Rightarrow> False | Some p \<Rightarrow> p)\<rparr>"

definition forwards_proto_of :: "'j common_opts \<Rightarrow> rstring" where
  "forwards_proto_of c = (case co_forwards_proto c of None \<Rightarrow> [] | Some p \<Rightarrow> p)"

section \<open>HTTP\<close>

datatype scheme = HTTP | HTTPS

definition scheme_from_str :: "(rstring \<Rightarrow> rstring) \<Rightarrow> rstring \<Rightarrow> (rstring, scheme) result" where
  "scheme_from_str uc s =
     (if uc s = str ''HTTP'' then Ok HTTP else if uc s = str ''HTTPS'' then Ok HTTPS else Err s)"

record ua_filter =
  ua_allow :: "rstring list"
  ua_deny :: "rstring list"

definition ua_filter_to_proto :: "ua_filter \<Rightarrow> user_agent_filter" where
  "ua_filter_to_proto ua = \<lparr>uf_allow = ua_allow ua, uf_deny = ua_deny ua\<rparr>"

record 'j http_options =
  ho_common_opts :: "'j common_opts"
  ho_scheme :: scheme
  ho_domain :: "rstring option"
  ho_mutual_tlsca :: "bytes list"
  ho_compression :: bool
  ho_websocket_tcp_conversion :: bool
  ho_circuit_breaker :: f64
  ho_request_headers :: headers
  ho_response_headers :: headers
  ho_rewrite_host :: bool
  ho_basic_auth :: "(rstring \<times> rstring) list"
  ho_oauth :: "oauth_options option"
  ho_oidc :: "oidc_options option"
  ho_webhook_verification :: "webhook_verification option"
  ho_user_agent_filter :: ua_filter
  ho_bindings :: "rstring list"

definition http_options_default :: "'j http_options" where
  "http_options_default = \<lparr>ho_common_opts = common_opts_default, ho_scheme = HTTPS, ho_domain = None,
     ho_mutual_tlsca = [], ho_compression = False, ho_websocket_tcp_conversion = False, ho_circuit_breaker = 0,
     ho_request_headers = headers_default, ho_response_headers = headers_default, ho_rewrite_host = False,
     ho_basic_auth = [], ho_oauth = None, ho_oidc = None, ho_webhook_verification = None,
     ho_user_agent_filter = \<lparr>ua_allow = [], ua_deny = []\<rparr>, ho_bindings = []\<rparr>"

definition http_user_agent_filter :: "'j http_options \<Rightarrow> user_agent_filter option" where
  "http_user_agent_filter o1 =
     (if ua_allow (ho_user_agent_filter o1) \<noteq> [] \<or> ua_deny (ho_user_agent_filter o1) \<noteq> []
      then Some (ua_filter_to_proto (ho_user_agent_filter o1)) else None)"

definition basic_auth_credential_from :: "rstring \<times> rstring \<Rightarrow> basic_auth_credential" where
  "basic_auth_credential_from b = \<lparr>bc_username = fst b, bc_cleartext_password = snd b, bc_hashed_password = []\<rparr>"

definition basic_auth_from :: "(rstring \<times> rstring) list \<Rightarrow> basic_auth" where
  "basic_auth_from v = \<lparr>ba_credentials = map basic_auth_credential_from v\<rparr>"

text \<open>Both zeros of the format are equal to \<open>0f64\<close>, and nothing else is.\<close>

definition f64_not_zero :: "f64 \<Rightarrow> bool" where
  "f64_not_zero x \<longleftrightarrow> x \<noteq> 0 \<and> x \<noteq> push_bit 63 1"

definition http_proto :: "'j http_options \<Rightarrow> rstring" where
  "http_proto o1 = (if ho_scheme o1 = HTTP then str ''http'' else str ''https'')"

definition http_opts :: "'j config_env \<Rightarrow> 'j http_options \<Rightarrow> bind_opts option" where
  "http_opts G o1 = Some (BoHttp (http_endpoint_default\<lparr>
     he_proxy_proto := co_proxy_proto (ho_common_opts o1),
     he_domain := (case ho_domain o1 of None \<Rightarrow> [] | Some d \<Rightarrow> d),
     he_hostname := [],
     he_compression := (if ho_compression o1 then Some Compression else None),
     he_circuit_breaker := (if f64_not_zero (ho_circuit_breaker o1)
        then Some \<lparr>cb_error_threshold = ho_circuit_breaker o1\<rparr> else None),
     he_ip_restriction := co_ip_restriction (ho_common_opts o1),
     he_basic_auth := (if ho_basic_auth o1 \<noteq> [] then Some (basic_auth_from (ho_basic_auth o1)) else None),
     he_oauth := map_option oauth_to_proto (ho_oauth o1),
     he_oidc := map_option oidc_to_proto (ho_oidc o1),
     he_webhook_verification := map_option webhook_to_proto (ho_webhook_verification o1),
     he_mutual_tls_ca := (if ho_mutual_tlsca o1 \<noteq> [] then Some (mutual_tls_from (ho_mutual_tlsca o1)) else None),
     he_request_headers := (if has_entries (ho_request_headers o1)
        then Some (headers_to_proto (cg_order G) (ho_request_headers o1)) else None),
     he_response_headers := (if has_entries (ho_response_headers o1)
        then Some (headers_to_proto (cg_order G) (ho_response_headers o1)) else None),
     he_websocket_tcp_converter := (if ho_websocket_tcp_conversion o1 then Some WebsocketTcpConverter else None),
     he_user_agent_filter := http_user_agent_filter o1,
     he_traffic_policy := wire_policy (cg_text G) (ho_common_opts o1)\<rparr>))"

definition http_config :: "'j config_env \<Rightarrow> 'j http_options \<Rightarrow> tunnel_config" where
  "http_config G o1 = \<lparr>tg_forwards_to = forwards_to_of G (ho_common_opts o1),
     tg_forwards_proto = forwards_proto_of (ho_common_opts o1),
     tg_verify_upstream_tls = co_get_verify_upstream_tls (ho_common_opts o1),
     tg_extra = bind_extra_of (ho_common_opts o1) (ho_bindings o1),
     tg_proto = http_proto o1, tg_opts = http_opts G o1, tg_labels = Map.empty\<rparr>"

definition http_common :: "('j common_opts \<Rightarrow> 'j common_opts) \<Rightarrow> 'j http_options \<Rightarrow> 'j http_options" where
  "http_common f o1 = o1\<lparr>ho_common_opts := f (ho_common_opts o1)\<rparr>"

definition co_allow_cidr :: "rstring \<Rightarrow> 'j common_opts \<Rightarrow> 'j common_opts" where
  "co_allow_cidr c o1 = o1\<lparr>co_cidr_restrictions := cidr_allow c (co_cidr_restrictions o1)\<rparr>"

definition co_deny_cidr :: "rstring \<Rightarrow> 'j common_opts \<Rightarrow> 'j common_opts" where
  "co_deny_cidr c o1 = o1\<lparr>co_cidr_restrictions := cidr_deny c (co_cidr_restrictions o1)\<rparr>"

definition http_allow_cidr :: "rstring \<Rightarrow> 'j http_options \<Rightarrow> 'j http_options" where
  "http_allow_cidr c = http_common (co_allow_cidr c)"

definition http_deny_cidr :: "rstring \<Rightarrow> 'j http_options \<Rightarrow> 'j http_options" where
  "http_deny_cidr c = http_common (co_deny_cidr c)"

definition http_proxy_proto :: "proxy_proto \<Rightarrow> 'j http_options \<Rightarrow> 'j http_options" where
  "http_proxy_proto p = http_common (\<lambda>c. c\<lparr>co_proxy_proto := p\<rparr>)"

definition http_metadata :: "rstring \<Rightarrow> 'j http_options \<Rightarrow> 'j http_options" where
  "http_metadata md = http_common (\<lambda>c. c\<lparr>co_metadata := Some md\<rparr>)"

definition http_binding :: "(rstring \<Rightarrow> rstring) \<Rightarrow> rstring \<Rightarrow> 'j http_options \<Rightarrow> 'j http_options ran" where
  "http_binding lc b o1 =
     (case set_binding lc b (ho_bindings o1) of Panic \<Rightarrow> Panic | Value bs \<Rightarrow> Value (o1\<lparr>ho_bindings := bs\<rparr>))"

definition http_forwards_to :: "rstring \<Rightarrow> 'j http_options \<Rightarrow> 'j http_options" where
  "http_forwards_to f = http_common (\<lambda>c. c\<lparr>co_forwards_to := Some f\<rparr>)"

definition http_app_protocol :: "rstring \<Rightarrow> 'j http_options \<Rightarrow> 'j http_options" where
  "http_app_protocol p = http_common (\<lambda>c. c\<lparr>co_forwards_proto := Some p\<rparr>)"

definition http_verify_upstream_tls :: "bool \<Rightarrow> 'j http_options \<Rightarrow> 'j http_options" where
  "http_verify_upstream_tls v = http_common (co_set_verify_upstream_tls v)"

definition http_scheme :: "scheme \<Rightarrow> 'j http_options \<Rightarrow> 'j http_options" where
  "http_scheme s o1 = o1\<lparr>ho_scheme := s\<rparr>"

definition http_domain :: "rstring \<Rightarrow> 'j http_options \<Rightarrow> 'j http_options" where
  "http_domain d o1 = o1\<lparr>ho_domain := Some d\<rparr>"

definition http_mutual_tlsca :: "bytes \<Rightarrow> 'j http_options \<Rightarrow> 'j http_options" where
  "http_mutual_tlsca ca o1 = o1\<lparr>ho_mutual_tlsca := ho_mutual_tlsca o1 @ [ca]\<rparr>"

definition http_compression :: "'j http_options \<Rightarrow> 'j http_options" where
  "http_compression o1 = o1\<lparr>ho_compression := True\<rparr>"

definition http_websocket_tcp_conversion :: "'j http_options \<Rightarrow> 'j http_options" where
  "http_websocket_tcp_conversion o1 = o1\<lparr>ho_websocket_tcp_conversion := True\<rparr>"

definition http_circuit_breaker :: "f64 \<Rightarrow> 'j http_options \<Rightarrow> 'j http_options" where
  "http_circuit_breaker x o1 = o1\<lparr>ho_circuit_breaker := x\<rparr>"

definition http_host_header_rewrite :: "bool \<Rightarrow> 'j http_options \<Rightarrow> 'j http_options" where
  "http_host_header_rewrite r o1 = o1\<lparr>ho_rewrite_host := r\<rparr>"

definition http_request_header ::
  "(rstring \<Rightarrow> rstring) \<Rightarrow> rstring \<Rightarrow> rstring \<Rightarrow> 'j http_options \<Rightarrow> 'j http_options" where
  "http_request_header lc name v o1 = o1\<lparr>ho_request_headers := headers_add lc name v (ho_request_headers o1)\<rparr>"

definition http_response_header ::
  "(rstring \<Rightarrow> rstring) \<Rightarrow> rstring \<Rightarrow> rstring \<Rightarrow> 'j http_options \<Rightarrow> 'j http_options" where
  "http_response_header lc name v o1 = o1\<lparr>ho_response_headers := headers_add lc name v (ho_response_headers o1)\<rparr>"

definition http_remove_request_header :: "(rstring \<Rightarrow> rstring) \<Rightarrow> rstring \<Rightarrow> 'j http_options \<Rightarrow> 'j http_options" where
  "http_remove_request_header lc name o1 = o1\<lparr>ho_request_headers := headers_remove lc name (ho_request_headers o1)\<rparr>"

definition http_remove_response_header :: "(rstring \<Rightarrow> rstring) \<Rightarrow> rstring \<Rightarrow> 'j http_options \<Rightarrow> 'j http_options" where
  "http_remove_response_header lc name o1 = o1\<lparr>ho_response_headers := headers_remove lc name (ho_response_headers o1)\<rparr>"

definition http_basic_auth :: "rstring \<Rightarrow> rstring \<Rightarrow> 'j http_options \<Rightarrow> 'j http_options" where
  "http_basic_auth username password o1 = o1\<lparr>ho_basic_auth := ho_basic_auth o1 @ [(username, password)]\<rparr>"

definition http_oauth :: "oauth_options \<Rightarrow> 'j http_options \<Rightarrow> 'j http_options" where
  "http_oauth oauth o1 = o1\<lparr>ho_oauth := Some oauth\<rparr>"

definition http_oidc :: "oidc_options \<Rightarrow> 'j http_options \<Rightarrow> 'j http_options" where
  "http_oidc oidc o1 = o1\<lparr>ho_oidc := Some oidc\<rparr>"

definition http_webhook_verification :: "rstring \<Rightarrow> rstring \<Rightarrow> 'j http_options \<Rightarrow> 'j http_options" where
  "http_webhook_verification provider secret o1 =
     o1\<lparr>ho_webhook_verification := Some \<lparr>wh_provider = provider, wh_secret = SecretString secret\<rparr>\<rparr>"

definition http_allow_user_agent :: "rstring \<Rightarrow> 'j http_options \<Rightarrow> 'j http_options" where
  "http_allow_user_agent re o1 = o1\<lparr>ho_user_agent_filter :=
     (ho_user_agent_filter o1)\<lparr>ua_allow := ua_allow (ho_user_agent_filter o1) @ [re]\<rparr>\<rparr>"

definition http_deny_user_agent :: "rstring \<Rightarrow> 'j http_options \<Rightarrow> 'j http_options" where
  "http_deny_user_agent re o1 = o1\<lparr>ho_user_agent_filter :=
     (ho_user_agent_filter o1)\<lparr>ua_deny := ua_deny (ho_user_agent_filter o1) @ [re]\<rparr>\<rparr>"

text \<open>The deprecated policy, from what converts to one.\<close>

definition http_policy :: "('e, 'j policy) result \<Rightarrow> 'j http_options \<Rightarrow> ('e, 'j http_options) result" where
  "http_policy s o1 = and_then s (\<lambda>p. Ok (http_common (\<lambda>c. c\<lparr>co_policy := Some p\<rparr>) o1))"

definition http_traffic_policy :: "rstring \<Rightarrow> 'j http_options \<Rightarrow> 'j http_options" where
  "http_traffic_policy p = http_common (\<lambda>c. c\<lparr>co_traffic_policy := Some p\<rparr>)"

definition http_for_forwarding_to :: "(rstring \<Rightarrow> rstring) \<Rightarrow> url \<Rightarrow> 'j http_options \<Rightarrow> 'j http_options" where
  "http_for_forwarding_to lc to_url o1 =
     (let o2 = http_common (co_for_forwarding_to to_url) o1 in
      case url_host to_url of
        Some host \<Rightarrow> if ho_rewrite_host o1 then http_request_header lc (str ''host'') host o2 else o2
      | None \<Rightarrow> o2)"

definition http_pooling_enabled :: "bool \<Rightarrow> 'j http_options \<Rightarrow> 'j http_options" where
  "http_pooling_enabled p = http_common (\<lambda>c. c\<lparr>co_pooling_enabled := Some p\<rparr>)"

section \<open>TCP\<close>

record 'j tcp_options =
  to_common_opts :: "'j common_opts"
  to_remote_addr :: "rstring option"
  to_bindings :: "rstring list"

definition tcp_options_default :: "'j tcp_options" where
  "tcp_options_default = \<lparr>to_common_opts = common_opts_default, to_remote_addr = None, to_bindings = []\<rparr>"

definition tcp_opts :: "'j config_env \<Rightarrow> 'j tcp_options \<Rightarrow> bind_opts option" where
  "tcp_opts G o1 =
     (let e = (case to_remote_addr o1 of None \<Rightarrow> tcp_endpoint_default | Some a \<Rightarrow> tcp_endpoint_default\<lparr>te_addr := a\<rparr>) in
      Some (BoTcp (e\<lparr>te_proxy_proto := co_proxy_proto (to_common_opts o1),
        te_ip_restriction := co_ip_restriction (to_common_opts o1),
        te_traffic_policy := wire_policy (cg_text G) (to_common_opts o1)\<rparr>)))"

definition tcp_config :: "'j config_env \<Rightarrow> 'j tcp_options \<Rightarrow> tunnel_config" where
  "tcp_config G o1 = \<lparr>tg_forwards_to = forwards_to_of G (to_common_opts o1), tg_forwards_proto = [],
     tg_verify_upstream_tls = co_get_verify_upstream_tls (to_common_opts o1),
     tg_extra = bind_extra_of (to_common_opts o1) (to_bindings o1),
     tg_proto = str ''tcp'', tg_opts = tcp_opts G o1, tg_labels = Map.empty\<rparr>"

definition tcp_common :: "('j common_opts \<Rightarrow> 'j common_opts) \<Rightarrow> 'j tcp_options \<Rightarrow> 'j tcp_options" where
  "tcp_common f o1 = o1\<lparr>to_common_opts := f (to_common_opts o1)\<rparr>"

definition tcp_allow_cidr :: "rstring \<Rightarrow> 'j tcp_options \<Rightarrow> 'j tcp_options" where
  "tcp_allow_cidr c = tcp_common (co_allow_cidr c)"

definition tcp_deny_cidr :: "rstring \<Rightarrow> 'j tcp_options \<Rightarrow> 'j tcp_options" where
  "tcp_deny_cidr c = tcp_common (co_deny_cidr c)"

definition tcp_proxy_proto :: "proxy_proto \<Rightarrow> 'j tcp_options \<Rightarrow> 'j tcp_options" where
  "tcp_proxy_proto p = tcp_common (\<lambda>c. c\<lparr>co_proxy_proto := p\<rparr>)"

definition tcp_metadata :: "rstring \<Rightarrow> 'j tcp_options \<Rightarrow> 'j tcp_options" where
  "tcp_metadata md = tcp_common (\<lambda>c. c\<lparr>co_metadata := Some md\<rparr>)"

definition tcp_binding :: "(rstring \<Rightarrow> rstring) \<Rightarrow> rstring \<Rightarrow> 'j tcp_options \<Rightarrow> 'j tcp_options ran" where
  "tcp_binding lc b o1 =
     (case set_binding lc b (to_bindings o1) of Panic \<Rightarrow> Panic | Value bs \<Rightarrow> Value (o1\<lparr>to_bindings := bs\<rparr>))"

definition tcp_forwards_to :: "rstring \<Rightarrow> 'j tcp_options \<Rightarrow> 'j tcp_options" where
  "tcp_forwards_to f = tcp_common (\<lambda>c. c\<lparr>co_forwards_to := Some f\<rparr>)"

definition tcp_verify_upstream_tls :: "bool \<Rightarrow> 'j tcp_options \<Rightarrow> 'j tcp_options" where
  "tcp_verify_upstream_tls v = tcp_common (co_set_verify_upstream_tls v)"

definition tcp_remote_addr :: "rstring \<Rightarrow> 'j tcp_options \<Rightarrow> 'j tcp_options" where
  "tcp_remote_addr a o1 = o1\<lparr>to_remote_addr := Some a\<rparr>"

definition tcp_policy :: "('e, 'j policy) result \<Rightarrow> 'j tcp_options \<Rightarrow> ('e, 'j tcp_options) result" where
  "tcp_policy s o1 = and_then s (\<lambda>p. Ok (tcp_common (\<lambda>c. c\<lparr>co_policy := Some p\<rparr>) o1))"

definition tcp_traffic_policy :: "rstring \<Rightarrow> 'j tcp_options \<Rightarrow> 'j tcp_options" where
  "tcp_traffic_policy p = tcp_common (\<lambda>c. c\<lparr>co_traffic_policy := Some p\<rparr>)"

definition tcp_for_forwarding_to :: "url \<Rightarrow> 'j tcp_options \<Rightarrow> 'j tcp_options" where
  "tcp_for_forwarding_to to_url = tcp_common (co_for_forwarding_to to_url)"

definition tcp_pooling_enabled :: "bool \<Rightarrow> 'j tcp_options \<Rightarrow> 'j tcp_options" where
  "tcp_pooling_enabled p = tcp_common (\<lambda>c. c\<lparr>co_pooling_enabled := Some p\<rparr>)"

section \<open>TLS\<close>

record 'j tls_options =
  so_common_opts :: "'j common_opts"
  so_domain :: "rstring option"
  so_mutual_tlsca :: "bytes list"
  so_key_pem :: "bytes option"
  so_cert_pem :: "bytes option"
  so_bindings :: "rstring list"

definition tls_options_default :: "'j tls_options" where
  "tls_options_default = \<lparr>so_common_opts = common_opts_default, so_domain = None, so_mutual_tlsca = [],
     so_key_pem = None, so_cert_pem = None, so_bindings = []\<rparr>"

definition tls_termination_of :: "'j tls_options \<Rightarrow> tls_termination option" where
  "tls_termination_of o1 =
     (case (so_cert_pem o1, so_key_pem o1) of
        (Some c, Some k) \<Rightarrow> Some \<lparr>tt_cert = c, tt_key = SecretBytes k, tt_sealed_key = []\<rparr>
      | _ \<Rightarrow> None)"

definition tls_opts :: "'j config_env \<Rightarrow> 'j tls_options \<Rightarrow> bind_opts option" where
  "tls_opts G o1 =
     (let e = (case so_domain o1 of None \<Rightarrow> tls_endpoint_default | Some d \<Rightarrow> tls_endpoint_default\<lparr>tl_domain := d\<rparr>) in
      Some (BoTls (e\<lparr>tl_proxy_proto := co_proxy_proto (so_common_opts o1),
        tl_ip_restriction := co_ip_restriction (so_common_opts o1),
        tl_mutual_tls_at_edge := (if so_mutual_tlsca o1 \<noteq> [] then Some (mutual_tls_from (so_mutual_tlsca o1)) else None),
        tl_tls_termination := tls_termination_of o1,
        tl_traffic_policy := wire_policy (cg_text G) (so_common_opts o1)\<rparr>)))"

definition tls_config_of :: "'j config_env \<Rightarrow> 'j tls_options \<Rightarrow> tunnel_config" where
  "tls_config_of G o1 = \<lparr>tg_forwards_to = forwards_to_of G (so_common_opts o1), tg_forwards_proto = [],
     tg_verify_upstream_tls = co_get_verify_upstream_tls (so_common_opts o1),
     tg_extra = bind_extra_of (so_common_opts o1) (so_bindings o1),
     tg_proto = str ''tls'', tg_opts = tls_opts G o1, tg_labels = Map.empty\<rparr>"

definition tls_common :: "('j common_opts \<Rightarrow> 'j common_opts) \<Rightarrow> 'j tls_options \<Rightarrow> 'j tls_options" where
  "tls_common f o1 = o1\<lparr>so_common_opts := f (so_common_opts o1)\<rparr>"

definition tls_allow_cidr :: "rstring \<Rightarrow> 'j tls_options \<Rightarrow> 'j tls_options" where
  "tls_allow_cidr c = tls_common (co_allow_cidr c)"

definition tls_deny_cidr :: "rstring \<Rightarrow> 'j tls_options \<Rightarrow> 'j tls_options" where
  "tls_deny_cidr c = tls_common (co_deny_cidr c)"

definition tls_proxy_proto :: "proxy_proto \<Rightarrow> 'j tls_options \<Rightarrow> 'j tls_options" where
  "tls_proxy_proto p = tls_common (\<lambda>c. c\<lparr>co_proxy_proto := p\<rparr>)"

definition tls_metadata :: "rstring \<Rightarrow> 'j tls_options \<Rightarrow> 'j tls_options" where
  "tls_metadata md = tls_common (\<lambda>c. c\<lparr>co_metadata := Some md\<rparr>)"

definition tls_binding :: "(rstring \<Rightarrow> rstring) \<Rightarrow> rstring \<Rightarrow> 'j tls_options \<Rightarrow> 'j tls_options ran" where
  "tls_binding lc b o1 =
     (case set_binding lc b (so_bindings o1) of Panic \<Rightarrow> Panic | Value bs \<Rightarrow> Value (o1\<lparr>so_bindings := bs\<rparr>))"

definition tls_forwards_to :: "rstring \<Rightarrow> 'j tls_options \<Rightarrow> 'j tls_options" where
  "tls_forwards_to f = tls_common (\<lambda>c. c\<lparr>co_forwards_to := Some f\<rparr>)"

definition tls_verify_upstream_tls :: "bool \<Rightarrow> 'j tls_options \<Rightarrow> 'j tls_options" where
  "tls_verify_upstream_tls v = tls_common (co_set_verify_upstream_tls v)"

definition tls_domain :: "rstring \<Rightarrow> 'j tls_options \<Rightarrow> 'j tls_options" where
  "tls_domain d o1 = o1\<lparr>so_domain := Some d\<rparr>"

definition tls_mutual_tlsca :: "bytes \<Rightarrow> 'j tls_options \<Rightarrow> 'j tls_options" where
  "tls_mutual_tlsca ca o1 = o1\<lparr>so_mutual_tlsca := so_mutual_tlsca o1 @ [ca]\<rparr>"

definition tls_termination_pem :: "bytes \<Rightarrow> bytes \<Rightarrow> 'j tls_options \<Rightarrow> 'j tls_options" where
  "tls_termination_pem cert_pem key_pem o1 = o1\<lparr>so_key_pem := Some key_pem, so_cert_pem := Some cert_pem\<rparr>"

definition tls_policy :: "('e, 'j policy) result \<Rightarrow> 'j tls_options \<Rightarrow> ('e, 'j tls_options) result" where
  "tls_policy s o1 = and_then s (\<lambda>p. Ok (tls_common (\<lambda>c. c\<lparr>co_policy := Some p\<rparr>) o1))"

definition tls_traffic_policy :: "rstring \<Rightarrow> 'j tls_options \<Rightarrow> 'j tls_options" where
  "tls_traffic_policy p = tls_common (\<lambda>c. c\<lparr>co_traffic_policy := Some p\<rparr>)"

definition tls_for_forwarding_to :: "url \<Rightarrow> 'j tls_options \<Rightarrow> 'j tls_options" where
  "tls_for_forwarding_to to_url = tls_common (co_for_forwarding_to to_url)"

definition tls_pooling_enabled :: "bool \<Rightarrow> 'j tls_options \<Rightarrow> 'j tls_options" where
  "tls_pooling_enabled p = tls_common (\<lambda>c. c\<lparr>co_pooling_enabled := Some p\<rparr>)"

section \<open>Labeled tunnels\<close>

record 'j labeled_options =
  lo_common_opts :: "'j common_opts"
  lo_labels :: "rstring \<rightharpoonup> rstring"

definition labeled_options_default :: "'j labeled_options" where
  "labeled_options_default = \<lparr>lo_common_opts = common_opts_default, lo_labels = Map.empty\<rparr>"

definition labeled_config :: "'j config_env \<Rightarrow> 'j labeled_options \<Rightarrow> tunnel_config" where
  "labeled_config G o1 = \<lparr>tg_forwards_to = forwards_to_of G (lo_common_opts o1),
     tg_forwards_proto = forwards_proto_of (lo_common_opts o1),
     tg_verify_upstream_tls = co_get_verify_upstream_tls (lo_common_opts o1),
     tg_extra = bind_extra_of (lo_common_opts o1) [],
     tg_proto = [], tg_opts = None, tg_labels = lo_labels o1\<rparr>"

definition labeled_common :: "('j common_opts \<Rightarrow> 'j common_opts) \<Rightarrow> 'j labeled_options \<Rightarrow> 'j labeled_options" where
  "labeled_common f o1 = o1\<lparr>lo_common_opts := f (lo_common_opts o1)\<rparr>"

definition labeled_metadata :: "rstring \<Rightarrow> 'j labeled_options \<Rightarrow> 'j labeled_options" where
  "labeled_metadata md = labeled_common (\<lambda>c. c\<lparr>co_metadata := Some md\<rparr>)"

definition labeled_label :: "rstring \<Rightarrow> rstring \<Rightarrow> 'j labeled_options \<Rightarrow> 'j labeled_options" where
  "labeled_label l v o1 = o1\<lparr>lo_labels := (lo_labels o1)(l \<mapsto> v)\<rparr>"

definition labeled_forwards_to :: "rstring \<Rightarrow> 'j labeled_options \<Rightarrow> 'j labeled_options" where
  "labeled_forwards_to f = labeled_common (\<lambda>c. c\<lparr>co_forwards_to := Some f\<rparr>)"

definition labeled_app_protocol :: "rstring \<Rightarrow> 'j labeled_options \<Rightarrow> 'j labeled_options" where
  "labeled_app_protocol p = labeled_common (\<lambda>c. c\<lparr>co_forwards_proto := Some p\<rparr>)"

definition labeled_verify_upstream_tls :: "bool \<Rightarrow> 'j labeled_options \<Rightarrow> 'j labeled_options" where
  "labeled_verify_upstream_tls v = labeled_common (co_set_verify_upstream_tls v)"

definition labeled_for_forwarding_to :: "url \<Rightarrow> 'j labeled_options \<Rightarrow> 'j labeled_options" where
  "labeled_for_forwarding_to to_url = labeled_common (co_for_forwarding_to to_url)"

section \<open>Builders\<close>

text \<open>
  What \<open>impl_builder!\<close> makes of each kind of options: a builder with its session, which
  is there unless a test left it out, and \<open>listen\<close>.
\<close>

record ('o, 's) tunnel_builder =
  tb_options :: 'o
  tb_session :: "'s option"

definition builder_from_session :: "'o \<Rightarrow> 's \<Rightarrow> ('o, 's) tunnel_builder" where
  "builder_from_session dflt session = \<lparr>tb_options = dflt, tb_session = Some session\<rparr>"

definition listen ::
  "('c, 'y) rpc_env \<Rightarrow> serde \<Rightarrow> ('o \<Rightarrow> tunnel_config) \<Rightarrow> ('o, ('n, 't, 'io, 'h, 'c, 'x) session_world) tunnel_builder
     \<Rightarrow> ((rpc_error, tunnel_inner) result \<times> ('n, 't, 'io, 'h, 'c, 'x) session_world) async" where
  "listen E S config b =
     (case tb_session b of
        None \<Rightarrow> Some Panic
      | Some session \<Rightarrow> start_tunnel E S (config (tb_options b)) session)"

end
