(* ===== verification/Config_Props.thy ===== *)
theory Config_Props
  imports Config Tunnel_Props "HOL-Library.Multiset"
begin

text \<open>
  Facts about tunnel configurations. The session unwraps the options of every tunnel that
  has a protocol; the locale states that promise of \<open>TunnelConfig\<close> and what the session
  makes of it, and each kind of options keeps it. The options built by any sequence of
  calls of the builders carry at most one binding, a valid one, and header rules whose
  names are in lower case and do not repeat.
\<close>

section \<open>The contract of \<open>TunnelConfig\<close>\<close>

locale bindable =
  fixes config :: "'o \<Rightarrow> tunnel_config"
  assumes opts_iff: "tg_proto (config o1) \<noteq> [] \<longleftrightarrow> tg_opts (config o1) \<noteq> None"
begin

lemma start_no_panic: "start_tunnel E S (config o1) W \<noteq> Some Panic"
  using opts_iff [of o1]
  by (auto simp: start_tunnel_def chan_open_def Let_def elim!: and_await_PanicE split: sum.splits option.splits)

lemma listen_no_panic: "tb_session b \<noteq> None \<Longrightarrow> listen E S config b \<noteq> Some Panic"
  using start_no_panic by (auto simp: listen_def split: option.splits)

end

lemma proto_names: "str ''http'' \<noteq> []" "str ''https'' \<noteq> []" "str ''tcp'' \<noteq> []" "str ''tls'' \<noteq> []"
  by (simp_all add: str_def)

interpretation http: bindable "http_config G"
  by unfold_locales (simp add: http_config_def http_proto_def http_opts_def proto_names)

interpretation tcp: bindable "tcp_config G"
  by unfold_locales (simp add: tcp_config_def tcp_opts_def Let_def proto_names)

interpretation tls: bindable "tls_config_of G"
  by unfold_locales (simp add: tls_config_of_def tls_opts_def Let_def proto_names)

interpretation labeled: bindable "labeled_config G"
  by unfold_locales (simp add: labeled_config_def)

text \<open>What \<open>start_tunnel\<close> leaves in the session, for any configuration.\<close>

definition bound_as :: "tunnel_config \<Rightarrow> ('n, 't, 'io, 'h, 'c, 'x) session_world \<Rightarrow> tunnel_inner
    \<Rightarrow> ('n, 't, 'io, 'h, 'c, 'x) session_world \<Rightarrow> bool" where
  "bound_as cfg W tn W1 \<longleftrightarrow>
     (\<forall>i. i \<noteq> ti_id (tn_info tn) \<longrightarrow> tunnels W1 i = tunnels W i) \<and>
     ti_forwards_to (tn_info tn) = tg_forwards_to cfg \<and> ti_metadata (tn_info tn) = be_metadata (tg_extra cfg) \<and>
     (case tunnels W1 (ti_id (tn_info tn)) of
        None \<Rightarrow> False
      | Some t \<Rightarrow>
        tn_incoming tn = Some (bt_tx t) \<and> bt_tx t = sw_next W \<and> sw_chans W1 (bt_tx t) = \<lparr>tc_queue = [], tc_open = True\<rparr> \<and>
        bt_forwards_to t = tg_forwards_to cfg \<and> bt_forwards_proto t = tg_forwards_proto cfg \<and>
        bt_verify_upstream_tls t = tg_verify_upstream_tls cfg \<and>
        (tg_proto cfg = [] \<longrightarrow> bt_opts t = None \<and> bt_labels t = tg_labels cfg))"

lemma start_tunnel_binds:
  assumes "start_tunnel E S cfg W = ready (Ok tn, W1)"
  shows "bound_as cfg W tn W1"
  using assms
  by (auto simp: start_tunnel_def chan_open_def chan_drop_def Let_def bound_as_def on_tunnels_def on_client_def
      simp del: and_await_Value_iff elim!: and_awaitE split: if_splits option.splits sum.splits)

text \<open>The configurations the crate makes.\<close>

definition crate_config :: "'j config_env \<Rightarrow> tunnel_config \<Rightarrow> bool" where
  "crate_config G cfg \<longleftrightarrow> cfg \<in> range (http_config G) \<union> range (tcp_config G) \<union> range (tls_config_of G) \<union>
     range (labeled_config G)"

section \<open>What the builders build\<close>

definition bindings_ok :: "(rstring \<Rightarrow> rstring) \<Rightarrow> rstring list \<Rightarrow> bool" where
  "bindings_ok lc bs \<longleftrightarrow> length bs \<le> 1 \<and> (\<forall>b \<in> set bs. \<exists>x. binding_from_str lc b = Ok x)"

lemma validate_iff: "binding_validate lc b = Ok () \<longleftrightarrow> (\<exists>x. binding_from_str lc b = Ok x)"
  by (auto simp: binding_validate_def binding_from_str_def)

lemma set_binding_ok: "set_binding lc b bs = Value bs' \<Longrightarrow> bindings_ok lc bs'"
  using validate_iff [of lc b] by (auto simp: set_binding_def bindings_ok_def split: if_splits sum.splits)

definition headers_ok :: "(rstring \<Rightarrow> rstring) \<Rightarrow> headers \<Rightarrow> bool" where
  "headers_ok lc h \<longleftrightarrow> distinct (map fst (hd_added h)) \<and> fst ` set (hd_added h) \<union> set (hd_removed h) \<subseteq> range lc"

lemma headers_ok_simps [simp]:
  "headers_ok lc headers_default"
  "headers_ok lc h \<Longrightarrow> headers_ok lc (headers_add lc name v h)"
  "headers_ok lc h \<Longrightarrow> headers_ok lc (headers_remove lc name h)"
  by (auto simp: headers_ok_def headers_default_def headers_add_def headers_remove_def distinct_update AList.dom_update)

text \<open>Any call of a method of the builder of HTTP tunnels.\<close>

inductive http_step :: "(rstring \<Rightarrow> rstring) \<Rightarrow> 'j http_options \<Rightarrow> 'j http_options \<Rightarrow> bool" for lc where
  hs_common: "o2 \<in> {http_allow_cidr s o1, http_deny_cidr s o1, http_proxy_proto pp o1, http_metadata s o1,
      http_forwards_to s o1, http_app_protocol s o1, http_verify_upstream_tls b o1, http_traffic_policy s o1,
      http_pooling_enabled b o1} \<Longrightarrow> http_step lc o1 o2"
| hs_option: "o2 \<in> {http_scheme sc o1, http_domain s o1, http_mutual_tlsca pem o1, http_compression o1,
      http_websocket_tcp_conversion o1, http_circuit_breaker x o1, http_host_header_rewrite b o1,
      http_basic_auth s s' o1, http_oauth oa o1, http_oidc oi o1, http_webhook_verification s s' o1,
      http_allow_user_agent s o1, http_deny_user_agent s o1} \<Longrightarrow> http_step lc o1 o2"
| hs_header: "o2 \<in> {http_request_header lc s s' o1, http_response_header lc s s' o1,
      http_remove_request_header lc s o1, http_remove_response_header lc s o1} \<Longrightarrow> http_step lc o1 o2"
| hs_binding: "http_binding lc s o1 = Value o2 \<Longrightarrow> http_step lc o1 o2"
| hs_policy: "http_policy (q :: (invalid_policy, 'j policy) result) o1 = Ok o2 \<Longrightarrow> http_step lc o1 o2"
| hs_forward: "http_step lc o1 (http_for_forwarding_to lc u o1)"

definition http_ok :: "(rstring \<Rightarrow> rstring) \<Rightarrow> 'j http_options \<Rightarrow> bool" where
  "http_ok lc o1 \<longleftrightarrow> bindings_ok lc (ho_bindings o1) \<and> headers_ok lc (ho_request_headers o1) \<and>
     headers_ok lc (ho_response_headers o1)"

lemmas http_methods = http_allow_cidr_def http_deny_cidr_def http_proxy_proto_def http_metadata_def http_forwards_to_def
  http_app_protocol_def http_verify_upstream_tls_def http_traffic_policy_def http_pooling_enabled_def http_common_def
  http_scheme_def http_domain_def http_mutual_tlsca_def http_compression_def http_websocket_tcp_conversion_def
  http_circuit_breaker_def http_host_header_rewrite_def http_basic_auth_def http_oauth_def http_oidc_def
  http_webhook_verification_def http_allow_user_agent_def http_deny_user_agent_def http_request_header_def
  http_response_header_def http_remove_request_header_def http_remove_response_header_def

lemma http_ok_simps [simp]:
  "http_ok lc (http_common f o1) = http_ok lc o1"
  "http_ok lc o1 \<Longrightarrow> http_ok lc (http_request_header lc s s' o1)"
  by (simp_all add: http_ok_def http_common_def http_request_header_def)

lemma http_step_ok:
  assumes "http_ok lc o1" "http_step lc o1 o2"
  shows "http_ok lc o2"
  using assms(2)
proof cases
  case hs_forward
  with assms(1) show ?thesis
    by (simp add: http_for_forwarding_to_def Let_def split: option.split)
next
  case (hs_binding s)
  with assms(1) set_binding_ok [of lc s] show ?thesis
    by (auto simp: http_binding_def http_ok_def split: ran.splits)
next
  case (hs_policy q)
  with assms(1) show ?thesis
    by (auto simp: http_policy_def)
qed (use assms(1) in \<open>auto simp: http_ok_def http_methods\<close>)

interpretation http_options: machine_inv "\<lambda>o1. o1 = http_options_default" "http_step lc" "http_ok lc"
  by unfold_locales (simp add: http_ok_def http_options_default_def bindings_ok_def, rule http_step_ok)

text \<open>How a receiver reads a header rule: up to the first colon, and behind it.\<close>

definition split_header :: "rstring \<Rightarrow> rstring \<times> rstring" where
  "split_header s = (takeWhile (\<lambda>c. c \<noteq> 58) s, tl (dropWhile (\<lambda>c. c \<noteq> 58) s))"

lemma split_header_join: "58 \<notin> set n \<Longrightarrow> split_header (n @ 58 # v) = (n, v)"
  by (induction n) (auto simp: split_header_def)

lemma headers_wire:
  assumes "mset (order (hd_added h)) = mset (hd_added h)" "\<forall>n \<in> fst ` set (hd_added h). 58 \<notin> set n"
  shows "map split_header (hp_add (headers_to_proto order h)) = order (hd_added h)"
proof -
  have "set (order (hd_added h)) = set (hd_added h)"
    by (rule mset_eq_setD [OF assms(1)])
  with assms(2) have "\<forall>a \<in> set (order (hd_added h)). split_header (fst a @ 58 # snd a) = a"
    by (force simp: split_header_join)
  then show ?thesis
    by (simp add: headers_to_proto_def str_def map_idI)
qed

lemma headers_wire_map:
  assumes "headers_ok lc h" "mset (order (hd_added h)) = mset (hd_added h)" "\<forall>n \<in> fst ` set (hd_added h). 58 \<notin> set n"
  shows "map_of (map split_header (hp_add (headers_to_proto order h))) = map_of (hd_added h)"
proof -
  have "distinct (map fst (order (hd_added h)))"
    using assms(1) mset_eq_imp_distinct_iff [of "map fst (order (hd_added h))" "map fst (hd_added h)"] assms(2)
    by (simp add: headers_ok_def)
  then show ?thesis
    unfolding headers_wire [of order h, OF assms(2,3)]
    using assms(1) mset_eq_setD [OF assms(2)] by (simp add: headers_ok_def map_of_inject_set)
qed

section \<open>Properties\<close>

text \<open>
  C17. Listening with any configuration the crate makes does not panic, whatever its
  options and whatever the server answers; and a tunnel that is listened to is filed
  under the identifier of the server, with a new and open channel of its own, what it
  forwards to and how its upstream is verified as configured, and nothing else changed.
\<close>

theorem crate_tunnels_bind:
  assumes "crate_config G cfg"
  shows "start_tunnel E S cfg W \<noteq> Some Panic \<and>
    (\<forall>tn W1. start_tunnel E S cfg W = ready (Ok tn, W1) \<longrightarrow> bound_as cfg W tn W1)"
  using assms start_tunnel_binds [of E S cfg W]
  by (auto simp: crate_config_def http.start_no_panic tcp.start_no_panic tls.start_no_panic labeled.start_no_panic)

theorem crate_tunnels_bind_witness:
  "start_tunnel demo_env demo_serde (labeled_config \<lparr>cg_forwards_to = [], cg_text = id, cg_order = id\<rparr>
      (labeled_label (str ''edge'') (str ''e1'') labeled_options_default)) (demo_world Map.empty False) \<noteq> Some Panic"
  by (rule crate_tunnels_bind [THEN conjunct1, of "\<lparr>cg_forwards_to = [], cg_text = id, cg_order = id\<rparr>"])
    (simp add: crate_config_def)


text \<open>A header whose name is set twice, in different case.\<close>

definition demo_lower :: "rstring \<Rightarrow> rstring" where
  "demo_lower = map ascii_lower"

definition demo_options :: "unit http_options" where
  "demo_options = http_request_header demo_lower (str ''x'') [50]
     (http_request_header demo_lower (str ''X'') [49] http_options_default)"


end
