(* ===== verification/Forwarding.thy ===== *)
theory Forwarding
  imports Config Proxy_Proto
begin

text \<open>
  Forwarding connections to an upstream service: \<open>ngrok/src/tunnel_ext.rs\<close> with the
  forwarder of \<open>forwarder.rs\<close>. Sockets, TLS, the PROXY protocol library and the copying
  of bytes are parameters. The futures that the code spawns are the functions here; the
  loop over the connections of a tunnel is a step between two awaits. Whether the target
  is Windows, which has named pipes in the place of Unix sockets, is a parameter too.
\<close>

section \<open>The parameters\<close>

text \<open>
  A boxed stream is of type \<open>'io\<close>; \<open>de_box\<close> boxes a PROXY protocol stream around one.
  Of TLS the code uses the native certificates, a client configuration made from them,
  the installed provider of cryptography, and two changes of a configuration: a verifier
  that accepts every certificate, and protocols to offer.
\<close>

section \<open>A verifier that accepts every certificate\<close>

text \<open>
  The verifier for upstream services that are not to be verified, with the provider of
  cryptography it holds. Any certificate is accepted; the signatures of a handshake are
  still verified, by the functions of rustls (\<open>lib\<close>) with the algorithms of the provider.
\<close>

datatype 'p no_certificate_verification = NoCertificateVerification (nv_provider: 'p)

definition verify_server_cert ::
  "'p no_certificate_verification \<Rightarrow> 'cert \<Rightarrow> 'cert list \<Rightarrow> 'd \<Rightarrow> bytes \<Rightarrow> nat \<Rightarrow> ('x, unit) result" where
  "verify_server_cert self end_entity intermediates server_name ocsp now = Ok ()"

definition verify_signature ::
  "(bytes \<Rightarrow> 'cert \<Rightarrow> 's \<Rightarrow> 'a \<Rightarrow> ('x, unit) result) \<Rightarrow> ('p \<Rightarrow> 'a) \<Rightarrow> 'p no_certificate_verification
    \<Rightarrow> bytes \<Rightarrow> 'cert \<Rightarrow> 's \<Rightarrow> ('x, unit) result" where
  "verify_signature lib algorithms self message cert dss = lib message cert dss (algorithms (nv_provider self))"

definition supported_verify_schemes :: "('a \<Rightarrow> 'c list) \<Rightarrow> ('p \<Rightarrow> 'a) \<Rightarrow> 'p no_certificate_verification \<Rightarrow> 'c list" where
  "supported_verify_schemes schemes algorithms self = schemes (algorithms (nv_provider self))"

text \<open>What opening a named pipe gives; a busy one is the error \<open>ERROR_PIPE_BUSY\<close>.\<close>

datatype 'io pipe_open = PipeOpened 'io | PipeBusy | PipeFailed io_error

record ('n, 'e, 'h, 'd, 't, 'io, 'p) dial_env =
  de_tcp :: "rstring \<Rightarrow> 'n \<Rightarrow> ((io_error, 'io) result \<times> 'n) async"
  de_unix :: "rstring \<Rightarrow> 'n \<Rightarrow> ((io_error, 'io) result \<times> 'n) async"
  de_windows :: bool
  de_open_pipe :: "rstring \<Rightarrow> 'n \<Rightarrow> 'io pipe_open \<times> 'n"
  de_sleep_ms :: "nat \<Rightarrow> 'n \<Rightarrow> 'n"
  de_encode :: "'h \<Rightarrow> (rstring, bytes) result"
  de_box :: "('e, 'h, 'io) proxy_stream \<Rightarrow> 'io"
  de_server_name :: "rstring \<Rightarrow> (rstring, 'd) result"
  de_tls :: "'t \<Rightarrow> 'd \<Rightarrow> 'io \<Rightarrow> 'n \<Rightarrow> ((io_error, 'io) result \<times> 'n) async"
  de_native_certs :: "(io_error, bytes list) result"
  de_client_config :: "bytes list \<Rightarrow> 't"
  de_provider :: "'p option"
  de_set_verifier :: "'p no_certificate_verification \<Rightarrow> 't \<Rightarrow> 't"
  de_alpn :: "bytes list \<Rightarrow> 't \<Rightarrow> 't"

section \<open>TLS configurations\<close>

text \<open>\<open>host_certs_tls_config\<close> of \<open>session.rs\<close>; the certificates are loaded once.\<close>

definition host_certs_tls_config :: "('n, 'e, 'h, 'd, 't, 'io, 'p) dial_env \<Rightarrow> (io_error, 't) result" where
  "host_certs_tls_config D = and_then (de_native_certs D) (\<lambda>der_certs. Ok (de_client_config D der_certs))"

definition FLAG_HTTP2 :: u8 where "FLAG_HTTP2 = 1"
definition FLAG_VERIFY :: u8 where "FLAG_VERIFY = 2"
definition FLAG_MAX :: u8 where "FLAG_MAX = or FLAG_HTTP2 FLAG_VERIFY"

definition NO_CRYPTO_PROVIDER_ERROR :: io_error where
  "NO_CRYPTO_PROVIDER_ERROR = IoError NotFound (SrcText (str ''no default CryptoProvider installed''))"

definition ALPN :: "bytes list" where
  "ALPN = [as_bytes (str ''h2''), as_bytes (str ''http/1.1'')]"

text \<open>One entry of the table of configurations, and the table: the first error ends it.\<close>

definition table_entry :: "('n, 'e, 'h, 'd, 't, 'io, 'p) dial_env \<Rightarrow> u8 \<Rightarrow> (io_error, u8 \<times> 't) result" where
  "table_entry D p =
     (let http2 = (and p FLAG_HTTP2 \<noteq> 0); verify = (and p FLAG_VERIFY \<noteq> 0) in
      and_then (host_certs_tls_config D) (\<lambda>config.
        and_then
          (if \<not> verify then
             (case de_provider D of
                None \<Rightarrow> Err NO_CRYPTO_PROVIDER_ERROR
              | Some provider \<Rightarrow> Ok (de_set_verifier D (NoCertificateVerification provider) config))
           else Ok config)
          (\<lambda>c1. Ok (p, if http2 then de_alpn D ALPN c1 else c1))))"

fun collect :: "('e, 'k \<times> 'v) result list \<Rightarrow> ('e, 'k \<rightharpoonup> 'v) result" where
  "collect [] = Ok Map.empty"
| "collect (r # rs) =
     (case r of Inl e \<Rightarrow> Err e
      | Inr (k, v) \<Rightarrow> (case collect rs of Inl e \<Rightarrow> Err e | Inr m \<Rightarrow> Ok (if m k = None then m(k \<mapsto> v) else m)))"

definition CONFIGS :: "('n, 'e, 'h, 'd, 't, 'io, 'p) dial_env \<Rightarrow> (io_error, u8 \<rightharpoonup> 't) result" where
  "CONFIGS D = collect (map (\<lambda>p. table_entry D (word_of_nat p)) [0..<Suc (unat FLAG_MAX)])"

definition tls_config ::
  "('n, 'e, 'h, 'd, 't, 'io, 'p) dial_env \<Rightarrow> rstring option \<Rightarrow> bool \<Rightarrow> (io_error, 't) result ran" where
  "tls_config D app_protocol verify =
     (case CONFIGS D of
        Inl e \<Rightarrow> Value (Err e)
      | Inr configs \<Rightarrow>
        (let key = or (if app_protocol = Some (str ''http2'') then FLAG_HTTP2 else 0)
               (if verify then FLAG_VERIFY else 0) in
         case (case configs key of None \<Rightarrow> configs 0 | Some c \<Rightarrow> Some c) of
           None \<Rightarrow> Panic
         | Some c \<Rightarrow> Value (Ok c)))"

section \<open>Connecting to the upstream service\<close>

text \<open>The transport the scheme of the URL asks for, and whether TLS has to follow.\<close>

definition port_or :: "u16 \<Rightarrow> url \<Rightarrow> u16" where
  "port_or d u = (case url_port u of None \<Rightarrow> d | Some p \<Rightarrow> p)"

definition connect_tcp ::
  "('n, 'e, 'h, 'd, 't, 'io, 'p) dial_env \<Rightarrow> rstring \<Rightarrow> u16 \<Rightarrow> 'n \<Rightarrow> ((io_error, 'io) result \<times> 'n) async" where
  "connect_tcp D host port = de_tcp D (host @ str '':'' @ decimal (unat port))"

text \<open>
  The name of a pipe, \<open>92\<close> being the backslash and \<open>47\<close> the slash, and the loop that
  waits while the pipe is busy, which may be for ever.
\<close>

definition pipe_address :: "url \<Rightarrow> (io_error, rstring) result" where
  "pipe_address u =
     (let pipe_name = (case url_host u of
            None \<Rightarrow> url_path u
          | Some _ \<Rightarrow> (case url_path u of [] \<Rightarrow> [] | c # cs \<Rightarrow> if c = 47 then cs else c # cs));
          host = (case url_host u of
            None \<Rightarrow> str ''.''
          | Some h \<Rightarrow> if h = str ''localhost'' then str ''.'' else h) in
      if pipe_name = [] then Err (IoError InvalidInput
        (SrcText (str ''missing pipe name in forwarding url '' @ url_text u)))
      else Ok ([92, 92] @ host @ [92] @ str ''pipe'' @ [92] @ pipe_name))"

partial_function (option) open_pipe ::
  "('n, 'e, 'h, 'd, 't, 'io, 'p) dial_env \<Rightarrow> rstring \<Rightarrow> 'n \<Rightarrow> ((io_error, 'io) result \<times> 'n) async" where
  "open_pipe D addr net =
     (case de_open_pipe D addr net of
        (PipeOpened client, net1) \<Rightarrow> ready (Ok client, net1)
      | (PipeFailed e, net1) \<Rightarrow> ready (Err e, net1)
      | (PipeBusy, net1) \<Rightarrow> open_pipe D addr (de_sleep_ms D 50 net1))"

definition dial ::
  "('n, 'e, 'h, 'd, 't, 'io, 'p) dial_env \<Rightarrow> url \<Rightarrow> 'n \<Rightarrow> ((io_error, 'io \<times> bool) result \<times> 'n) async" where
  "dial D u net =
     (let host = (case url_host u of None \<Rightarrow> str ''localhost'' | Some h \<Rightarrow> h);
          finish = (\<lambda>tls m. and_await m (\<lambda>(r, net1). ready (and_then r (\<lambda>conn. Ok (conn, tls)), net1))) in
      if url_scheme u = str ''tcp'' then
        (case url_port u of
           None \<Rightarrow> ready (Err (IoError InvalidInput
             (SrcText (str ''missing port for tcp forwarding url '' @ url_text u))), net)
         | Some port \<Rightarrow> finish False (connect_tcp D host port net))
      else if url_scheme u = str ''http'' then finish False (connect_tcp D host (port_or 80 u) net)
      else if url_scheme u = str ''https'' \<or> url_scheme u = str ''tls'' then
        finish True (connect_tcp D host (port_or 443 u) net)
      else if url_scheme u = str ''unix'' \<and> \<not> de_windows D then
        finish False (de_unix D (case url_host u of None \<Rightarrow> url_path u | Some h \<Rightarrow> h @ url_path u) net)
      else if url_scheme u = str ''pipe'' \<and> de_windows D then
        (case pipe_address u of
           Inl e \<Rightarrow> ready (Err e, net)
         | Inr addr \<Rightarrow> finish False (open_pipe D addr net))
      else ready (Err (IoError InvalidInput
        (SrcText (str ''unrecognized scheme in forwarding url: '' @ url_text u))), net))"

text \<open>The PROXY header goes inside of TLS.\<close>

definition send_header ::
  "('n, 'e, 'h, 'd, 't, 'io, 'p) dial_env \<Rightarrow> 'h option \<Rightarrow> 'io \<Rightarrow> 'io ran" where
  "send_header D header conn =
     (case header of
        None \<Rightarrow> Value conn
      | Some h \<Rightarrow>
        (case proxy_outgoing (de_encode D) conn h of Inl _ \<Rightarrow> Panic | Inr s \<Rightarrow> Value (de_box D s)))"

definition connect_upstream ::
  "('n, 'e, 'h, 'd, 't, 'io, 'p) dial_env \<Rightarrow> bool \<Rightarrow> bool \<Rightarrow> rstring option \<Rightarrow> 'h option \<Rightarrow> url \<Rightarrow> 'n
     \<Rightarrow> ((io_error, 'io) result \<times> 'n) async" where
  "connect_upstream D tunnel_tls verify app_protocol header u net =
     and_await (dial D u net) (\<lambda>(r, net1).
       case r of
         Inl e \<Rightarrow> ready (Err e, net1)
       | Inr (conn, backend_tls) \<Rightarrow>
         and_await (Some (send_header D header conn)) (\<lambda>conn1.
           if backend_tls \<and> \<not> tunnel_tls then
             (case de_server_name D (case url_host u of None \<Rightarrow> str ''localhost'' | Some h \<Rightarrow> h) of
                Inl e \<Rightarrow> ready (Err (IoError InvalidInput (SrcText e)), net1)
              | Inr domain \<Rightarrow>
                and_await (Some (tls_config D app_protocol verify)) (\<lambda>cfg.
                  case cfg of
                    Inl (IoError kind _) \<Rightarrow> ready (Err (IoError kind SrcNone), net1)
                  | Inr config \<Rightarrow> de_tls D config domain conn1 net1))
           else ready (Ok conn1, net1)))"

section \<open>Forwarding a connection\<close>

text \<open>Methods of the information about a connection.\<close>

definition info_remote_addr :: "conn_info \<Rightarrow> sock_addr" where
  "info_remote_addr i = ci_remote_addr i"

definition info_edge_type :: "conn_info \<Rightarrow> edge_type" where
  "info_edge_type i = ph_edge_type (ci_header i)"

definition info_passthrough_tls :: "conn_info \<Rightarrow> bool" where
  "info_passthrough_tls i = ph_passthrough_tls (ci_header i)"

definition info_proto :: "conn_info \<Rightarrow> rstring" where
  "info_proto i = ph_proto (ci_header i)"

text \<open>A connection reads and writes its stream: \<open>AsyncRead\<close> and \<open>AsyncWrite\<close> of \<open>conn.rs\<close>.\<close>

definition with_stream :: "'x conn_inner \<Rightarrow> 'x \<Rightarrow> 'x conn_inner" where
  "with_stream c x = c\<lparr>cn_stream := (cn_stream c)\<lparr>ts_inner := x\<rparr>\<rparr>"

definition conn_io :: "'x poll_io \<Rightarrow> 'x conn_inner poll_io" where
  "conn_io io = \<lparr>
     pi_read = (\<lambda>n c. map_option (\<lambda>(r, bs, x). (r, bs, with_stream c x)) (pi_read io n (ts_inner (cn_stream c)))),
     pi_write = (\<lambda>buf c. map_option (\<lambda>(r, x). (r, with_stream c x)) (pi_write io buf (ts_inner (cn_stream c)))),
     pi_flush = (\<lambda>c. case pi_flush io (ts_inner (cn_stream c)) of (r, x) \<Rightarrow> (r, with_stream c x)),
     pi_shutdown = (\<lambda>c. case pi_shutdown io (ts_inner (cn_stream c)) of (r, x) \<Rightarrow> (r, with_stream c x))\<rparr>"

text \<open>
  What serves the two ends of a connection: the copying in both directions, and the
  server that answers HTTP clients when the upstream service cannot be reached, with or
  without keeping the connection alive; without the feature \<open>hyper\<close> it does nothing.
\<close>

record http_response =
  rs_status :: nat
  rs_body :: rstring

definition serve_gateway_error ::
  "(bool \<Rightarrow> http_response \<Rightarrow> 'y \<Rightarrow> 'n \<Rightarrow> 'n) \<Rightarrow> rstring \<Rightarrow> 'y \<Rightarrow> 'n \<Rightarrow> 'n" where
  "serve_gateway_error serve err conn net =
     serve False \<lparr>rs_status = 502, rs_body = str ''failed to dial backend: '' @ err\<rparr> conn net"

type_synonym ('e, 'h, 'x) endpoint_stream = "('e, 'h, 'x conn_inner) proxy_stream"

record ('n, 'e, 'h, 'x, 'io) serve_env =
  se_io :: "'x poll_io"
  se_parse :: "('e, 'h) parser"
  se_error_text :: "'e parse_error \<Rightarrow> rstring"
  se_copy_edge :: "'x conn_inner \<Rightarrow> 'io \<Rightarrow> 'n \<Rightarrow> ((io_error, unit) result \<times> 'n) async"
  se_serve_edge :: "bool \<Rightarrow> http_response \<Rightarrow> 'x conn_inner \<Rightarrow> 'n \<Rightarrow> 'n"
  se_copy :: "('e, 'h, 'x) endpoint_stream \<Rightarrow> 'io \<Rightarrow> 'n \<Rightarrow> ((io_error, unit) result \<times> 'n) async"
  se_serve :: "bool \<Rightarrow> http_response \<Rightarrow> ('e, 'h, 'x) endpoint_stream \<Rightarrow> 'n \<Rightarrow> 'n"
  se_io_error_text :: "io_error \<Rightarrow> rstring"

text \<open>\<open>Stream::proxy_header\<close> awaited: a pending poll is repeated.\<close>

partial_function (option) await_proxy_header ::
  "'x poll_io \<Rightarrow> ('e, 'h) parser \<Rightarrow> ('e, 'h, 'x) proxy_stream
     \<Rightarrow> ((io_error, ('e parse_error, 'h option) result) result \<times> ('e, 'h, 'x) proxy_stream) async" where
  "await_proxy_header io parse s =
     (case proxy_header_poll io parse s of
        None \<Rightarrow> None
      | Some (Pending, s1) \<Rightarrow> await_proxy_header io parse s1
      | Some (Panicked, s1) \<Rightarrow> Some Panic
      | Some (Ready r, s1) \<Rightarrow> ready (r, s1))"

definition edge_forward_to ::
  "('n, 'e, 'h, 'd, 't, 'io, 'p) dial_env \<Rightarrow> ('n, 'e, 'h, 'x, 'io) serve_env \<Rightarrow> 'x conn_inner \<Rightarrow> url \<Rightarrow> 'n
     \<Rightarrow> ((io_error, unit) result \<times> 'n) async" where
  "edge_forward_to D V conn u net =
     (let i = cn_info conn in
      and_await (connect_upstream D (info_edge_type i = EdgeTls \<and> info_passthrough_tls i)
          (ci_verify_upstream_tls i) (ci_app_protocol i) None u net) (\<lambda>(r, net1).
        case r of
          Inl error \<Rightarrow> ready (Err error,
            if info_edge_type i = EdgeHttps then serve_gateway_error (se_serve_edge V) (se_io_error_text V error) conn net1 else net1)
        | Inr upstream \<Rightarrow> se_copy_edge V conn upstream net1))"

text \<open>The stream of the connection, and the header the edge sent if a version is set.\<close>

definition endpoint_stream ::
  "('n, 'e, 'h, 'x, 'io) serve_env \<Rightarrow> 'x conn_inner
     \<Rightarrow> (io_error, ('e, 'h, 'x) endpoint_stream \<times> 'h option) result async" where
  "endpoint_stream V conn =
     (if ci_proxy_proto (cn_info conn) = PpNone then ready (Ok (proxy_disabled conn, None))
      else and_await (await_proxy_header (conn_io (se_io V)) (se_parse V) (proxy_incoming conn)) (\<lambda>(r, s).
        ready (case r of
          Inl e \<Rightarrow> Err e
        | Inr (Inl e) \<Rightarrow> Err (IoError InvalidData
            (SrcText (str ''invalid proxy-protocol header: '' @ se_error_text V e)))
        | Inr (Inr header) \<Rightarrow> Ok (s, header))))"

definition endpoint_forward_to ::
  "('n, 'e, 'h, 'd, 't, 'io, 'p) dial_env \<Rightarrow> ('n, 'e, 'h, 'x, 'io) serve_env \<Rightarrow> 'x conn_inner \<Rightarrow> url \<Rightarrow> 'n
     \<Rightarrow> ((io_error, unit) result \<times> 'n) async" where
  "endpoint_forward_to D V conn u net =
     (let i = cn_info conn in
      and_await (endpoint_stream V conn) (\<lambda>q.
        case q of
          Inl e \<Rightarrow> ready (Err e, net)
        | Inr (stream, header) \<Rightarrow>
          and_await (connect_upstream D (info_proto i = str ''tls'' \<and> info_passthrough_tls i)
              (ci_verify_upstream_tls i) (ci_app_protocol i) header u net) (\<lambda>(r, net1).
            case r of
              Inl error \<Rightarrow> ready (Err error,
                if info_proto i \<in> {str ''http'', str ''https''} then serve_gateway_error (se_serve V) (se_io_error_text V error) stream net1 else net1)
            | Inr upstream \<Rightarrow> se_copy V stream upstream net1)))"

section \<open>Forwarding a tunnel\<close>

fun accept_error_display :: "accept_error \<Rightarrow> rstring" where
  "accept_error_display (AeTransport _) = str ''transport error''"
| "accept_error_display (AeReconnect _) = str ''reconnect error''"
| "accept_error_display (AeListenerClosed message code) =
     str ''listener closed: '' @ message @ (case code of None \<Rightarrow> [] | Some s \<Rightarrow> str '', '' @ s)"

text \<open>One turn of the loop of \<open>forward_tunnel\<close>: it waits, spawns a connection, or returns.\<close>

datatype 'x forward_turn = FwWait | FwSpawn "'x conn_inner" url | FwReturn "(io_error, unit) result" | FwPanic

definition forward_step ::
  "tunnel_inner \<Rightarrow> url \<Rightarrow> ('n, 't, 'io, 'h, 'c, 'x) session_world
     \<Rightarrow> 'x forward_turn \<times> ('n, 't, 'io, 'h, 'c, 'x) session_world" where
  "forward_step tun u W =
     (case tunnel_poll_next tun W of
        (Pending, W1) \<Rightarrow> (FwWait, W1)
      | (Panicked, W1) \<Rightarrow> (FwPanic, W1)
      | (Ready None, W1) \<Rightarrow> (FwReturn (Ok ()), W1)
      | (Ready (Some (Inl err)), W1) \<Rightarrow> (FwReturn (Err (IoError NotConnected (SrcText (accept_error_display err)))), W1)
      | (Ready (Some (Inr conn)), W1) \<Rightarrow> (FwSpawn conn u, W1))"

text \<open>A forwarder: the task that forwards a listener, and the information that is left of the tunnel.\<close>

record forwarder =
  fo_join :: "tunnel_inner \<times> url"
  fo_inner :: tunnel_inner

definition forward :: "tunnel_inner \<Rightarrow> tunnel_inner \<Rightarrow> url \<Rightarrow> (rpc_error, forwarder) result" where
  "forward listener info to_url = Ok \<lparr>fo_join = (listener, to_url), fo_inner = info\<rparr>"

definition forwarder_close ::
  "('c, 'y) rpc_env \<Rightarrow> serde \<Rightarrow> forwarder \<Rightarrow> ('n, 't, 'io, 'h, 'c, 'x) session_world
     \<Rightarrow> ((rpc_error, unit) result \<times> ('n, 't, 'io, 'h, 'c, 'x) session_world) async" where
  "forwarder_close E S fw W = tunnel_close E S (fo_inner fw) W"

text \<open>
  \<open>listen_and_forward\<close> of \<open>impl_builder!\<close>: \<open>fwd\<close> is the method \<open>for_forwarding_to\<close> of the
  options.
\<close>

definition listen_and_forward ::
  "('c, 'y) rpc_env \<Rightarrow> serde \<Rightarrow> (url \<Rightarrow> 'o \<Rightarrow> 'o) \<Rightarrow> ('o \<Rightarrow> tunnel_config)
     \<Rightarrow> ('o, ('n, 't, 'io, 'h, 'c, 'x) session_world) tunnel_builder \<Rightarrow> url
     \<Rightarrow> ((rpc_error, forwarder) result \<times> ('n, 't, 'io, 'h, 'c, 'x) session_world) async" where
  "listen_and_forward E S fwd config b to_url =
     (let cfg = b\<lparr>tb_options := fwd to_url (tb_options b)\<rparr> in
      and_await (listen E S config cfg) (\<lambda>(r, W).
        ready (and_then r (\<lambda>tunnel. forward tunnel (make_info tunnel) to_url), W)))"

end
