(* ===== verification/Forwarding_Props.thy ===== *)
theory Forwarding_Props
  imports Forwarding Config_Props Proxy_Props
begin

text \<open>
  Facts about forwarding: the table of TLS configurations is the function it stands for,
  the layers of a connection to an upstream service, the PROXY header that is passed on,
  and the end of a forwarder that is closed.
\<close>

section \<open>The table of TLS configurations\<close>

lemma flags: "FLAG_MAX = 3"
  by (simp add: FLAG_MAX_def FLAG_HTTP2_def FLAG_VERIFY_def)

lemma table_keys: "[0..<Suc (unat FLAG_MAX)] = [0, 1, 2, 3]"
  by (simp add: flags upt_rec)

lemma CONFIGS_four: "CONFIGS D = collect [table_entry D 0, table_entry D 1, table_entry D 2, table_entry D 3]"
  unfolding CONFIGS_def table_keys by simp

text \<open>The configuration for a protocol and a wish to verify, without any table.\<close>

definition tls_direct :: "('n, 'e, 'h, 'd, 't, 'io, 'p) dial_env \<Rightarrow> rstring option \<Rightarrow> bool \<Rightarrow> (io_error, 't) result" where
  "tls_direct D app_protocol verify =
     (case de_native_certs D of
        Inl e \<Rightarrow> Err e
      | Inr certs \<Rightarrow>
        (case de_provider D of
           None \<Rightarrow> Err NO_CRYPTO_PROVIDER_ERROR
         | Some p \<Rightarrow>
           (let c = de_client_config D certs;
                c1 = (if verify then c else de_set_verifier D (NoCertificateVerification p) c) in
            Ok (if app_protocol = Some (str ''http2'') then de_alpn D ALPN c1 else c1))))"

lemma tls_config_is_direct: "tls_config D app_protocol verify = Value (tls_direct D app_protocol verify)"
proof (cases "de_native_certs D")
  case (Inl e)
  then show ?thesis
    by (simp add: tls_config_def CONFIGS_four table_entry_def host_certs_tls_config_def tls_direct_def)
next
  case (Inr certs)
  then show ?thesis
    by (auto simp: tls_config_def CONFIGS_four table_entry_def host_certs_tls_config_def tls_direct_def
        FLAG_HTTP2_def FLAG_VERIFY_def Let_def split: option.split)
qed

section \<open>The header of a connection\<close>

text \<open>A connection is a stream as the one inside it is.\<close>

lemma with_stream_inner [simp]: "ts_inner (cn_stream (with_stream c x)) = x"
  by (simp add: with_stream_def)

lemma conn_poll_stream:
  assumes "poll_stream io ok incoming outgoing"
  shows "poll_stream (conn_io io) (\<lambda>c. ok (ts_inner (cn_stream c))) (\<lambda>c. incoming (ts_inner (cn_stream c)))
    (\<lambda>c. outgoing (ts_inner (cn_stream c)))"
proof
  fix c :: "'a conn_inner" and n
  assume "ok (ts_inner (cn_stream c))"
  from poll_stream.read_returns [OF assms this, of n] show "\<exists>r bs x'. pi_read (conn_io io) n c = Some (r, bs, x') \<and>
      r \<noteq> Panicked \<and> length bs \<le> n \<and> incoming (ts_inner (cn_stream c)) = bs @ incoming (ts_inner (cn_stream x')) \<and>
      ok (ts_inner (cn_stream x'))"
    by (auto simp: conn_io_def with_stream_def)
next
  fix c :: "'a conn_inner" and buf
  assume "ok (ts_inner (cn_stream c))"
  from poll_stream.write_returns [OF assms this, of buf] obtain q x' where
    "pi_write io buf (ts_inner (cn_stream c)) = Some (q, x')" "q \<noteq> Panicked" "ok x'"
    "case q of Ready (Inr k) \<Rightarrow> k \<le> length buf \<and> outgoing x' = outgoing (ts_inner (cn_stream c)) @ take k buf
      | _ \<Rightarrow> outgoing x' = outgoing (ts_inner (cn_stream c))"
    by blast
  then show "\<exists>q x'. pi_write (conn_io io) buf c = Some (q, x') \<and>
      q \<noteq> Panicked \<and> ok (ts_inner (cn_stream x')) \<and> (case q of
        Ready (Inr k) \<Rightarrow> k \<le> length buf \<and>
          outgoing (ts_inner (cn_stream x')) = outgoing (ts_inner (cn_stream c)) @ take k buf
      | _ \<Rightarrow> outgoing (ts_inner (cn_stream x')) = outgoing (ts_inner (cn_stream c)))"
    by (intro exI [of _ q] exI [of _ "with_stream c x'"]) (cases q; simp add: conn_io_def split: sum.splits)
qed

context poll_stream
begin

text \<open>When the header is there, what came before it is gone and what follows is kept.\<close>

lemma await_header_post:
  fixes s :: "('e, 'h, 'x) proxy_stream"
  assumes "header_parser parse" "await_proxy_header io parse s = Some w" "readable s"
  shows "\<exists>r s' skip. w = Value (r, s') \<and> readable s' \<and> unread s = skip @ unread s' \<and> skipped_header skip (read_st s') \<and>
    (\<forall>q. r = Ok q \<longrightarrow> q = rs_header (read_st s'))"
proof -
  let ?P = "\<lambda>(io' :: 'x poll_io) parse' (s :: ('e, 'h, 'x) proxy_stream) w. io' = io \<longrightarrow> parse' = parse \<longrightarrow> readable s \<longrightarrow>
    (\<exists>r s' skip. w = Value (r, s') \<and> readable s' \<and> unread s = skip @ unread s' \<and>
      skipped_header skip (read_st s') \<and> (\<forall>q. r = Ok q \<longrightarrow> q = rs_header (read_st s')))"
  have "?P io parse s w"
  proof (rule await_proxy_header.raw_induct [where P = ?P, OF _ assms(2)], intro impI)
    fix f :: "'x poll_io \<Rightarrow> ('e, 'h) parser \<Rightarrow> ('e, 'h, 'x) proxy_stream
      \<Rightarrow> ((io_error, ('e parse_error, 'h option) result) result \<times> ('e, 'h, 'x) proxy_stream) async"
      and io' parse' and s :: "('e, 'h, 'x) proxy_stream" and w
    assume IH: "\<And>io' parse' s w. f io' parse' s = Some w \<Longrightarrow> ?P io' parse' s w"
      and eq: "(case proxy_header_poll io' parse' s of None \<Rightarrow> None | Some (Pending, s1) \<Rightarrow> f io' parse' s1
        | Some (Panicked, s1) \<Rightarrow> Some Panic | Some (Ready r, s1) \<Rightarrow> ready (r, s1)) = Some w"
      and *: "io' = io" "parse' = parse" "readable s"
    from header_once_post [OF _ assms(1), of "ps_inner s" "read_st s"] *(3) obtain q st x skip where
      h: "poll_read_header_once io parse (read_st s) (ps_inner s) = Some (q, st, x)" "ok x" "q \<noteq> Panicked"
        "settled st \<longleftrightarrow> q \<noteq> Pending" "length (buffered st) \<le> MAX_HEADER_LEN"
        "unread s = skip @ buffered st @ incoming x" "skipped_header skip st"
        "settled (read_st s) \<longrightarrow> st = read_st s \<and> x = ps_inner s"
      unfolding readable_def unread_def by blast
    show "\<exists>r s' skip. w = Value (r, s') \<and> readable s' \<and> unread s = skip @ unread s' \<and>
        skipped_header skip (read_st s') \<and> (\<forall>q. r = Ok q \<longrightarrow> q = rs_header (read_st s'))"
    proof (cases "q = Pending")
      case True
      then have ns: "\<not> settled st" using h(4) by simp
      then have "skip = []"
        using h(7) by (auto simp: skipped_header_def)
      moreover have "\<not> settled (read_st s)"
        using h(8) ns by auto
      ultimately have skip: "skip = []" "\<not> settled st" "\<not> settled (read_st s)"
        using ns by blast+
      let ?s1 = "s\<lparr>read_st := st, ps_inner := x\<rparr>"
      have "readable ?s1" "unread ?s1 = unread s"
        using h skip *(3) by (auto simp: readable_def unread_def)
      moreover have "f io parse ?s1 = Some w"
        using eq h(1) * True by (simp add: proxy_header_poll_def)
      ultimately show ?thesis
        using IH [of io parse ?s1 w] by auto
    next
      case False
      with h(3,4) have "settled st" by simp
      let ?s1 = "s\<lparr>read_st := st, ps_inner := x\<rparr>"
      from False h(3) obtain a where a: "q = Ready a" by (cases q) auto
      have "w = Value ((case a of Inl e \<Rightarrow> Err e | Inr _ \<Rightarrow> Ok (rs_header st)), ?s1)"
        using eq h(1) * a by (simp add: proxy_header_poll_def Let_def split: sum.splits)
      moreover have "readable ?s1" "unread s = skip @ unread ?s1" "skipped_header skip (read_st ?s1)"
        using h \<open>settled st\<close> by (simp_all add: readable_def unread_def)
      ultimately show ?thesis
        by (cases a) force+
    qed
  qed
  with assms(3) show ?thesis by simp
qed

end

section \<open>A forwarder that is closed\<close>

abbreviation forward_next :: "tunnel_inner \<Rightarrow> url \<Rightarrow> ('n, 't, 'io, 'h, 'c, 'x) session_world
    \<Rightarrow> ('n, 't, 'io, 'h, 'c, 'x) session_world" where
  "forward_next tun u W \<equiv> snd (forward_step tun u W)"

text \<open>Once the session does not hold the sender, the task takes what is queued and returns.\<close>

lemma forward_drains:
  assumes "\<not> tx_held W rx" "tn_incoming tun = Some rx"
  shows "\<exists>k \<le> length (tc_queue (sw_chans W rx)). \<exists>r.
    fst (forward_step tun u ((forward_next tun u ^^ k) W)) = FwReturn r \<and>
    ((\<forall>item \<in> set (tc_queue (sw_chans W rx)). \<exists>c. item = Ok c) \<longrightarrow> r = Ok ())"
  using assms(1)
proof (induction "tc_queue (sw_chans W rx)" arbitrary: W)
  case Nil
  then have "fst (forward_step tun u W) = FwReturn (Ok ())"
    using assms(2) by (simp add: forward_step_def tunnel_poll_next_def Let_def)
  then show ?case
    by (intro exI [of _ 0]) simp
next
  case (Cons item rest)
  let ?W = "W\<lparr>sw_chans := (sw_chans W)(rx := (sw_chans W rx)\<lparr>tc_queue := rest\<rparr>)\<rparr>"
  have poll: "tunnel_poll_next tun W = (Ready (Some item), ?W)"
    using assms(2) Cons.hyps(2) [symmetric] by (simp add: tunnel_poll_next_def Let_def)
  show ?case
  proof (cases item)
    case (Inl err)
    with poll Cons.hyps(2) [symmetric] show ?thesis
      by (intro exI [of _ 0]) (auto simp: forward_step_def)
  next
    case (Inr c)
    then have "forward_next tun u W = ?W" using poll by (simp add: forward_step_def)
    moreover have "\<not> tx_held ?W rx" using Cons.prems by (simp add: tx_held_def)
    note Cons.hyps(1) [OF _ this]
    ultimately obtain k r where "k \<le> length rest" "fst (forward_step tun u ((forward_next tun u ^^ Suc k) W)) = FwReturn r"
      "(\<forall>item \<in> set rest. \<exists>c. item = Ok c) \<longrightarrow> r = Ok ()"
      by (auto simp: funpow_swap1 simp del: funpow.simps simp: funpow_Suc_right)
    with Inr Cons.hyps(2) [symmetric] show ?thesis
      by (intro exI [of _ "Suc k"]) auto
  qed
qed

lemma closing_releases:
  assumes "tunnel_close E S tn W = ready (Ok (), W1)" "world_ok W" "tunnels W (ti_id (tn_info tn)) = Some t"
  shows "\<not> tx_held W1 (bt_tx t) \<and> tc_queue (sw_chans W1 (bt_tx t)) = tc_queue (sw_chans W (bt_tx t))"
proof -
  from assms(1) have W1: "tunnels W1 i = (if i = ti_id (tn_info tn) then None else tunnels W i)"
    "tc_queue (sw_chans W1 tx) = tc_queue (sw_chans W tx)" for i tx
    by (auto simp: tunnel_close_def close_tunnel_def simp del: and_await_Value_iff elim!: and_awaitE
        split: sum.splits option.splits)
  moreover have "bt_tx t \<notin> bt_tx ` ran (tunnels W1)"
    using assms(2,3) by (fastforce simp: conns_ok_def tx_inj_def ran_def W1(1) split: if_splits)
  ultimately show ?thesis by (simp add: tx_held_def)
qed

section \<open>Properties\<close>

text \<open>
  C26. Closing a forwarder ends its task: once the close has succeeded, the task never
  waits again; it forwards at most the connections that were queued already, and then
  returns, without an error unless one was queued.
\<close>

theorem closing_forwarder_ends_task:
  assumes "world_ok W" "tunnels W (ti_id (tn_info (fo_inner fw))) = Some t" "fo_join fw = (tun, u)"
    "tn_incoming tun = Some (bt_tx t)" "forwarder_close E S fw W = ready (Ok (), W1)"
  shows "\<exists>k \<le> length (tc_queue (sw_chans W (bt_tx t))). \<exists>r.
    fst (forward_step tun u ((forward_next tun u ^^ k) W1)) = FwReturn r \<and>
    ((\<forall>item \<in> set (tc_queue (sw_chans W (bt_tx t))). \<exists>c. item = Ok c) \<longrightarrow> r = Ok ())"
proof -
  have c: "tunnel_close E S (fo_inner fw) W = ready (Ok (), W1)"
    using assms(5) by (simp add: forwarder_close_def)
  from closing_releases [OF c assms(1,2)] have "\<not> tx_held W1 (bt_tx t)"
    "tc_queue (sw_chans W1 (bt_tx t)) = tc_queue (sw_chans W (bt_tx t))" by simp_all
  with forward_drains [OF _ assms(4), of W1 u] show ?thesis by simp
qed

definition demo_listener :: tunnel_inner where
  "demo_listener = \<lparr>tn_info = \<lparr>ti_id = str ''t1'', ti_proto = str ''tcp'', ti_url = [], ti_labels = Map.empty,
     ti_forwards_to = [], ti_metadata = []\<rparr>, tn_incoming = Some 0\<rparr>"

definition demo_upstream :: url where
  "demo_upstream = \<lparr>url_scheme = str ''https'', url_host = Some (str ''up''), url_port = None, url_path = [], url_text = []\<rparr>"

theorem closing_forwarder_ends_task_witness:
  "\<exists>W1. forwarder_close demo_env demo_serde \<lparr>fo_join = (demo_listener, demo_upstream), fo_inner = make_info demo_listener\<rparr>
      (demo_world [str ''t1'' \<mapsto> demo_tunnel (str ''tcp'') (Some (BoTcp tcp_endpoint_default))] False) = ready (Ok (), W1) \<and>
    fst (forward_step demo_listener demo_upstream W1) = FwReturn (Ok ())"
proof -
  let ?W = "demo_world [str ''t1'' \<mapsto> demo_tunnel (str ''tcp'') (Some (BoTcp tcp_endpoint_default))] False"
    and ?fw = "\<lparr>fo_join = (demo_listener, demo_upstream), fo_inner = make_info demo_listener\<rparr>"
  have m: "tunnels ?W = [str ''t1'' \<mapsto> demo_tunnel (str ''tcp'') (Some (BoTcp tcp_endpoint_default))]"
    "sw_next ?W = 1" "sw_chans ?W = (\<lambda>_. \<lparr>tc_queue = [], tc_open = True\<rparr>)"
    by (simp_all add: demo_world_def)
  have ok: "world_ok ?W"
    unfolding m by (simp add: conns_ok_def tx_inj_def bound_ok_def demo_tunnel_def)
  have t: "tunnels ?W (ti_id (tn_info (fo_inner ?fw))) = Some (demo_tunnel (str ''tcp'') (Some (BoTcp tcp_endpoint_default)))"
    unfolding m by (simp add: make_info_def demo_listener_def)
  obtain W1 where c: "forwarder_close demo_env demo_serde ?fw ?W = ready (Ok (), W1)"
    by (simp add: forwarder_close_def tunnel_close_def close_tunnel_def demo_requests make_info_def)
  have j: "fo_join ?fw = (demo_listener, demo_upstream)" by simp
  have i: "tn_incoming demo_listener = Some (bt_tx (demo_tunnel (str ''tcp'') (Some (BoTcp tcp_endpoint_default))))"
    by (simp add: demo_listener_def demo_tunnel_def)
  from closing_forwarder_ends_task [OF ok t j i c] have "fst (forward_step demo_listener demo_upstream W1) = FwReturn (Ok ())"
    unfolding m by simp
  with c show ?thesis by blast
qed

text \<open>The transport of each scheme, with the address it is asked for.\<close>

definition transport ::
  "('n, 'e, 'h, 'd, 't, 'io, 'p) dial_env \<Rightarrow> url \<Rightarrow> 'n \<Rightarrow> 'io \<Rightarrow> 'n \<Rightarrow> bool" where
  "transport D u net raw net1 \<longleftrightarrow>
     (let host = (case url_host u of None \<Rightarrow> str ''localhost'' | Some h \<Rightarrow> h);
          tcp = (\<lambda>port. de_tcp D (host @ str '':'' @ decimal (unat (port :: u16))) net = ready (Ok raw, net1)) in
      url_scheme u = str ''tcp'' \<and> (\<exists>port. url_port u = Some port \<and> tcp port) \<or>
      url_scheme u = str ''http'' \<and> tcp (port_or 80 u) \<or>
      url_scheme u \<in> {str ''https'', str ''tls''} \<and> tcp (port_or 443 u) \<or>
      \<not> de_windows D \<and> url_scheme u = str ''unix'' \<and>
        de_unix D (case url_host u of None \<Rightarrow> url_path u | Some h \<Rightarrow> h @ url_path u) net = ready (Ok raw, net1) \<or>
      de_windows D \<and> url_scheme u = str ''pipe'' \<and>
        (\<exists>addr. pipe_address u = Ok addr \<and> open_pipe D addr net = ready (Ok raw, net1)))"

lemma dial_transport:
  assumes "dial D u net = ready (Ok (raw, tls), net1)"
  shows "transport D u net raw net1"
  using assms
  by (auto simp: dial_def transport_def connect_tcp_def Let_def str_def elim!: and_awaitE
      split: if_splits option.splits sum.splits)

text \<open>A pipe that is busy for a while is waited for, 50 milliseconds at a time.\<close>

lemma open_pipe_waits:
  assumes "\<forall>i < k. de_open_pipe D addr (nets i) = (PipeBusy, after i) \<and> nets (Suc i) = de_sleep_ms D 50 (after i)"
    "de_open_pipe D addr (nets k) = (p, net1)" "p \<noteq> PipeBusy"
  shows "open_pipe D addr (nets 0) = ready (case p of PipeOpened c \<Rightarrow> Ok c | PipeFailed e \<Rightarrow> Err e, net1)"
  using assms
proof (induction k arbitrary: nets after)
  case 0
  then show ?case by (subst open_pipe.simps) (simp split: pipe_open.splits)
next
  case (Suc k)
  have "de_open_pipe D addr (nets 0) = (PipeBusy, after 0)" "nets (Suc 0) = de_sleep_ms D 50 (after 0)"
    using Suc.prems(1) by blast+
  then have "open_pipe D addr (nets 0) = open_pipe D addr (nets (Suc 0))"
    by (subst open_pipe.simps) simp
  moreover have "\<forall>i < k. de_open_pipe D addr (nets (Suc i)) = (PipeBusy, after (Suc i)) \<and>
      nets (Suc (Suc i)) = de_sleep_ms D 50 (after (Suc i))"
    using Suc.prems(1) by (metis Suc_less_eq)
  then have "open_pipe D addr (nets (Suc 0)) =
      ready (case p of PipeOpened c \<Rightarrow> Ok c | PipeFailed e \<Rightarrow> Err e, net1)"
    using Suc.IH [of "\<lambda>i. nets (Suc i)" "\<lambda>i. after (Suc i)"] Suc.prems(2,3) by blast
  ultimately show ?case by simp
qed

text \<open>
  C23. What a connection to the upstream service is made of: the transport of the scheme,
  at the address that the URL and the default of the scheme give;
  inside of TLS the PROXY header, if one is passed on, to be written before anything
  else; and TLS, for the schemes that ask for it and unless the connection carries the
  TLS of its client already, with the name of the host, with the certificate verified
  unless that was switched off, and with HTTP/2 offered exactly if it was asked for.
\<close>

theorem upstream_layers:
  assumes "connect_upstream D tunnel_tls verify app_protocol header u net = ready (Ok conn, net2)"
  shows "\<exists>raw tls net1 conn1. dial D u net = ready (Ok (raw, tls), net1) \<and>
    (tls \<longleftrightarrow> url_scheme u \<in> {str ''https'', str ''tls''}) \<and> transport D u net raw net1 \<and>
    (case header of
       None \<Rightarrow> conn1 = raw
     | Some h \<Rightarrow> \<exists>hb. de_encode D h = Ok hb \<and> conn1 = de_box D \<lparr>read_st = RsNone, write_st = Writing hb, ps_inner = raw\<rparr>) \<and>
    (if tls \<and> \<not> tunnel_tls then
       \<exists>domain certs p. de_server_name D (case url_host u of None \<Rightarrow> str ''localhost'' | Some h \<Rightarrow> h) = Ok domain \<and>
         de_native_certs D = Ok certs \<and> de_provider D = Some p \<and>
         de_tls D (let c = de_client_config D certs;
                       c1 = (if verify then c else de_set_verifier D (NoCertificateVerification p) c) in
             if app_protocol = Some (str ''http2'') then de_alpn D ALPN c1 else c1) domain conn1 net1 = ready (Ok conn, net2)
     else conn = conn1 \<and> net2 = net1)"
proof -
  obtain r net1 where d: "dial D u net = ready (r, net1)"
    using assms by (auto simp: connect_upstream_def simp del: and_await_Value_iff elim: and_awaitE)
  obtain raw tls where r: "r = Ok (raw, tls)"
    using assms d by (cases r) (auto simp: connect_upstream_def)
  obtain conn1 where h: "send_header D header raw = Value conn1"
    using assms d r by (cases "send_header D header raw") (auto simp: connect_upstream_def)
  from assms have t: "(if tls \<and> \<not> tunnel_tls then
         (case de_server_name D (case url_host u of None \<Rightarrow> str ''localhost'' | Some h \<Rightarrow> h) of
            Inl e \<Rightarrow> ready (Err (IoError InvalidInput (SrcText e)), net1)
          | Inr domain \<Rightarrow> (case tls_direct D app_protocol verify of
              Inl (IoError kind _) \<Rightarrow> ready (Err (IoError kind SrcNone), net1)
            | Inr config \<Rightarrow> de_tls D config domain conn1 net1))
       else ready (Ok conn1, net1)) = ready (Ok conn, net2)"
    unfolding connect_upstream_def tls_config_is_direct d r and_await.simps prod.case sum.case h .
  have "tls \<longleftrightarrow> url_scheme u \<in> {str ''https'', str ''tls''}"
    using d r by (auto simp: dial_def Let_def str_def elim!: and_awaitE
        split: if_splits option.splits sum.splits)
  moreover have "case header of None \<Rightarrow> conn1 = raw
     | Some h \<Rightarrow> \<exists>hb. de_encode D h = Ok hb \<and> conn1 = de_box D \<lparr>read_st = RsNone, write_st = Writing hb, ps_inner = raw\<rparr>"
    using h by (auto simp: send_header_def proxy_outgoing_def write_state_new_def split: option.splits sum.splits)
  moreover have "transport D u net raw net1" by (rule dial_transport [OF d [unfolded r]])
  ultimately show ?thesis
    using d r t by (auto simp: tls_direct_def Let_def split: if_splits sum.splits io_error.splits option.splits)
qed

text \<open>An upstream service whose connections record the layers they are made of.\<close>

definition demo_dial :: "(unit, unit, unit, rstring, rstring list, rstring list, unit) dial_env" where
  "demo_dial = \<lparr>de_tcp = (\<lambda>addr n. ready (Ok [addr], n)), de_unix = (\<lambda>path n. ready (Ok [path], n)),
     de_windows = False, de_open_pipe = (\<lambda>addr n. (PipeOpened [addr], n)), de_sleep_ms = (\<lambda>_ n. n),
     de_encode = (\<lambda>_. Ok []), de_box = (\<lambda>s. ps_inner s @ [str ''proxy'']), de_server_name = Ok,
     de_tls = (\<lambda>c d io n. ready (Ok (io @ c @ [d]), n)), de_native_certs = Ok [], de_client_config = (\<lambda>_. []),
     de_provider = Some (), de_set_verifier = (\<lambda>_ c. c @ [str ''unverified'']), de_alpn = (\<lambda>ps c. c @ [str ''h2''])\<rparr>"

theorem upstream_layers_witness:
  "\<exists>conn. connect_upstream demo_dial False False (Some (str ''http2'')) (Some ()) demo_upstream () = ready (Ok conn, ()) \<and>
    conn = [str ''up:443'', str ''proxy'', str ''unverified'', str ''h2'', str ''up'']"
proof -
  have dial: "dial demo_dial demo_upstream () = ready (Ok ([str ''up:443''], True), ())"
    by (simp add: dial_def demo_dial_def demo_upstream_def connect_tcp_def port_or_def decimal.simps str_def)
  obtain conn where c: "connect_upstream demo_dial False False (Some (str ''http2'')) (Some ()) demo_upstream () = ready (Ok conn, ())"
    by (simp add: connect_upstream_def dial)
      (simp add: demo_dial_def send_header_def proxy_outgoing_def write_state_new_def tls_config_is_direct tls_direct_def)
  from upstream_layers [OF this] dial c show ?thesis
    by (auto simp: demo_dial_def demo_upstream_def)
qed


end
