(* ===== verification/Hyper_Io.thy ===== *)
theory Hyper_Io
  imports Forwarding_Props
begin

text \<open>
  Reading and writing for the crate hyper, from \<open>proxy_proto.rs\<close> and \<open>conn.rs\<close>: writes
  are those of tokio, and a read goes through a buffer of tokio that is laid over the rest
  of the cursor of hyper. What a pending read has put there is not accounted for, so that
  nothing is lost only over streams whose pending reads put nothing there; a muxado
  stream is one, and so is what is wrapped around it.
\<close>

section \<open>The adapters\<close>

text \<open>\<open>ReadBufCursor\<close>: what is filled already and the room that is left.\<close>

record read_cursor =
  rc_filled :: bytes
  rc_room :: usize

definition cursor_advance :: "bytes \<Rightarrow> read_cursor \<Rightarrow> read_cursor" where
  "cursor_advance bs cur = cur\<lparr>rc_filled := rc_filled cur @ bs, rc_room := rc_room cur - length bs\<rparr>"

record 's hyper_io =
  hi_read :: "read_cursor \<Rightarrow> 's \<Rightarrow> ((io_error, unit) result poll \<times> read_cursor \<times> 's) option"
  hi_write :: "bytes \<Rightarrow> 's \<Rightarrow> ((io_error, usize) result poll \<times> 's) option"
  hi_flush :: "'s \<Rightarrow> (io_error, unit) result poll \<times> 's"
  hi_shutdown :: "'s \<Rightarrow> (io_error, unit) result poll \<times> 's"

definition hyper_poll_read ::
  "(usize \<Rightarrow> 's \<Rightarrow> ((io_error, unit) result poll \<times> bytes \<times> 's) option) \<Rightarrow> read_cursor \<Rightarrow> 's
     \<Rightarrow> ((io_error, unit) result poll \<times> read_cursor \<times> 's) option" where
  "hyper_poll_read rd buf s =
     Option.bind (rd (rc_room buf) s) (\<lambda>(r, filled, s').
       case r of
         Ready res \<Rightarrow> Some (Ready res, cursor_advance filled buf, s')
       | _ \<Rightarrow> Some (r, buf, s'))"

definition proxy_hyper :: "'x poll_io \<Rightarrow> ('e, 'h) parser \<Rightarrow> ('e, 'h, 'x) proxy_stream hyper_io" where
  "proxy_hyper io parse = \<lparr>hi_read = hyper_poll_read (proxy_poll_read io parse), hi_write = proxy_poll_write io,
     hi_flush = proxy_poll_flush io, hi_shutdown = proxy_poll_shutdown io\<rparr>"

definition conn_hyper :: "'x poll_io \<Rightarrow> 'x conn_inner hyper_io" where
  "conn_hyper io = \<lparr>hi_read = hyper_poll_read (pi_read (conn_io io)), hi_write = pi_write (conn_io io),
     hi_flush = pi_flush (conn_io io), hi_shutdown = pi_shutdown (conn_io io)\<rparr>"

section \<open>Sequences of reads\<close>

fun reads ::
  "(usize \<Rightarrow> 's \<Rightarrow> ((io_error, unit) result poll \<times> bytes \<times> 's) option) \<Rightarrow> usize list \<Rightarrow> 's \<Rightarrow> (bytes \<times> 's) option" where
  "reads rd [] s = Some ([], s)"
| "reads rd (room # rooms) s =
     Option.bind (rd room s) (\<lambda>(_, out, s1). map_option (\<lambda>(outs, s2). (out @ outs, s2)) (reads rd rooms s1))"

fun hyper_reads :: "'s hyper_io \<Rightarrow> read_cursor list \<Rightarrow> 's \<Rightarrow> (read_cursor list \<times> 's) option" where
  "hyper_reads H [] s = Some ([], s)"
| "hyper_reads H (cur # curs) s =
     Option.bind (hi_read H cur s) (\<lambda>(_, cur1, s1). map_option (\<lambda>(curs2, s2). (cur1 # curs2, s2)) (hyper_reads H curs s1))"

lemma proxy_reads_reads: "proxy_reads io parse rooms s = reads (proxy_poll_read io parse) rooms s"
  by (induction rooms arbitrary: s) simp_all

text \<open>A cursor that was added to keeps what it had and its size; what was added.\<close>

definition grown :: "read_cursor \<Rightarrow> read_cursor \<Rightarrow> bool" where
  "grown cur cur' \<longleftrightarrow> (\<exists>bs. rc_filled cur' = rc_filled cur @ bs \<and> rc_room cur = length bs + rc_room cur')"

fun added :: "read_cursor list \<Rightarrow> read_cursor list \<Rightarrow> bytes" where
  "added (cur # curs) (cur' # curs') = drop (length (rc_filled cur)) (rc_filled cur') @ added curs curs'"
| "added _ _ = []"

lemma hyper_poll_read_advances:
  assumes "rd (rc_room cur) s = Some (r, bs, s')" "r = Pending \<longrightarrow> bs = []" "r \<noteq> Panicked"
  shows "hyper_poll_read rd cur s = Some (r, cursor_advance bs cur, s')"
  using assms by (cases r) (simp_all add: hyper_poll_read_def cursor_advance_def)

lemma hyper_reads_are_reads:
  assumes step: "\<And>n s. P s \<Longrightarrow> \<exists>r bs s'. rd n s = Some (r, bs, s') \<and> r \<noteq> Panicked \<and> (r = Pending \<longrightarrow> bs = []) \<and>
      length bs \<le> n \<and> P s'"
    and "hi_read H = hyper_poll_read rd" "P s"
  shows "\<exists>curs' s'. hyper_reads H curs s = Some (curs', s') \<and> list_all2 grown curs curs' \<and>
    reads rd (map rc_room curs) s = Some (added curs curs', s')"
  using \<open>P s\<close>
proof (induction curs arbitrary: s)
  case Nil
  then show ?case by simp
next
  case (Cons cur curs)
  from step [OF Cons.prems, of "rc_room cur"] obtain r bs s1 where
    one: "rd (rc_room cur) s = Some (r, bs, s1)" "r \<noteq> Panicked" "r = Pending \<longrightarrow> bs = []"
      "length bs \<le> rc_room cur" "P s1" by blast
  from Cons.IH [OF one(5)] obtain curs' s2 where
    more: "hyper_reads H curs s1 = Some (curs', s2)" "list_all2 grown curs curs'"
      "reads rd (map rc_room curs) s1 = Some (added curs curs', s2)" by blast
  have "grown cur (cursor_advance bs cur)"
    using one(4) by (auto simp: grown_def cursor_advance_def)
  with one(1) more hyper_poll_read_advances [of rd cur, OF one(1,3,2)] assms(2) show ?case
    by (intro exI [of _ "cursor_advance bs cur # curs'"] exI [of _ s2]) (simp add: cursor_advance_def)
qed

section \<open>Streams whose pending reads give nothing\<close>

locale polite_stream = poll_stream io ok incoming outgoing
  for io :: "'x poll_io" and ok :: "'x \<Rightarrow> bool" and incoming outgoing :: "'x \<Rightarrow> bytes" +
  assumes pending_reads_nothing: "ok x \<Longrightarrow> pi_read io n x = Some (Pending, bs, x') \<Longrightarrow> bs = []"
begin

lemma read_step:
  assumes "ok x"
  shows "\<exists>r bs x'. pi_read io n x = Some (r, bs, x') \<and> r \<noteq> Panicked \<and> (r = Pending \<longrightarrow> bs = []) \<and> length bs \<le> n \<and> ok x'"
  using read_returns [OF assms, of n] pending_reads_nothing [OF assms] by blast

lemma reads_post:
  assumes "ok x" "reads (pi_read io) rooms x = Some (out, x')"
  shows "incoming x = out @ incoming x'"
  using assms
proof (induction rooms arbitrary: x out)
  case (Cons room rooms)
  from read_returns [OF Cons.prems(1), of room] obtain r bs x1 where
    "pi_read io room x = Some (r, bs, x1)" "incoming x = bs @ incoming x1" "ok x1" by blast
  with Cons.IH [of x1] Cons.prems(2) show ?case by auto
qed simp

lemma proxy_read_step:
  fixes s :: "('e, 'h, 'x) proxy_stream"
  assumes "header_parser parse" "readable s"
  shows "\<exists>r bs s'. proxy_poll_read io parse n s = Some (r, bs, s') \<and> r \<noteq> Panicked \<and>
    (r = Pending \<longrightarrow> bs = []) \<and> length bs \<le> n \<and> readable s'"
proof -
  from header_once_post [OF _ assms(1), of "ps_inner s" "read_st s"] assms(2) obtain q st x where
    h: "poll_read_header_once io parse (read_st s) (ps_inner s) = Some (q, st, x)" "ok x"
    unfolding readable_def unread_def by blast
  have "bs = []" if "proxy_poll_read io parse n s = Some (Pending, bs, s')" for bs s'
    using that h(1) pending_reads_nothing [OF h(2), of n]
    by (auto simp: proxy_poll_read_def Let_def split: poll.splits sum.splits read_state.splits if_splits)
  with proxy_read_post [OF assms, of n] show ?thesis by blast
qed

end

text \<open>A connection is as polite as its stream, and a muxado stream is.\<close>

lemma conn_polite_stream:
  assumes "polite_stream io ok incoming outgoing"
  shows "polite_stream (conn_io io) (\<lambda>c. ok (ts_inner (cn_stream c))) (\<lambda>c. incoming (ts_inner (cn_stream c)))
    (\<lambda>c. outgoing (ts_inner (cn_stream c)))"
proof (intro polite_stream.intro polite_stream_axioms.intro)
  show "poll_stream (conn_io io) (\<lambda>c. ok (ts_inner (cn_stream c))) (\<lambda>c. incoming (ts_inner (cn_stream c)))
    (\<lambda>c. outgoing (ts_inner (cn_stream c)))"
    by (rule conn_poll_stream [OF polite_stream.axioms(1) [OF assms]])
qed (auto simp: conn_io_def dest: polite_stream.pending_reads_nothing [OF assms])

context frame_chan
begin

lemma mux_pending_read:
  assumes "mux_ok x" "pi_read (mux_poll_io M w) n x = Some (Pending, bs, x')"
  shows "bs = []"
proof -
  obtain s h where x: "x = (s, h)" by fastforce
  have "snd_sink (st_fout s) \<noteq> st_fin s" "\<forall>f \<in> set (queue h (st_fin s)). stream_frame f"
      "length (read_buf s @ data_of (queue h (st_fin s))) < 2 ^ 32"
    using assms(1) by (simp_all add: mux_ok_def x)
  from read_post [OF this, of w n] obtain used where "read_spec w n s h used (poll_read M w n s h)" ..
  with assms(2) show ?thesis by (auto simp: read_spec_def x mux_poll_io_def)
qed

sublocale muxh: polite_stream "mux_poll_io M w" mux_ok mux_in mux_out for w
  by unfold_locales (rule mux_pending_read)

lemmas mux_polite_stream = muxh.polite_stream_axioms

end

section \<open>Properties\<close>

lemma conn_hyper_reads:
  assumes "polite_stream io ok incoming outgoing" "ok (ts_inner (cn_stream c))"
  shows "\<exists>curs' c'. hyper_reads (conn_hyper io) curs c = Some (curs', c') \<and> list_all2 grown curs curs' \<and>
    incoming (ts_inner (cn_stream c)) = added curs curs' @ incoming (ts_inner (cn_stream c'))"
proof -
  note polite = conn_polite_stream [OF assms(1)]
  have "hi_read (conn_hyper io) = hyper_poll_read (pi_read (conn_io io))"
    by (simp add: conn_hyper_def)
  from hyper_reads_are_reads [of "\<lambda>c. ok (ts_inner (cn_stream c))", OF polite_stream.read_step [OF polite] this assms(2)]
  obtain curs' c' where "hyper_reads (conn_hyper io) curs c = Some (curs', c')" "list_all2 grown curs curs'"
    "reads (pi_read (conn_io io)) (map rc_room curs) c = Some (added curs curs', c')" by blast
  with polite_stream.reads_post [OF polite assms(2)] show ?thesis by blast
qed


text \<open>An HTTP server with two cursors, one of which holds a byte already.\<close>

definition demo_cursors :: "read_cursor list" where
  "demo_cursors = [\<lparr>rc_filled = [9], rc_room = 2\<rparr>, \<lparr>rc_filled = [], rc_room = 7\<rparr>]"

definition demo_info :: conn_info where
  "demo_info = \<lparr>ci_header = \<lparr>ph_id = str ''t'', ph_client_addr = str ''1.2.3.4:5'', ph_proto = str ''http'',
       ph_edge_type = EdgeUndefined, ph_passthrough_tls = False\<rparr>,
     ci_remote_addr = any_addr, ci_proxy_proto = PpV1, ci_app_protocol = None, ci_verify_upstream_tls = True\<rparr>"

definition demo_endpoint :: "(mux_stream \<times> frame bounded_chan heap) conn_inner" where
  "demo_endpoint = \<lparr>cn_info = demo_info,
     cn_stream = \<lparr>ts_typ = PROXY_REQ, ts_inner = (demo_stream\<lparr>read_buf := [1, 2, 3]\<rparr>, demo_heap)\<rparr>\<rparr>"


end
