(* ===== verification/Tunnel_Types.thy ===== *)
theory Tunnel_Types
  imports Config_Props Forwarding_Props
begin

text \<open>
  The types a program works with: the four kinds of tunnel around \<open>TunnelInner\<close> that
  \<open>make_tunnel_type!\<close> of \<open>tunnel.rs\<close> generates, the two kinds of connection around
  \<open>ConnInner\<close> of \<open>conn.rs\<close>, and the forwarder of a tunnel (\<open>forwarder.rs\<close>), with the
  methods of the traits they implement. Each trait is one function on the kinds; it is
  \<open>None\<close> for a kind that does not implement the trait. The lemmas say what the methods
  return for a tunnel that was listened to, and which connections it accepts.
\<close>

section \<open>The inner tunnel\<close>

definition inner_id :: "tunnel_inner \<Rightarrow> rstring" where
  "inner_id tn = ti_id (tn_info tn)"

definition inner_url :: "tunnel_inner \<Rightarrow> rstring" where
  "inner_url tn = ti_url (tn_info tn)"

definition inner_proto :: "tunnel_inner \<Rightarrow> rstring" where
  "inner_proto tn = ti_proto (tn_info tn)"

definition inner_labels :: "tunnel_inner \<Rightarrow> (rstring \<rightharpoonup> rstring)" where
  "inner_labels tn = ti_labels (tn_info tn)"

definition inner_forwards_to :: "tunnel_inner \<Rightarrow> rstring" where
  "inner_forwards_to tn = ti_forwards_to (tn_info tn)"

definition inner_metadata :: "tunnel_inner \<Rightarrow> rstring" where
  "inner_metadata tn = ti_metadata (tn_info tn)"

section \<open>Connections\<close>

datatype 'x conn =
  EdgeConn (conn_in: "'x conn_inner")
| EndpointConn (conn_in: "'x conn_inner")

definition conn_remote_addr :: "'x conn \<Rightarrow> sock_addr" where
  "conn_remote_addr c = info_remote_addr (cn_info (conn_in c))"

fun conn_edge_type :: "'x conn \<Rightarrow> edge_type option" where
  "conn_edge_type (EdgeConn c) = Some (info_edge_type (cn_info c))"
| "conn_edge_type (EndpointConn _) = None"

fun conn_passthrough_tls :: "'x conn \<Rightarrow> bool option" where
  "conn_passthrough_tls (EdgeConn c) = Some (info_passthrough_tls (cn_info c))"
| "conn_passthrough_tls (EndpointConn _) = None"

fun conn_proto :: "'x conn \<Rightarrow> rstring option" where
  "conn_proto (EdgeConn _) = None"
| "conn_proto (EndpointConn c) = Some (info_proto (cn_info c))"

text \<open>\<open>Connected for SocketAddr\<close>, for the crate axum.\<close>

definition connect_info :: "'x conn \<Rightarrow> sock_addr" where
  "connect_info target = info_remote_addr (cn_info (conn_in target))"

section \<open>The kinds of tunnel\<close>

datatype tunnel =
  HttpTunnel (inner: tunnel_inner)
| TcpTunnel (inner: tunnel_inner)
| TlsTunnel (inner: tunnel_inner)
| LabeledTunnel (inner: tunnel_inner)

fun on_inner :: "(tunnel_inner \<Rightarrow> tunnel_inner) \<Rightarrow> tunnel \<Rightarrow> tunnel" where
  "on_inner f (HttpTunnel tn) = HttpTunnel (f tn)"
| "on_inner f (TcpTunnel tn) = TcpTunnel (f tn)"
| "on_inner f (TlsTunnel tn) = TlsTunnel (f tn)"
| "on_inner f (LabeledTunnel tn) = LabeledTunnel (f tn)"

definition tunnel_make_info :: "tunnel \<Rightarrow> tunnel" where
  "tunnel_make_info t = on_inner make_info t"

text \<open>\<open>TunnelInfo\<close>, \<open>EndpointInfo\<close> and \<open>EdgeInfo\<close>.\<close>

definition tunnel_id :: "tunnel \<Rightarrow> rstring" where
  "tunnel_id t = inner_id (inner t)"

definition tunnel_forwards_to :: "tunnel \<Rightarrow> rstring" where
  "tunnel_forwards_to t = inner_forwards_to (inner t)"

definition tunnel_metadata :: "tunnel \<Rightarrow> rstring" where
  "tunnel_metadata t = inner_metadata (inner t)"

fun tunnel_url :: "tunnel \<Rightarrow> rstring option" where
  "tunnel_url (LabeledTunnel _) = None"
| "tunnel_url t = Some (inner_url (inner t))"

fun tunnel_proto :: "tunnel \<Rightarrow> rstring option" where
  "tunnel_proto (LabeledTunnel _) = None"
| "tunnel_proto t = Some (inner_proto (inner t))"

fun tunnel_labels :: "tunnel \<Rightarrow> (rstring \<rightharpoonup> rstring) option" where
  "tunnel_labels (LabeledTunnel tn) = Some (inner_labels tn)"
| "tunnel_labels _ = None"

text \<open>\<open>TunnelCloser\<close>, and \<open>Stream\<close>, which puts the type around every connection.\<close>

definition close_typed ::
  "('c, 'y) rpc_env \<Rightarrow> serde \<Rightarrow> tunnel \<Rightarrow> ('n, 't, 'io, 'h, 'c, 'x) session_world
     \<Rightarrow> ((rpc_error, unit) result \<times> ('n, 't, 'io, 'h, 'c, 'x) session_world) async" where
  "close_typed E S t W = tunnel_close E S (inner t) W"

fun conn_type :: "tunnel \<Rightarrow> 'x conn_inner \<Rightarrow> 'x conn" where
  "conn_type (LabeledTunnel _) c = EdgeConn c"
| "conn_type _ c = EndpointConn c"

fun map_item :: "('a \<Rightarrow> 'b) \<Rightarrow> ('e, 'a) result option poll \<Rightarrow> ('e, 'b) result option poll" where
  "map_item f Pending = Pending"
| "map_item f Panicked = Panicked"
| "map_item f (Ready None) = Ready None"
| "map_item f (Ready (Some (Inl e))) = Ready (Some (Err e))"
| "map_item f (Ready (Some (Inr c))) = Ready (Some (Ok (f c)))"

definition typed_poll_next ::
  "tunnel \<Rightarrow> ('n, 't, 'io, 'h, 'c, 'x) session_world
     \<Rightarrow> (accept_error, 'x conn) result option poll \<times> ('n, 't, 'io, 'h, 'c, 'x) session_world" where
  "typed_poll_next t W = (case tunnel_poll_next (inner t) W of (p, W1) \<Rightarrow> (map_item (conn_type t) p, W1))"

text \<open>\<open>listen\<close> of \<open>impl_builder!\<close>, which puts the type around the tunnel.\<close>

definition listen_as ::
  "(tunnel_inner \<Rightarrow> tunnel) \<Rightarrow> ('c, 'y) rpc_env \<Rightarrow> serde \<Rightarrow> ('o \<Rightarrow> tunnel_config)
     \<Rightarrow> ('o, ('n, 't, 'io, 'h, 'c, 'x) session_world) tunnel_builder
     \<Rightarrow> ((rpc_error, tunnel) result \<times> ('n, 't, 'io, 'h, 'c, 'x) session_world) async" where
  "listen_as tun E S config b =
     and_await (listen E S config b) (\<lambda>(r, W). ready (map_sum id tun r, W))"

section \<open>The forwarder\<close>

text \<open>The methods of \<open>Forwarder\<close> ask the information it holds: \<open>tun\<close> is the type of that.\<close>

definition forwarder_info :: "(tunnel_inner \<Rightarrow> tunnel) \<Rightarrow> forwarder \<Rightarrow> tunnel" where
  "forwarder_info tun fw = tun (fo_inner fw)"

definition forwarder_join :: "forwarder \<Rightarrow> tunnel_inner \<times> url" where
  "forwarder_join fw = fo_join fw"

definition forwarder_id :: "(tunnel_inner \<Rightarrow> tunnel) \<Rightarrow> forwarder \<Rightarrow> rstring" where
  "forwarder_id tun fw = tunnel_id (forwarder_info tun fw)"

definition forwarder_forwards_to :: "(tunnel_inner \<Rightarrow> tunnel) \<Rightarrow> forwarder \<Rightarrow> rstring" where
  "forwarder_forwards_to tun fw = tunnel_forwards_to (forwarder_info tun fw)"

definition forwarder_metadata :: "(tunnel_inner \<Rightarrow> tunnel) \<Rightarrow> forwarder \<Rightarrow> rstring" where
  "forwarder_metadata tun fw = tunnel_metadata (forwarder_info tun fw)"

definition forwarder_proto :: "(tunnel_inner \<Rightarrow> tunnel) \<Rightarrow> forwarder \<Rightarrow> rstring option" where
  "forwarder_proto tun fw = tunnel_proto (forwarder_info tun fw)"

definition forwarder_url :: "(tunnel_inner \<Rightarrow> tunnel) \<Rightarrow> forwarder \<Rightarrow> rstring option" where
  "forwarder_url tun fw = tunnel_url (forwarder_info tun fw)"

definition forwarder_labels :: "(tunnel_inner \<Rightarrow> tunnel) \<Rightarrow> forwarder \<Rightarrow> (rstring \<rightharpoonup> rstring) option" where
  "forwarder_labels tun fw = tunnel_labels (forwarder_info tun fw)"

section \<open>Facts\<close>

lemma inner_on_inner [simp]: "inner (on_inner f t) = f (inner t)"
  by (cases t) simp_all

lemma make_info_fields [simp]:
  "tn_info (make_info tn) = tn_info tn" "tn_incoming (make_info tn) = None"
  by (simp_all add: make_info_def)

lemmas inner_defs = inner_id_def inner_url_def inner_proto_def inner_labels_def inner_forwards_to_def inner_metadata_def

text \<open>The information that is split off answers as the tunnel does; accepting from it panics.\<close>

lemma make_info_answers:
  "tunnel_id (tunnel_make_info t) = tunnel_id t \<and> tunnel_url (tunnel_make_info t) = tunnel_url t \<and>
   tunnel_proto (tunnel_make_info t) = tunnel_proto t \<and> tunnel_labels (tunnel_make_info t) = tunnel_labels t \<and>
   tunnel_forwards_to (tunnel_make_info t) = tunnel_forwards_to t \<and> tunnel_metadata (tunnel_make_info t) = tunnel_metadata t"
  by (cases t) (simp_all add: tunnel_make_info_def tunnel_id_def tunnel_forwards_to_def tunnel_metadata_def inner_defs)

lemma info_accept_panics: "typed_poll_next (tunnel_make_info t) W = (Panicked, W)"
  by (simp add: typed_poll_next_def tunnel_make_info_def tunnel_poll_next_def)

text \<open>
  A tunnel accepts connections of its own type: what its queue holds first, taken from
  the queue.
\<close>

lemma map_item_conn: "map_item f p = Ready (Some (Ok c)) \<longleftrightarrow> (\<exists>d. p = Ready (Some (Ok d)) \<and> c = f d)"
  by (cases "(f, p)" rule: map_item.cases) auto

lemma accepted_conn:
  assumes "typed_poll_next t W = (Ready (Some (Ok c)), W1)"
  shows "c = conn_type t (conn_in c)"
    and "\<exists>rx rest. tn_incoming (inner t) = Some rx \<and> tc_queue (sw_chans W rx) = Ok (conn_in c) # rest \<and>
      tc_queue (sw_chans W1 rx) = rest"
proof -
  from assms obtain p where p: "tunnel_poll_next (inner t) W = (p, W1)" "map_item (conn_type t) p = Ready (Some (Ok c))"
    by (auto simp: typed_poll_next_def split: prod.splits)
  then obtain d where d: "p = Ready (Some (Ok d))" "c = conn_type t d"
    by (auto simp: map_item_conn)
  then have in_c: "conn_in c = d" by (cases t) simp_all
  with d(2) show "c = conn_type t (conn_in c)" by simp
  from p(1) d(1) in_c show "\<exists>rx rest. tn_incoming (inner t) = Some rx \<and>
      tc_queue (sw_chans W rx) = Ok (conn_in c) # rest \<and> tc_queue (sw_chans W1 rx) = rest"
    by (auto simp: tunnel_poll_next_def Let_def split: option.splits list.splits if_splits)
qed

text \<open>
  What a program is told about a tunnel it listens to, or forwards, is what the session
  filed: the tunnel is found under its identifier with what it forwards to and its metadata.
\<close>

lemma map_sum_Ok: "map_sum id f r = Ok y \<longleftrightarrow> (\<exists>x. r = Ok x \<and> y = f x)"
  by (cases r) auto

lemma listen_as_binds:
  assumes "listen_as tun E S config b = ready (Ok t, W1)"
  shows "\<exists>session tn. tb_session b = Some session \<and> t = tun tn \<and> bound_as (config (tb_options b)) session tn W1"
  using assms
  by (auto simp: listen_as_def listen_def map_sum_Ok simp del: and_await_Value_iff elim!: and_awaitE
      split: option.splits prod.splits dest!: start_tunnel_binds)

lemma forwarded_tunnel:
  assumes "listen_and_forward E S fwd config b to_url = ready (Ok fw, W1)"
    and wrap: "\<And>tn. inner (tun tn) = tn"
  shows "\<exists>t. tunnels W1 (forwarder_id tun fw) = Some t \<and>
    forwarder_join fw = ((fo_inner fw)\<lparr>tn_incoming := Some (bt_tx t)\<rparr>, to_url) \<and>
    forwarder_forwards_to tun fw = bt_forwards_to t \<and>
    forwarder_metadata tun fw = be_metadata (tg_extra (config (fwd to_url (tb_options b)))) \<and>
    sw_chans W1 (bt_tx t) = \<lparr>tc_queue = [], tc_open = True\<rparr>"
proof -
  let ?b = "b\<lparr>tb_options := fwd to_url (tb_options b)\<rparr>"
  from assms(1) obtain tn where l: "listen E S config ?b = ready (Ok tn, W1)"
    and fw: "fw = \<lparr>fo_join = (tn, to_url), fo_inner = make_info tn\<rparr>"
    by (auto simp: listen_and_forward_def Let_def forward_def simp del: and_await_Value_iff elim!: and_awaitE split: sum.splits)
  from l obtain session where "start_tunnel E S (config (fwd to_url (tb_options b))) session = ready (Ok tn, W1)"
    by (auto simp: listen_def split: option.splits)
  from start_tunnel_binds [OF this] obtain t where "tunnels W1 (ti_id (tn_info tn)) = Some t"
    "tn_incoming tn = Some (bt_tx t)" "ti_forwards_to (tn_info tn) = bt_forwards_to t"
    "ti_metadata (tn_info tn) = be_metadata (tg_extra (config (fwd to_url (tb_options b))))"
    "sw_chans W1 (bt_tx t) = \<lparr>tc_queue = [], tc_open = True\<rparr>"
    by (auto simp: bound_as_def split: option.splits)
  then show ?thesis
    by (simp add: fw wrap forwarder_id_def forwarder_join_def forwarder_forwards_to_def forwarder_metadata_def
        forwarder_info_def tunnel_id_def tunnel_forwards_to_def tunnel_metadata_def inner_defs make_info_def)
qed

end
