(* ===== verification/Spec2Isabelle.thy ===== *)
theory Spec2Isabelle
  imports Codec_Props Stream_Props Manager_Props Session_Props Link_Wire Pipe_Refinement Stream_Life
    Heartbeat Proxy_Props Tunnel_Props Tunnel_Refinement Connector_Props Config_Props Forwarding_Props Hyper_Io
    Tunnel_Types
begin

text \<open>
  The crates \<open>muxado\<close> and \<open>ngrok\<close>: many streams over one connection, and on top of them
  a session with the ngrok service whose tunnels hand connections to the program.

  \<^bold>\<open>The program.\<close> A connection to the service carries frames. Each side has one read task
  and one write task; the stream manager between them keeps a channel of frames to every
  stream and one shared channel of frames from all of them. Bytes in flight on a stream
  are limited by its window. Above the streams, \<open>typed.rs\<close> puts a type in front of each
  and \<open>heartbeat.rs\<close> keeps one busy to measure the connection. A raw session sends
  requests on streams of their own and accepts the streams the service opens: commands,
  and connections of users, each with a header that names its tunnel. The session files
  the tunnels by identifier, posts connections to the channels of their listeners, and
  after a failure connects and binds all tunnels again. A listener may forward its
  connections to a URL, through TLS and the PROXY protocol.

  \<^bold>\<open>The crate muxado\<close> (\<open>muxado/src\<close>).
  \<^item> \<open>Prelude\<close>: words, results of a poll, big-endian numbers, and the rule of invariants.
  \<open>Mpsc\<close>: the channels of the crate futures, as a locale with a bounded queue.
  \<^item> \<open>Constrained\<close> (\<open>constrained.rs\<close>), \<open>Mux_Errors\<close> (\<open>errors.rs\<close>), \<open>Frame\<close>
  (\<open>frame.rs\<close>), \<open>Codec\<close> (\<open>codec.rs\<close>): numbers that fit their fields, codes, frames and
  their bytes. \<open>Codec_Props\<close>: any chunking of the bytes of frames decodes to them; arbitrary
  bytes are accounted for; a GOAWAY is not encoded as it is meant to be.
  \<^item> \<open>Window\<close> (\<open>window.rs\<close>), \<open>Stream_Output\<close> (\<open>stream_output.rs\<close>), \<open>Mux_Stream\<close>
  (\<open>stream.rs\<close>): a stream with its polls. \<open>Stream_Props\<close>: what a read, a write and a
  shutdown do to the channels.
  \<^item> \<open>Stream_Manager\<close> (\<open>stream_manager.rs\<close>): streams by identifier, a set of tasks, and
  the delivery of frames. \<open>Manager_Props\<close>: its invariant, its identifiers, its limits.
  \<open>Flow_Control\<close>: two ends of a stream and the credit between them. \<open>Delivery\<close>: what
  is written at one end is read at the other. \<open>End_Of_Stream\<close>: shutting down and the end
  of file. \<open>Conservation\<close>: no credit is lost. \<open>Link_Wire\<close>: frames and their
  bytes. \<open>Pipe_Refinement\<close>: together, two ends of a stream are a bounded pipe.
  \<open>Stream_Life\<close>: one end through its whole life with the drop that ends it: one FIN at
  most, nothing after it, and nothing that was written left behind.
  \<^item> \<open>Mux_Session\<close> (\<open>session.rs\<close>): the builder, the tasks, and opening, accepting and
  closing. \<open>Session_Props\<close>: the tasks interleaved, when they do not panic, and what ends
  them.
  \<^item> \<open>Typed_Stream\<close> (\<open>typed.rs\<close>), \<open>Heartbeat\<close> (\<open>heartbeat.rs\<close>).

  \<^bold>\<open>The crate ngrok\<close> (\<open>ngrok/src\<close>).
  \<^item> \<open>Rust_Text\<close>, \<open>Utf8\<close>: strings of the standard library and awaiting.
  \<^item> \<open>Proto\<close> (\<open>internals/proto.rs\<close>), \<open>Raw_Session\<close> (\<open>internals/raw_session.rs\<close>,
  \<open>rpc.rs\<close>), with \<open>Proto_Props\<close> and \<open>Raw_Session_Props\<close>: messages, requests, the
  commands of the service and the accept loop.
  \<^item> \<open>Session_Builder\<close>, \<open>Connectors\<close>, \<open>Tunnel_Session\<close> (\<open>session.rs\<close>, \<open>tunnel.rs\<close>,
  \<open>conn.rs\<close>): the builder, the ways to connect, and the session. The shared state behind
  the \<open>ArcSwap\<close>, the channels of the listeners and the number of the next channel are
  the record \<open>session_world\<close>. \<open>Tunnel_Props\<close>: its invariant, delivery, reconnecting.
  \<open>Tunnel_Refinement\<close>: the session implements mailboxes. \<open>Connector_Props\<close>: what the
  checks of the builder are worth.
  \<^item> \<open>Config_Common\<close>, \<open>Config\<close> (\<open>config/*.rs\<close>): the options of the four kinds of tunnel,
  every method of their builders, and the messages made of them. \<open>Config_Props\<close>: each
  kind keeps the promise the session relies on, and the headers of an HTTP tunnel.
  \<^item> \<open>Proxy_Proto\<close> (\<open>proxy_proto.rs\<close>), \<open>Proxy_Props\<close>: the stream that writes or takes
  a PROXY header, over any stream that polls.
  \<^item> \<open>Forwarding\<close> (\<open>tunnel_ext.rs\<close>, \<open>forwarder.rs\<close>, \<open>conn.rs\<close>), \<open>Forwarding_Props\<close>:
  connecting to the upstream service, and the forwarder of a tunnel. \<open>Hyper_Io\<close>: what an
  HTTP server reads from a connection through the crate hyper.
  \<^item> \<open>Tunnel_Types\<close> (\<open>tunnel.rs\<close>, \<open>conn.rs\<close>, \<open>forwarder.rs\<close>): the types of tunnels,
  connections and forwarders around their inner ones, with the methods of their traits.

  \<^bold>\<open>How code becomes definitions.\<close> A struct is a record and an enum a datatype; an integer
  keeps its width. An error is the left of a sum. An asynchronous function that runs from
  one await to the next is a function on its state; a task that awaits in a loop is a step
  function with a program counter. The value of an awaited call is an option of a result
  that may be a panic: \<open>None\<close> is a call that never returns. A loop of which nothing bounds
  the number of turns is a partial function in that option; that it returns is then proved
  where it does (reads, writes, decoding, requests), and that it does not where it does
  not. Wake-ups are values the polls return or record where a property is about them.

  \<^bold>\<open>Interfaces.\<close> The locales are the contracts between the parts: \<open>fifo_chan\<close>,
  \<open>frame_chan\<close>, \<open>open_chan\<close>, \<open>live_chan\<close> and \<open>drop_chan\<close> for channels,
  \<open>be_buf\<close> for big-endian buffers, \<open>credit\<close> for windows,
  \<open>constrained_num\<close> and its extensions for the numbers of frames, \<open>byte_stream\<close> and
  \<open>poll_stream\<close> with \<open>polite_stream\<close> for what reads and writes, \<open>bindable\<close> for configurations,
  \<open>session_env\<close> for the channels of a session, and \<open>machine_inv\<close> for state machines.
  Each is interpreted on the definitions of the component that provides it; a muxado stream
  is a \<open>byte_stream\<close> and a \<open>polite_stream\<close>.

  \<^bold>\<open>Bounds.\<close> There is no fuel. Numbers are those of the code: 64 connections in the channel
  of a listener, 536 bytes of a PROXY header, 24 bits of a length, 31 of a stream
  identifier.

  \<^bold>\<open>Parameters.\<close> Code of other crates is an argument: channels, JSON, URLs and URIs, TLS and
  certificates, sockets, the parser of PROXY headers, the copying of bytes, base64, timers.
  So are the order in which a hash map is iterated, the order in which \<open>FuturesUnordered\<close>
  polls its tasks, lower and upper case of arbitrary text, and the machine the program runs
  on.

  \<^bold>\<open>Not modelled.\<close>
  \<^item> Memory and pinning, and the waker of a task beyond whether it is woken. The lock of the
  two halves of the manager is held within one poll, which makes a poll atomic here.
  \<^item> Spawning, the selection of a ready branch, \<open>Framed\<close> and the dropping of tasks are
  library calls: a spawned task is recorded or is a step of the environment. The drop of a
  tunnel is a definition; the request it spawns is a later step.
  \<^item> The derived mapping of messages to JSON, \<open>Display\<close> and \<open>Debug\<close> where they only format.
  \<^item> Declarations of traits and modules, re-exports, tests, examples, and the tool that serves
  the documentation.
\<close>

end
